(* ===== verification/Prelude.thy ===== *)
theory Prelude
  imports Main "HOL-Library.Word"
begin

text \<open>
  The prelude: what the components share. It holds the parts of Go's standard library the code
  calls on almost every line (\<open>strings.TrimSpace\<close>, \<open>strings.HasPrefix\<close>, \<open>strings.Trim\<close>,
  \<open>time.Time\<close> and \<open>time.Duration\<close> conversions), the result type of a fallible operation and the
  generic lemmas on lists used by the component theories.

  A Go string is a list of bytes, so it is a \<open>string\<close> here and \<open>length\<close> counts bytes as
  \<open>len\<close> does. A \<open>time.Time\<close> is an \<open>int\<close>, the nanoseconds since the Unix epoch, and a
  \<open>time.Duration\<close> an \<open>int\<close> of nanoseconds.
\<close>

named_theorems go_simps \<open>equations of the small Go helpers, for \<open>simp add: go_simps\<close>\<close>

section \<open>Strings\<close>

definition has_prefix :: "string \<Rightarrow> string \<Rightarrow> bool" where
  "has_prefix s p \<longleftrightarrow> take (length p) s = p"

definition trim_prefix :: "string \<Rightarrow> string \<Rightarrow> string" where
  "trim_prefix s p = (if has_prefix s p then drop (length p) s else s)"

definition has_suffix :: "string \<Rightarrow> string \<Rightarrow> bool" where
  "has_suffix s p \<longleftrightarrow> has_prefix (rev s) (rev p)"

definition trim_suffix :: "string \<Rightarrow> string \<Rightarrow> string" where
  "trim_suffix s p = (if has_suffix s p then take (length s - length p) s else s)"

text \<open>\<open>strings.Contains\<close>: the needle is a prefix of some suffix.\<close>

fun str_contains :: "string \<Rightarrow> string \<Rightarrow> bool" where
  "str_contains [] p = (p = [])"
| "str_contains (c # s) p = (has_prefix (c # s) p \<or> str_contains s p)"

text \<open>
  The UTF-8 encodings of the code points \<open>unicode.IsSpace\<close> accepts; \<open>strings.TrimSpace\<close>
  removes them at both ends. The lead byte of each occurs nowhere else in it, so taking an encoding
  off the end by its bytes agrees with decoding the last rune.
\<close>

definition go_spaces :: "string list" where
  "go_spaces =
     [[CHR 0x20], [CHR 0x09], [CHR 0x0A], [CHR 0x0B], [CHR 0x0C], [CHR 0x0D],
      [CHR 0xC2, CHR 0x85], [CHR 0xC2, CHR 0xA0], [CHR 0xE1, CHR 0x9A, CHR 0x80],
      [CHR 0xE2, CHR 0x80, CHR 0x80], [CHR 0xE2, CHR 0x80, CHR 0x81], [CHR 0xE2, CHR 0x80, CHR 0x82],
      [CHR 0xE2, CHR 0x80, CHR 0x83], [CHR 0xE2, CHR 0x80, CHR 0x84], [CHR 0xE2, CHR 0x80, CHR 0x85],
      [CHR 0xE2, CHR 0x80, CHR 0x86], [CHR 0xE2, CHR 0x80, CHR 0x87], [CHR 0xE2, CHR 0x80, CHR 0x88],
      [CHR 0xE2, CHR 0x80, CHR 0x89], [CHR 0xE2, CHR 0x80, CHR 0x8A], [CHR 0xE2, CHR 0x80, CHR 0xA8],
      [CHR 0xE2, CHR 0x80, CHR 0xA9], [CHR 0xE2, CHR 0x80, CHR 0xAF], [CHR 0xE2, CHR 0x81, CHR 0x9F],
      [CHR 0xE3, CHR 0x80, CHR 0x80]]"

function strip_pre :: "string list \<Rightarrow> string \<Rightarrow> string" where
  "strip_pre ps s =
     (case find (\<lambda>p. p \<noteq> [] \<and> has_prefix s p) ps of
        None \<Rightarrow> s
      | Some p \<Rightarrow> strip_pre ps (drop (length p) s))"
  by pat_completeness auto
termination
proof (relation "measure (\<lambda>(ps, s). length s)")
  fix ps s p
  assume "find (\<lambda>p. p \<noteq> [] \<and> has_prefix s p) ps = Some p"
  then have "p \<noteq> []" and "take (length p) s = p"
    by (auto simp: find_Some_iff has_prefix_def)
  then have "length p \<le> length s" and "0 < length p"
    by (metis length_take min.cobounded1 min.absorb_iff2, simp)
  then have "length s - length p < length s" by linarith
  then show "((ps, drop (length p) s), ps, s) \<in> measure (\<lambda>(ps, s). length s)" by simp
qed simp

declare strip_pre.simps [simp del]

definition trim_left :: "string \<Rightarrow> string" where
  "trim_left s = strip_pre go_spaces s"

definition trim_right :: "string \<Rightarrow> string" where
  "trim_right s = rev (strip_pre (map rev go_spaces) (rev s))"

definition trim_space :: "string \<Rightarrow> string" where
  "trim_space s = trim_right (trim_left s)"

text \<open>\<open>strings.Trim(s, cutset)\<close> for an ASCII cutset.\<close>

definition trim_set :: "string \<Rightarrow> string \<Rightarrow> string" where
  "trim_set cs s = rev (dropWhile (\<lambda>c. c \<in> set cs) (rev (dropWhile (\<lambda>c. c \<in> set cs) s)))"

definition blank :: "string \<Rightarrow> bool" where
  "blank s \<longleftrightarrow> trim_space s = []"

lemma has_prefix_append [simp]: "has_prefix (p @ s) p"
  by (simp add: has_prefix_def)

lemma has_prefix_Nil [simp]: "has_prefix s []"
  by (simp add: has_prefix_def)

lemma has_prefixD: "has_prefix s p \<Longrightarrow> s = p @ drop (length p) s"
  by (metis append_take_drop_id has_prefix_def)

lemma trim_prefix_append [simp]: "trim_prefix (p @ s) p = s"
  by (simp add: trim_prefix_def)

lemma strip_pre_Nil [simp]: "strip_pre ps [] = []"
  by (subst strip_pre.simps) (auto simp: has_prefix_def split: option.splits dest!: find_Some_iff [THEN iffD1])

lemma strip_pre_None:
  "find (\<lambda>p. p \<noteq> [] \<and> has_prefix s p) ps = None \<Longrightarrow> strip_pre ps s = s"
  by (simp add: strip_pre.simps [of ps s])

lemma strip_pre_Some:
  "find (\<lambda>p. p \<noteq> [] \<and> has_prefix s p) ps = Some p \<Longrightarrow>
   strip_pre ps s = strip_pre ps (drop (length p) s)"
  by (simp add: strip_pre.simps [of ps s])

lemma strip_pre_suffix: "\<exists>pre. s = pre @ strip_pre ps s"
proof (induction ps s rule: strip_pre.induct)
  case (1 ps s)
  show ?case
  proof (cases "find (\<lambda>p. p \<noteq> [] \<and> has_prefix s p) ps")
    case None
    then show ?thesis by (simp add: strip_pre_None)
  next
    case (Some p)
    then have "has_prefix s p" by (auto simp: find_Some_iff)
    then have "s = p @ drop (length p) s" by (rule has_prefixD)
    moreover from "1.IH" [OF Some] obtain pre where
      "drop (length p) s = pre @ strip_pre ps (drop (length p) s)" by blast
    ultimately have "s = (p @ pre) @ strip_pre ps (drop (length p) s)" by simp
    then show ?thesis unfolding strip_pre_Some [OF Some] by blast
  qed
qed

lemma strip_pre_no_prefix:
  "p \<in> set ps \<Longrightarrow> p \<noteq> [] \<Longrightarrow> \<not> has_prefix (strip_pre ps s) p"
proof (induction ps s rule: strip_pre.induct)
  case (1 ps s)
  show ?case
  proof (cases "find (\<lambda>p. p \<noteq> [] \<and> has_prefix s p) ps")
    case None
    with "1.prems" show ?thesis by (auto simp: strip_pre_None find_None_iff)
  next
    case (Some q)
    from "1.IH" [OF Some "1.prems"] show ?thesis by (simp add: strip_pre_Some [OF Some])
  qed
qed

lemma strip_pre_fixed:
  "(\<And>p. p \<in> set ps \<Longrightarrow> p \<noteq> [] \<Longrightarrow> \<not> has_prefix s p) \<Longrightarrow> strip_pre ps s = s"
  by (subst strip_pre.simps) (auto split: option.splits dest!: find_Some_iff [THEN iffD1])

lemma length_strip_pre: "length (strip_pre ps s) \<le> length s"
  using strip_pre_suffix [of s ps] by (metis le_add2 length_append)

lemma set_strip_pre: "set (strip_pre ps s) \<subseteq> set s"
  using strip_pre_suffix [of s ps] by (metis Un_upper2 set_append)

lemma trim_space_Nil [simp]: "trim_space [] = []"
  by (simp add: trim_space_def trim_left_def trim_right_def)

lemma blank_Nil [simp]: "blank []"
  by (simp add: blank_def)

lemma set_trim_space: "set (trim_space s) \<subseteq> set s"
  unfolding trim_space_def trim_left_def trim_right_def
  using set_strip_pre by (metis set_rev subset_trans)

lemma length_trim_space: "length (trim_space s) \<le> length s"
  unfolding trim_space_def trim_left_def trim_right_def
  using length_strip_pre by (metis length_rev le_trans)

lemma strip_pre_idem [simp]: "strip_pre ps (strip_pre ps s) = strip_pre ps s"
  by (rule strip_pre_fixed) (rule strip_pre_no_prefix)

lemma has_prefix_trans: "has_prefix s t \<Longrightarrow> has_prefix t p \<Longrightarrow> has_prefix s p"
  by (metis append.assoc has_prefixD has_prefix_append)

lemma trim_right_prefix: "has_prefix s (trim_right s)"
proof -
  obtain pre where "rev s = pre @ strip_pre (map rev go_spaces) (rev s)"
    using strip_pre_suffix by blast
  then have "s = trim_right s @ rev pre" by (metis rev_append rev_rev_ident trim_right_def)
  then show ?thesis by (metis has_prefix_append)
qed

lemma trim_space_idem [simp]: "trim_space (trim_space s) = trim_space s"
proof -
  have "trim_left (trim_space s) = trim_space s"
    unfolding trim_left_def
  proof (rule strip_pre_fixed)
    fix p assume p: "p \<in> set go_spaces" "p \<noteq> []"
    have "has_prefix (trim_left s) (trim_space s)" by (simp add: trim_space_def trim_right_prefix)
    then show "\<not> has_prefix (trim_space s) p"
      using strip_pre_no_prefix [OF p, of s] has_prefix_trans by (auto simp: trim_left_def)
  qed
  moreover have "trim_right (trim_right t) = trim_right t" for t by (simp add: trim_right_def)
  ultimately show ?thesis by (metis trim_space_def)
qed

lemma blank_trim_space [simp]: "blank (trim_space s) \<longleftrightarrow> blank s"
  by (simp add: blank_def)

section \<open>Decimal numerals\<close>

definition digit_char :: "nat \<Rightarrow> char" where
  "digit_char d = char_of (48 + d)"

fun nat_str :: "nat \<Rightarrow> string" where
  "nat_str n = (if n < 10 then [digit_char n] else nat_str (n div 10) @ [digit_char (n mod 10)])"

declare nat_str.simps [simp del]

definition int_str :: "int \<Rightarrow> string" where
  "int_str i = (if i < 0 then CHR ''-'' # nat_str (nat (- i)) else nat_str (nat i))"

text \<open>\<open>%0wd\<close>: padded with zeros to width \<open>w\<close>.\<close>

definition pad_zeros :: "nat \<Rightarrow> string \<Rightarrow> string" where
  "pad_zeros w s = replicate (w - length s) (CHR ''0'') @ s"

lemma nat_str_nonempty [simp]: "nat_str n \<noteq> []" "[] \<noteq> nat_str n"
  by (simp_all add: nat_str.simps [of n])

lemma digit_char_inj: "a < 10 \<Longrightarrow> b < 10 \<Longrightarrow> digit_char a = digit_char b \<longleftrightarrow> a = b"
  by (auto simp: digit_char_def char_of_eq_iff take_bit_eq_mod)

lemma nat_str_small: "n < 10 \<Longrightarrow> nat_str n = [digit_char n]"
  by (simp add: nat_str.simps [of n])

lemma nat_str_step: "10 \<le> n \<Longrightarrow> nat_str n = nat_str (n div 10) @ [digit_char (n mod 10)]"
  by (simp add: nat_str.simps [of n])

lemma nat_str_inj: "nat_str m = nat_str n \<longleftrightarrow> m = n"
proof (induction m arbitrary: n rule: nat_str.induct)
  case (1 m)
  consider "m < 10" "n < 10" | "m < 10" "10 \<le> n" | "10 \<le> m" "n < 10" | "10 \<le> m" "10 \<le> n"
    by linarith
  then show ?case
  proof cases
    case 4
    with "1.IH" [of "n div 10"] have "nat_str m = nat_str n \<longleftrightarrow> m div 10 = n div 10 \<and> m mod 10 = n mod 10"
      by (simp add: nat_str_step digit_char_inj)
    also have "\<dots> \<longleftrightarrow> m = n" by (metis div_mult_mod_eq)
    finally show ?thesis .
  qed (auto simp: nat_str_small nat_str_step digit_char_inj)
qed

section \<open>Times and durations\<close>

type_synonym go_time = int
type_synonym duration = int
type_synonym millis = int

text \<open>
  The zero \<open>time.Time\<close> is midnight of January 1 of the year 1, and \<open>IsZero\<close> tests for it.
\<close>

definition zero_time :: go_time where
  "zero_time = - 62135596800 * 1000000000"

definition second :: duration where "second = 1000000000"
definition millisecond :: duration where "millisecond = 1000000"
definition minute :: duration where "minute = 60 * second"

text \<open>Go's integer division truncates towards zero.\<close>

definition go_div :: "int \<Rightarrow> int \<Rightarrow> int" where
  "go_div a b = sgn a * sgn b * (\<bar>a\<bar> div \<bar>b\<bar>)"

lemma go_div_nonneg: "0 \<le> a \<Longrightarrow> 0 < b \<Longrightarrow> go_div a b = a div b"
  by (cases "a = 0") (simp_all add: go_div_def)

section \<open>Results\<close>

text \<open>
  A Go function that returns \<open>(T, error)\<close> and changes a state \<open>'s\<close> returns the new state and
  either the error or the value. \<open>run_tx\<close> is \<open>BeginTx\<close>, the body, and \<open>Commit\<close>, with the
  deferred \<open>Rollback\<close> on every error path: the body sees the state, and its changes are kept only
  when it succeeds.
\<close>

type_synonym ('s, 'e, 'a) op = "'s \<Rightarrow> ('e + 'a) \<times> 's"
type_synonym ('s, 'e, 'a) tx = "'s \<Rightarrow> 'e + ('a \<times> 's)"

definition run_tx :: "('s, 'e, 'a) tx \<Rightarrow> ('s, 'e, 'a) op" where
  "run_tx body s = (case body s of Inl e \<Rightarrow> (Inl e, s) | Inr (a, s') \<Rightarrow> (Inr a, s'))"

lemma run_tx_Inl: "run_tx body s = (Inl e, s') \<Longrightarrow> s' = s"
  by (auto simp: run_tx_def split: sum.splits)

lemma run_tx_Inr: "run_tx body s = (Inr a, s') \<longleftrightarrow> body s = Inr (a, s')"
  by (auto simp: run_tx_def split: sum.splits)

lemma run_tx_cases:
  assumes "run_tx body s = (r, s')"
  obtains (err) e where "r = Inl e" "s' = s" "body s = Inl e"
    | (ok) a where "r = Inr a" "body s = Inr (a, s')"
  using assms by (auto simp: run_tx_def split: sum.splits prod.splits)

section \<open>Lists\<close>

text \<open>\<open>ORDER BY k LIMIT 1\<close>: the first row with the least key.\<close>

fun first_min :: "('a \<Rightarrow> 'k::linorder) \<Rightarrow> 'a list \<Rightarrow> 'a option" where
  "first_min k [] = None"
| "first_min k (x # xs) =
     (case first_min k xs of
        None \<Rightarrow> Some x
      | Some y \<Rightarrow> if k x \<le> k y then Some x else Some y)"

lemma first_min_None [simp]: "first_min k xs = None \<longleftrightarrow> xs = []"
  by (cases xs) (auto split: option.splits)

lemma first_min_in: "first_min k xs = Some x \<Longrightarrow> x \<in> set xs"
  by (induction xs arbitrary: x) (auto split: option.splits if_splits)

lemma first_min_le: "first_min k xs = Some x \<Longrightarrow> y \<in> set xs \<Longrightarrow> k x \<le> k y"
proof (induction xs arbitrary: x y)
  case Nil
  then show ?case by simp
next
  case (Cons a xs)
  show ?case
  proof (cases "first_min k xs")
    case None
    with Cons.prems show ?thesis by auto
  next
    case (Some b)
    from Cons.IH [OF Some] have "\<And>z. z \<in> set xs \<Longrightarrow> k b \<le> k z" .
    with Some Cons.prems show ?thesis
      by (auto split: if_splits intro: order_trans less_imp_le)
  qed
qed

lemma distinct_map_inj: "distinct (map f xs) \<Longrightarrow> x \<in> set xs \<Longrightarrow> y \<in> set xs \<Longrightarrow> f x = f y \<Longrightarrow> x = y"
  by (auto simp: distinct_map inj_on_def)

section \<open>State machines\<close>

text \<open>
  A component is a step relation labelled with events; \<open>path\<close> is a sequence of steps. The locales
  state what is proved once for every such component: an invariant of each step holds along a path,
  and a fact that the events on a path spare survives it.
\<close>

inductive path :: "('e \<Rightarrow> 's \<Rightarrow> 's \<Rightarrow> bool) \<Rightarrow> 'e list \<Rightarrow> 's \<Rightarrow> 's \<Rightarrow> bool"
  for step :: "'e \<Rightarrow> 's \<Rightarrow> 's \<Rightarrow> bool" where
  path_Nil: "path step [] s s"
| path_Cons: "step e s s' \<Longrightarrow> path step es s' s'' \<Longrightarrow> path step (e # es) s s''"

inductive_simps path_Nil_iff [simp]: "path step [] s s'"
inductive_simps path_Cons_iff: "path step (e # es) s s''"

lemma path_append: "path step es s s' \<Longrightarrow> path step es' s' s'' \<Longrightarrow> path step (es @ es') s s''"
  by (induction rule: path.induct) (auto intro: path_Cons)

locale invariant_system =
  fixes step :: "'e \<Rightarrow> 's \<Rightarrow> 's \<Rightarrow> bool" and inv :: "'s \<Rightarrow> bool"
  assumes step_inv: "step e s s' \<Longrightarrow> inv s \<Longrightarrow> inv s'"
begin

lemma path_inv: "path step es s s' \<Longrightarrow> inv s \<Longrightarrow> inv s'"
  by (induction rule: path.induct) (auto intro: step_inv)

end

locale stable_system = invariant_system step inv
  for step :: "'e \<Rightarrow> 's \<Rightarrow> 's \<Rightarrow> bool" and inv :: "'s \<Rightarrow> bool" +
  fixes holds :: "'x \<Rightarrow> 's \<Rightarrow> bool" and spares :: "'x \<Rightarrow> 'e \<Rightarrow> bool"
  assumes step_holds: "step e s s' \<Longrightarrow> inv s \<Longrightarrow> holds x s \<Longrightarrow> spares x e \<Longrightarrow> holds x s'"
begin

lemma path_holds: "path step es s s' \<Longrightarrow> inv s \<Longrightarrow> holds x s \<Longrightarrow> \<forall>e \<in> set es. spares x e \<Longrightarrow> holds x s'"
  by (induction rule: path.induct) (auto intro: step_holds step_inv)

end

section \<open>Tables with a key\<close>

text \<open>
  The rows of a table in a state that satisfies its constraints: a key determines the row, and the
  query by key finds it.
\<close>

locale keyed_rows =
  fixes key :: "'r \<Rightarrow> 'k" and rows :: "'s \<Rightarrow> 'r list" and inv :: "'s \<Rightarrow> bool"
  assumes distinct_keys: "inv s \<Longrightarrow> distinct (map key (rows s))"
begin

lemma row_unique: "inv s \<Longrightarrow> x \<in> set (rows s) \<Longrightarrow> y \<in> set (rows s) \<Longrightarrow> key x = key y \<Longrightarrow> x = y"
  using distinct_keys distinct_map_inj by metis

lemma find_row:
  assumes "inv s" and "x \<in> set (rows s)" and "P x" and "\<And>y. P y \<Longrightarrow> key y = key x"
  shows "find P (rows s) = Some x"
proof -
  from assms(2,3) obtain y where y: "find P (rows s) = Some y"
    by (cases "find P (rows s)") (auto simp: find_None_iff)
  then have "y \<in> set (rows s)" "P y" by (auto simp: find_Some_iff)
  with assms(4) have "key y = key x" by blast
  with row_unique [OF assms(1) \<open>y \<in> set (rows s)\<close> assms(2)] y show ?thesis by simp
qed

end

end
