(* ===== verification/StoreModel.thy ===== *)
theory StoreModel
  imports Prelude Complex_Main "HOL-Library.List_Lexorder" "HOL-Library.Char_ord"
    "HOL-Library.Product_Lexorder"
begin

text \<open>
  The data model of \<open>pkg/server/store\<close>: the rows of its SQLite tables, the JSON envelopes in
  their text columns, and the statements every operation is built from, with the constraints of
  the schema in \<open>migrations.go\<close> (primary keys, the unique prompt version, foreign keys and their
  \<open>ON DELETE CASCADE\<close>). A table is the list of its rows in insertion order. Row times are
  milliseconds; the Go records scanned from rows carry nanoseconds, so one record type serves both
  and \<open>scan_message\<close> and its kin convert.
\<close>

section \<open>Values and JSON envelopes\<close>

text \<open>
  \<open>gval\<close> is a Go value behind \<open>any\<close>: what \<open>encoding/json\<close> decodes (numbers become \<open>float64\<close>),
  Go's own \<open>int\<close>, and \<open>GFunc\<close> for a value \<open>json.Marshal\<close> refuses (a function, a channel). A JSON
  text is represented by the value it decodes to, object keys sorted as the encoder writes them.
\<close>

datatype gval =
    GNil
  | GBool bool
  | GInt int
  | GNum rat
  | GStr string
  | GList "gval list"
  | GMap "(string \<times> gval) list"
  | GFunc

lemma gval_size_snd [termination_simp]:
  "kv \<in> set kvs \<Longrightarrow> size (snd kv) < Suc (size_list (size_prod (\<lambda>_. 0) size) kvs)"
  by (induction kvs) (auto simp: less_Suc_eq_le split: prod.splits intro: le_SucI trans_le_add2)

fun json_text :: "gval \<Rightarrow> gval option" where
  "json_text GNil = Some GNil"
| "json_text (GBool b) = Some (GBool b)"
| "json_text (GInt n) = Some (GNum (of_int n))"
| "json_text (GNum q) = Some (GNum q)"
| "json_text (GStr s) = Some (GStr s)"
| "json_text (GList vs) = map_option GList (those (map json_text vs))"
| "json_text (GMap kvs) =
     map_option (\<lambda>ws. GMap (sort_key fst (zip (map fst kvs) ws)))
       (those (map (\<lambda>kv. json_text (snd kv)) kvs))"
| "json_text GFunc = None"

text \<open>
  A text column that holds an envelope: the empty string, a text that is not an envelope, or the
  envelope's version, type and body (\<open>json.RawMessage\<close>, possibly absent).
\<close>

datatype env_text = NoText | BadText | Env int string "gval option"

definition envelope_version :: int where
  "envelope_version = 1"

definition marshal_envelope :: "string \<Rightarrow> gval \<Rightarrow> env_text option" where
  "marshal_envelope kind v =
     (case json_text v of
        None \<Rightarrow> None
      | Some body \<Rightarrow> Some (Env envelope_version kind (Some body)))"

definition marshal_optional_envelope :: "string \<Rightarrow> gval \<Rightarrow> env_text option" where
  "marshal_optional_envelope kind v = (if v = GNil then Some NoText else marshal_envelope kind v)"

fun decode_envelope_any :: "env_text \<Rightarrow> gval option" where
  "decode_envelope_any NoText = Some GNil"
| "decode_envelope_any BadText = None"
| "decode_envelope_any (Env ver kind body) =
     (if ver \<noteq> envelope_version then None
      else case body of None \<Rightarrow> Some GNil | Some v \<Rightarrow> Some v)"

lemma decode_marshal_envelope:
  "marshal_envelope kind v = Some t \<Longrightarrow> decode_envelope_any t = json_text v"
  by (auto simp: marshal_envelope_def split: option.splits)

section \<open>Rows\<close>

datatype msg_status = Queued | Leased | Completed | DeadLetter

definition role_worker :: string where "role_worker = ''worker''"
definition state_running :: string where "state_running = ''running''"

text \<open>The text of a rendered trigger prompt: plain, or the indented JSON of a value.\<close>

datatype prompt_text = PlainPrompt string | JsonPrompt gval

record namespace_row =
  n_id :: string
  n_name :: string
  n_limits :: env_text
  n_created :: millis
  n_updated :: millis

record agent_row =
  a_namespace :: string
  a_id :: string
  a_name :: string
  a_role :: string
  a_desired :: string
  a_root :: string
  a_provider :: string
  a_model :: string
  a_base_url :: string
  a_preserve :: bool
  a_max_steps :: int
  a_step_timeout :: int
  a_max_output :: int
  a_lease_duration :: int
  a_retry_delay :: int
  a_max_attempts :: int
  a_config :: env_text
  a_prompt_version :: string
  a_created :: int
  a_updated :: int

record prompt_row =
  p_namespace :: string
  p_id :: string
  p_agent :: string
  p_version :: int
  p_prompt :: string
  p_schema :: env_text
  p_created :: millis

record message =
  m_namespace :: string
  m_id :: string
  m_thread :: string
  m_sender :: string
  m_recipient :: string
  m_kind :: string
  m_payload :: env_text
  m_metadata :: env_text
  m_status :: msg_status
  m_available :: int
  m_lease_owner :: string
  m_lease_expires :: "int option"
  m_attempts :: int
  m_max_attempts :: int
  m_run :: string
  m_dead_reason :: string
  m_last_error :: string
  m_created :: int
  m_updated :: int
  m_claimed :: "int option"
  m_completed :: "int option"

record schedule =
  s_namespace :: string
  s_id :: string
  s_agent :: string
  s_cron :: string
  s_zone :: string
  s_payload :: env_text
  s_enabled :: bool
  s_next :: "int option"
  s_last :: "int option"
  s_created :: int
  s_updated :: int

record run_row =
  r_namespace :: string
  r_id :: string
  r_message :: string
  r_agent :: string
  r_trigger :: string
  r_status :: string
  r_started :: int
  r_finished :: "int option"
  r_duration :: int
  r_cwd :: string
  r_cached_tokens :: int
  r_thought :: string
  r_value :: env_text
  r_error :: string
  r_trigger_prompt :: prompt_text
  r_system_prompt :: string
  r_created :: int
  r_updated :: int

record step_row =
  t_namespace :: string
  t_run :: string
  t_message :: string
  t_agent :: string
  t_index :: int
  t_type :: string
  t_thought :: string
  t_shell :: string
  t_action :: string
  t_tool_kind :: string
  t_input :: string
  t_output :: string
  t_output_truncated :: bool
  t_cached_tokens :: int
  t_cwd_before :: string
  t_cwd_after :: string
  t_stdout :: string
  t_stderr :: string
  t_stdout_truncated :: bool
  t_stderr_truncated :: bool
  t_started :: int
  t_finished :: int
  t_duration :: int
  t_status :: string
  t_exit :: int
  t_error :: string

record store =
  namespaces :: "namespace_row list"
  agents :: "agent_row list"
  prompts :: "prompt_row list"
  messages :: "message list"
  schedules :: "schedule list"
  runs :: "run_row list"
  steps :: "step_row list"
  lease_owner_id :: string

datatype store_error =
    ErrNotFound
  | ErrNoAvailableMessage
  | ErrInvalid string
  | ErrConstraint
  | ErrEncode
  | ErrDecode
  | ErrTimeZone
  | ErrCron

section \<open>Small helpers of store.go\<close>

definition default_string :: "string \<Rightarrow> string \<Rightarrow> string" where
  "default_string value fallback = (if blank value then fallback else value)"

definition default_int :: "int \<Rightarrow> int \<Rightarrow> int" where
  "default_int value fallback = (if value = 0 then fallback else value)"

definition default_duration :: "duration \<Rightarrow> duration \<Rightarrow> duration" where
  "default_duration value fallback = (if value = 0 then fallback else value)"

definition to_millis :: "go_time \<Rightarrow> millis" where
  "to_millis t = t div millisecond"

definition from_millis :: "millis \<Rightarrow> go_time" where
  "from_millis ms = ms * millisecond"

definition null_millis_to_time :: "millis option \<Rightarrow> go_time option" where
  "null_millis_to_time v = map_option from_millis v"

definition to_duration_millis :: "duration \<Rightarrow> int" where
  "to_duration_millis d = go_div d millisecond"

definition from_duration_millis :: "int \<Rightarrow> duration" where
  "from_duration_millis ms = ms * millisecond"

lemma to_from_millis [simp]: "to_millis (from_millis ms) = ms"
  by (simp add: to_millis_def from_millis_def millisecond_def)

lemma to_millis_mono: "a \<le> b \<Longrightarrow> to_millis a \<le> to_millis b"
  by (simp add: to_millis_def millisecond_def zdiv_mono1)

lemma to_millis_add: "to_millis (t + d * millisecond) = to_millis t + d"
  by (simp add: to_millis_def millisecond_def)

lemma from_to_duration_millis:
  "to_duration_millis (from_duration_millis ms) = ms"
  by (cases "ms = 0")
     (simp_all add: to_duration_millis_def from_duration_millis_def go_div_def millisecond_def
        abs_mult sgn_mult abs_sgn mult.commute)

lemma from_millis_le: "from_millis (to_millis t) \<le> t"
  by (simp add: to_millis_def from_millis_def millisecond_def)

section \<open>Keys and constraints\<close>

definition n_key :: "namespace_row \<Rightarrow> string" where "n_key r = n_id r"
definition a_key :: "agent_row \<Rightarrow> string \<times> string" where "a_key r = (a_namespace r, a_id r)"
definition p_key :: "prompt_row \<Rightarrow> string \<times> string" where "p_key r = (p_namespace r, p_id r)"
definition p_unique :: "prompt_row \<Rightarrow> string \<times> string \<times> int" where
  "p_unique r = (p_namespace r, p_agent r, p_version r)"
definition m_key :: "message \<Rightarrow> string \<times> string" where "m_key r = (m_namespace r, m_id r)"
definition s_key :: "schedule \<Rightarrow> string \<times> string" where "s_key r = (s_namespace r, s_id r)"
definition r_key :: "run_row \<Rightarrow> string \<times> string" where "r_key r = (r_namespace r, r_id r)"
definition t_key :: "step_row \<Rightarrow> string \<times> string \<times> int" where
  "t_key r = (t_namespace r, t_run r, t_index r)"

text \<open>
  The keys a row refers to: a message's recipient, a schedule's agent, a run's message and agent, a
  step's run, a prompt version's agent, an agent's namespace.
\<close>

definition m_agent :: "message \<Rightarrow> string \<times> string" where
  "m_agent r = (m_namespace r, m_recipient r)"
definition p_owner :: "prompt_row \<Rightarrow> string \<times> string" where
  "p_owner r = (p_namespace r, p_agent r)"
definition s_owner :: "schedule \<Rightarrow> string \<times> string" where
  "s_owner r = (s_namespace r, s_agent r)"
definition r_message_key :: "run_row \<Rightarrow> string \<times> string" where
  "r_message_key r = (r_namespace r, r_message r)"
definition r_agent_key :: "run_row \<Rightarrow> string \<times> string" where
  "r_agent_key r = (r_namespace r, r_agent r)"
definition t_run_key :: "step_row \<Rightarrow> string \<times> string" where
  "t_run_key r = (t_namespace r, t_run r)"

lemmas key_defs = n_key_def a_key_def p_key_def p_unique_def m_key_def s_key_def r_key_def t_key_def
  m_agent_def p_owner_def s_owner_def r_message_key_def r_agent_key_def t_run_key_def

text \<open>
  The statements on one table. An \<open>INSERT\<close> fails when the key is taken; \<open>UPDATE ... WHERE\<close> changes
  every row that satisfies the condition and reports how many there were.
\<close>

definition insert_row :: "('r \<Rightarrow> 'k) \<Rightarrow> 'r \<Rightarrow> 'r list \<Rightarrow> 'r list option" where
  "insert_row key row tbl = (if key row \<in> key ` set tbl then None else Some (tbl @ [row]))"

definition update_where :: "('r \<Rightarrow> bool) \<Rightarrow> ('r \<Rightarrow> 'r) \<Rightarrow> 'r list \<Rightarrow> 'r list" where
  "update_where cond f tbl = map (\<lambda>r. if cond r then f r else r) tbl"

definition rows_affected :: "('r \<Rightarrow> bool) \<Rightarrow> 'r list \<Rightarrow> nat" where
  "rows_affected cond tbl = length (filter cond tbl)"

definition insert_namespace :: "namespace_row \<Rightarrow> store \<Rightarrow> store_error + store" where
  "insert_namespace row s =
     (case insert_row n_key row (namespaces s) of
        None \<Rightarrow> Inl ErrConstraint
      | Some tbl \<Rightarrow> Inr (s\<lparr>namespaces := tbl\<rparr>))"

definition insert_agent :: "agent_row \<Rightarrow> store \<Rightarrow> store_error + store" where
  "insert_agent row s =
     (if a_namespace row \<notin> n_key ` set (namespaces s) then Inl ErrConstraint
      else case insert_row a_key row (agents s) of
        None \<Rightarrow> Inl ErrConstraint
      | Some tbl \<Rightarrow> Inr (s\<lparr>agents := tbl\<rparr>))"

definition insert_prompt :: "prompt_row \<Rightarrow> store \<Rightarrow> store_error + store" where
  "insert_prompt row s =
     (if p_owner row \<notin> a_key ` set (agents s) \<or> p_unique row \<in> p_unique ` set (prompts s)
      then Inl ErrConstraint
      else case insert_row p_key row (prompts s) of
        None \<Rightarrow> Inl ErrConstraint
      | Some tbl \<Rightarrow> Inr (s\<lparr>prompts := tbl\<rparr>))"

definition insert_message :: "message \<Rightarrow> store \<Rightarrow> store_error + store" where
  "insert_message row s =
     (if m_agent row \<notin> a_key ` set (agents s) then Inl ErrConstraint
      else case insert_row m_key row (messages s) of
        None \<Rightarrow> Inl ErrConstraint
      | Some tbl \<Rightarrow> Inr (s\<lparr>messages := tbl\<rparr>))"

definition insert_schedule :: "schedule \<Rightarrow> store \<Rightarrow> store_error + store" where
  "insert_schedule row s =
     (if s_owner row \<notin> a_key ` set (agents s) then Inl ErrConstraint
      else case insert_row s_key row (schedules s) of
        None \<Rightarrow> Inl ErrConstraint
      | Some tbl \<Rightarrow> Inr (s\<lparr>schedules := tbl\<rparr>))"

definition insert_run :: "run_row \<Rightarrow> store \<Rightarrow> store_error + store" where
  "insert_run row s =
     (if r_message_key row \<notin> m_key ` set (messages s) \<or> r_agent_key row \<notin> a_key ` set (agents s)
      then Inl ErrConstraint
      else case insert_row r_key row (runs s) of
        None \<Rightarrow> Inl ErrConstraint
      | Some tbl \<Rightarrow> Inr (s\<lparr>runs := tbl\<rparr>))"

definition insert_step :: "step_row \<Rightarrow> store \<Rightarrow> store_error + store" where
  "insert_step row s =
     (if t_run_key row \<notin> r_key ` set (runs s) then Inl ErrConstraint
      else case insert_row t_key row (steps s) of
        None \<Rightarrow> Inl ErrConstraint
      | Some tbl \<Rightarrow> Inr (s\<lparr>steps := tbl\<rparr>))"

text \<open>
  \<open>DELETE FROM agents\<close> cascades: to the agents' prompt versions, messages, schedules and runs, from
  deleted messages to their runs, and from deleted runs to their steps.
\<close>

definition delete_agents :: "(agent_row \<Rightarrow> bool) \<Rightarrow> store \<Rightarrow> store" where
  "delete_agents cond s =
     (let gone = a_key ` {a \<in> set (agents s). cond a};
          msgs = filter (\<lambda>m. m_agent m \<notin> gone) (messages s);
          rs = filter (\<lambda>r. r_agent_key r \<notin> gone \<and> r_message_key r \<in> m_key ` set msgs) (runs s)
      in s\<lparr>agents := filter (\<lambda>a. \<not> cond a) (agents s),
           prompts := filter (\<lambda>p. p_owner p \<notin> gone) (prompts s),
           messages := msgs,
           schedules := filter (\<lambda>c. s_owner c \<notin> gone) (schedules s),
           runs := rs,
           steps := filter (\<lambda>t. t_run_key t \<in> r_key ` set rs) (steps s)\<rparr>)"

section \<open>Consistency\<close>

text \<open>
  The constraints as an invariant of the whole store: keys are distinct and every reference is to
  an existing row.
\<close>

definition store_ok :: "store \<Rightarrow> bool" where
  "store_ok s \<longleftrightarrow>
     distinct (map n_key (namespaces s)) \<and> distinct (map a_key (agents s)) \<and>
     distinct (map p_key (prompts s)) \<and> distinct (map p_unique (prompts s)) \<and>
     distinct (map m_key (messages s)) \<and> distinct (map s_key (schedules s)) \<and>
     distinct (map r_key (runs s)) \<and> distinct (map t_key (steps s)) \<and>
     a_namespace ` set (agents s) \<subseteq> n_key ` set (namespaces s) \<and>
     p_owner ` set (prompts s) \<subseteq> a_key ` set (agents s) \<and>
     m_agent ` set (messages s) \<subseteq> a_key ` set (agents s) \<and>
     s_owner ` set (schedules s) \<subseteq> a_key ` set (agents s) \<and>
     r_message_key ` set (runs s) \<subseteq> m_key ` set (messages s) \<and>
     r_agent_key ` set (runs s) \<subseteq> a_key ` set (agents s) \<and>
     t_run_key ` set (steps s) \<subseteq> r_key ` set (runs s)"

lemma store_ok_distinct:
  assumes "store_ok s"
  shows "distinct (map n_key (namespaces s))" "distinct (map a_key (agents s))"
    "distinct (map p_key (prompts s))" "distinct (map p_unique (prompts s))"
    "distinct (map m_key (messages s))" "distinct (map s_key (schedules s))"
    "distinct (map r_key (runs s))" "distinct (map t_key (steps s))"
  using assms unfolding store_ok_def by blast+

interpretation agent_rows: keyed_rows a_key agents store_ok
  by unfold_locales (rule store_ok_distinct)

interpretation prompt_rows: keyed_rows p_key prompts store_ok
  by unfold_locales (rule store_ok_distinct)

interpretation message_rows: keyed_rows m_key messages store_ok
  by unfold_locales (rule store_ok_distinct)

interpretation schedule_rows: keyed_rows s_key schedules store_ok
  by unfold_locales (rule store_ok_distinct)

interpretation run_rows: keyed_rows r_key runs store_ok
  by unfold_locales (rule store_ok_distinct)

definition empty_store :: "string \<Rightarrow> store" where
  "empty_store owner =
     \<lparr>namespaces = [], agents = [], prompts = [], messages = [], schedules = [], runs = [], steps = [],
      lease_owner_id = owner\<rparr>"

lemma store_ok_empty [simp]: "store_ok (empty_store owner)"
  by (simp add: store_ok_def empty_store_def)

lemma insert_row_Some:
  "insert_row key row tbl = Some tbl' \<longleftrightarrow> key row \<notin> key ` set tbl \<and> tbl' = tbl @ [row]"
  by (auto simp: insert_row_def)

lemma insert_message_Inr:
  "insert_message row s = Inr s' \<longleftrightarrow>
     m_agent row \<in> a_key ` set (agents s) \<and> m_key row \<notin> m_key ` set (messages s) \<and>
     s' = s\<lparr>messages := messages s @ [row]\<rparr>"
  by (auto simp: insert_message_def insert_row_def)

lemma insert_run_Inr:
  "insert_run row s = Inr s' \<longleftrightarrow>
     r_message_key row \<in> m_key ` set (messages s) \<and> r_agent_key row \<in> a_key ` set (agents s) \<and>
     r_key row \<notin> r_key ` set (runs s) \<and>
     s' = s\<lparr>runs := runs s @ [row]\<rparr>"
  by (auto simp: insert_run_def insert_row_def)

lemma insert_step_Inr:
  "insert_step row s = Inr s' \<longleftrightarrow>
     t_run_key row \<in> r_key ` set (runs s) \<and> t_key row \<notin> t_key ` set (steps s) \<and>
     s' = s\<lparr>steps := steps s @ [row]\<rparr>"
  by (auto simp: insert_step_def insert_row_def)

lemma insert_schedule_Inr:
  "insert_schedule row s = Inr s' \<longleftrightarrow>
     s_owner row \<in> a_key ` set (agents s) \<and> s_key row \<notin> s_key ` set (schedules s) \<and>
     s' = s\<lparr>schedules := schedules s @ [row]\<rparr>"
  by (auto simp: insert_schedule_def insert_row_def)

lemma insert_agent_Inr:
  "insert_agent row s = Inr s' \<longleftrightarrow>
     a_namespace row \<in> n_key ` set (namespaces s) \<and> a_key row \<notin> a_key ` set (agents s) \<and>
     s' = s\<lparr>agents := agents s @ [row]\<rparr>"
  by (auto simp: insert_agent_def insert_row_def)

lemma insert_prompt_Inr:
  "insert_prompt row s = Inr s' \<longleftrightarrow>
     p_owner row \<in> a_key ` set (agents s) \<and> p_unique row \<notin> p_unique ` set (prompts s) \<and>
     p_key row \<notin> p_key ` set (prompts s) \<and>
     s' = s\<lparr>prompts := prompts s @ [row]\<rparr>"
  by (auto simp: insert_prompt_def insert_row_def)

lemma insert_namespace_Inr:
  "insert_namespace row s = Inr s' \<longleftrightarrow>
     n_key row \<notin> n_key ` set (namespaces s) \<and>
     s' = s\<lparr>namespaces := namespaces s @ [row]\<rparr>"
  by (auto simp: insert_namespace_def insert_row_def)

lemmas insert_Inr = insert_message_Inr insert_run_Inr insert_step_Inr insert_schedule_Inr
  insert_agent_Inr insert_prompt_Inr insert_namespace_Inr

lemma insert_message_ok: "insert_message row s = Inr s' \<Longrightarrow> store_ok s \<Longrightarrow> store_ok s'"
  by (clarsimp simp only: insert_Inr) (simp add: store_ok_def subset_insertI2)

lemma insert_run_ok: "insert_run row s = Inr s' \<Longrightarrow> store_ok s \<Longrightarrow> store_ok s'"
  by (clarsimp simp only: insert_Inr) (simp add: store_ok_def subset_insertI2)

lemma insert_step_ok: "insert_step row s = Inr s' \<Longrightarrow> store_ok s \<Longrightarrow> store_ok s'"
  by (clarsimp simp only: insert_Inr) (simp add: store_ok_def subset_insertI2)

lemma insert_schedule_ok: "insert_schedule row s = Inr s' \<Longrightarrow> store_ok s \<Longrightarrow> store_ok s'"
  by (clarsimp simp only: insert_Inr) (simp add: store_ok_def subset_insertI2)

lemma insert_agent_ok: "insert_agent row s = Inr s' \<Longrightarrow> store_ok s \<Longrightarrow> store_ok s'"
  by (clarsimp simp only: insert_Inr) (simp add: store_ok_def subset_insertI2)

lemma insert_prompt_ok: "insert_prompt row s = Inr s' \<Longrightarrow> store_ok s \<Longrightarrow> store_ok s'"
  by (clarsimp simp only: insert_Inr) (simp add: store_ok_def subset_insertI2)

lemma insert_namespace_ok: "insert_namespace row s = Inr s' \<Longrightarrow> store_ok s \<Longrightarrow> store_ok s'"
  by (clarsimp simp only: insert_Inr) (simp add: store_ok_def subset_insertI2)

text \<open>An update that leaves the columns of a key alone leaves the key column of the table alone.\<close>

lemma map_update_where [simp]:
  "(\<And>r. k (f r) = k r) \<Longrightarrow> map k (update_where cond f tbl) = map k tbl"
  by (induction tbl) (auto simp: update_where_def)

lemma image_update_where [simp]:
  "(\<And>r. k (f r) = k r) \<Longrightarrow> k ` set (update_where cond f tbl) = k ` set tbl"
  by (metis list.set_map map_update_where)

lemma set_update_where: "set (update_where cond f tbl) = (\<lambda>r. if cond r then f r else r) ` set tbl"
  by (simp add: update_where_def)

lemma length_update_where [simp]: "length (update_where cond f tbl) = length tbl"
  by (simp add: update_where_def)

lemma rows_affected_0 [simp]: "rows_affected cond tbl = 0 \<longleftrightarrow> (\<forall>r\<in>set tbl. \<not> cond r)"
  by (simp add: rows_affected_def filter_empty_conv)

lemma update_messages_ok:
  assumes "store_ok s" and "\<And>m. m_key (f m) = m_key m" and "\<And>m. m_agent (f m) = m_agent m"
  shows "store_ok (s\<lparr>messages := update_where cond f (messages s)\<rparr>)"
  using assms by (simp add: store_ok_def)

lemma update_runs_ok:
  assumes "store_ok s" and "\<And>r. r_key (f r) = r_key r"
    and "\<And>r. r_message_key (f r) = r_message_key r" and "\<And>r. r_agent_key (f r) = r_agent_key r"
  shows "store_ok (s\<lparr>runs := update_where cond f (runs s)\<rparr>)"
  using assms by (simp add: store_ok_def)

lemma update_agents_ok:
  assumes "store_ok s" and "\<And>r. a_key (f r) = a_key r" and "\<And>r. a_namespace (f r) = a_namespace r"
  shows "store_ok (s\<lparr>agents := update_where cond f (agents s)\<rparr>)"
  using assms by (simp add: store_ok_def)

lemma update_schedules_ok:
  assumes "store_ok s" and "\<And>r. s_key (f r) = s_key r" and "\<And>r. s_owner (f r) = s_owner r"
  shows "store_ok (s\<lparr>schedules := update_where cond f (schedules s)\<rparr>)"
  using assms by (simp add: store_ok_def)

lemma update_namespaces_ok:
  assumes "store_ok s" and "\<And>r. n_key (f r) = n_key r"
  shows "store_ok (s\<lparr>namespaces := update_where cond f (namespaces s)\<rparr>)"
  using assms by (simp add: store_ok_def)

text \<open>
  Deleting referenced rows and every row that referred to them leaves no dangling reference.
\<close>

lemma kept_references:
  "f ` R \<subseteq> k ` A \<Longrightarrow> f ` {x \<in> R. f x \<notin> k ` {a \<in> A. P a}} \<subseteq> k ` {a \<in> A. \<not> P a}"
  by blast

lemma kept_references2:
  "f ` R \<subseteq> k ` A \<Longrightarrow> f ` {x \<in> R. f x \<notin> k ` {a \<in> A. P a} \<and> Q x} \<subseteq> k ` {a \<in> A. \<not> P a}"
  by blast

lemma delete_agents_ok: "store_ok s \<Longrightarrow> store_ok (delete_agents cond s)"
  unfolding store_ok_def delete_agents_def Let_def
  by (simp add: distinct_map_filter kept_references kept_references2)
     (intro conjI image_subsetI; simp add: image_subset_iff)

end
