(* ===== verification/Mailbox.thy ===== *)
theory Mailbox
  imports StoreModel
begin

text \<open>
  The mailbox of \<open>pkg/server/store/mailbox.go\<close>: messages are enqueued, claimed under a lease by the
  worker of the recipient agent, and completed, retried or dead-lettered together with the run the
  claim opened. Every operation is one transaction over the \<open>store\<close>; the clock readings and the
  random identifiers \<open>NewID\<close> returns are arguments.
\<close>

section \<open>Records and parameters\<close>

record create_message_params =
  cp_namespace :: string
  cp_message :: string
  cp_thread :: string
  cp_sender :: string
  cp_recipient :: string
  cp_kind :: string
  cp_payload :: gval
  cp_metadata :: gval
  cp_available :: go_time
  cp_max_attempts :: int

record claim_params =
  cl_namespace :: string
  cl_agent :: string
  cl_lease_owner :: string
  cl_lease_duration :: duration
  cl_system_prompt :: string

record complete_params =
  co_namespace :: string
  co_run :: string
  co_message :: string
  co_status :: string
  co_finished :: go_time
  co_duration :: duration
  co_cwd :: string
  co_cached_tokens :: int
  co_thought :: string
  co_value :: gval
  co_error :: string
  co_retry_at :: "go_time option"
  co_dead_reason :: string
  co_outbox :: "create_message_params list"

text \<open>What \<open>ListThreadMessages\<close> selects of a message.\<close>

record thread_message =
  tm_id :: string
  tm_thread :: string
  tm_sender :: string
  tm_recipient :: string
  tm_kind :: string
  tm_payload :: env_text
  tm_status :: msg_status
  tm_created :: go_time
  tm_completed :: "go_time option"

definition scan_message :: "message \<Rightarrow> message" where
  "scan_message row =
     row\<lparr>m_available := from_millis (m_available row),
         m_lease_expires := null_millis_to_time (m_lease_expires row),
         m_created := from_millis (m_created row),
         m_updated := from_millis (m_updated row),
         m_claimed := null_millis_to_time (m_claimed row),
         m_completed := null_millis_to_time (m_completed row)\<rparr>"

definition scan_run :: "run_row \<Rightarrow> run_row" where
  "scan_run row =
     row\<lparr>r_started := from_millis (r_started row),
         r_finished := null_millis_to_time (r_finished row),
         r_duration := from_duration_millis (r_duration row),
         r_created := from_millis (r_created row),
         r_updated := from_millis (r_updated row)\<rparr>"

section \<open>Enqueueing\<close>

text \<open>
  The columns of a new message; the row holds the times in milliseconds, the record the operation
  returns holds them as they are.
\<close>

definition new_message ::
    "create_message_params \<Rightarrow> string \<Rightarrow> env_text \<Rightarrow> env_text \<Rightarrow> int \<Rightarrow> int \<Rightarrow> message" where
  "new_message p mid payload metadata available now =
     \<lparr>m_namespace = cp_namespace p, m_id = mid,
      m_thread = default_string (cp_thread p) mid,
      m_sender = cp_sender p, m_recipient = cp_recipient p,
      m_kind = default_string (cp_kind p) ''mailbox.message'',
      m_payload = payload, m_metadata = metadata, m_status = Queued,
      m_available = available, m_lease_owner = [], m_lease_expires = None,
      m_attempts = 0, m_max_attempts = default_int (cp_max_attempts p) 5,
      m_run = [], m_dead_reason = [], m_last_error = [],
      m_created = now, m_updated = now, m_claimed = None, m_completed = None\<rparr>"

definition enqueue_message_tx ::
    "go_time \<Rightarrow> string \<Rightarrow> create_message_params \<Rightarrow> (store, store_error, message) tx" where
  "enqueue_message_tx now gen_id p s =
     (let mid = default_string (cp_message p) gen_id;
          available = (if cp_available p = zero_time then now else cp_available p)
      in case marshal_envelope ''mailbox_payload'' (cp_payload p) of
           None \<Rightarrow> Inl ErrEncode
         | Some payload \<Rightarrow>
        (case marshal_optional_envelope ''mailbox_metadata'' (cp_metadata p) of
           None \<Rightarrow> Inl ErrEncode
         | Some metadata \<Rightarrow>
        (case insert_message (new_message p mid payload metadata (to_millis available) (to_millis now)) s of
           Inl e \<Rightarrow> Inl e
         | Inr s' \<Rightarrow> Inr (new_message p mid payload metadata available now, s'))))"

definition enqueue_message ::
    "go_time \<Rightarrow> string \<Rightarrow> create_message_params \<Rightarrow> (store, store_error, message) op" where
  "enqueue_message now gen_id p s =
     (if cp_namespace p = [] then (Inl (ErrInvalid ''namespace id must not be empty''), s)
      else if cp_recipient p = [] then (Inl (ErrInvalid ''recipient agent id must not be empty''), s)
      else run_tx (enqueue_message_tx now gen_id p) s)"

section \<open>Claiming\<close>

text \<open>
  The condition shared by the candidate query and the leasing update: the message is queued, or its
  lease has run out, and it is due.
\<close>

definition lease_free :: "millis \<Rightarrow> message \<Rightarrow> bool" where
  "lease_free now_ms m \<longleftrightarrow>
     (m_status m = Queued \<or> m_status m = Leased) \<and> m_available m \<le> now_ms \<and>
     (m_status m = Queued \<or> (case m_lease_expires m of None \<Rightarrow> True | Some e \<Rightarrow> e \<le> now_ms))"

definition claimable :: "string \<Rightarrow> string \<Rightarrow> millis \<Rightarrow> message \<Rightarrow> bool" where
  "claimable ns agent now_ms m \<longleftrightarrow>
     m_namespace m = ns \<and> m_recipient m = agent \<and> lease_free now_ms m"

definition claim_order :: "message \<Rightarrow> millis \<times> millis" where
  "claim_order m = (m_available m, m_created m)"

definition claim_candidate :: "string \<Rightarrow> string \<Rightarrow> go_time \<Rightarrow> store \<Rightarrow> message option" where
  "claim_candidate ns agent now s =
     map_option scan_message
       (first_min claim_order (filter (claimable ns agent (to_millis now)) (messages s)))"

text \<open>\<open>agent.RenderTriggerPrompt\<close> on a decoded payload.\<close>

definition render_trigger_prompt :: "gval \<Rightarrow> prompt_text option" where
  "render_trigger_prompt payload =
     (case payload of
        GNil \<Rightarrow> Some (PlainPrompt [])
      | GStr v \<Rightarrow> Some (PlainPrompt (trim_space v))
      | _ \<Rightarrow> map_option JsonPrompt (json_text payload))"

definition render_run_trigger_prompt :: "env_text \<Rightarrow> prompt_text option" where
  "render_run_trigger_prompt payload_json =
     (case decode_envelope_any payload_json of
        None \<Rightarrow> None
      | Some payload \<Rightarrow> render_trigger_prompt payload)"

definition leased_message :: "string \<Rightarrow> int \<Rightarrow> string \<Rightarrow> int \<Rightarrow> message \<Rightarrow> message" where
  "leased_message owner expires run_id now m =
     m\<lparr>m_status := Leased, m_lease_owner := owner, m_lease_expires := Some expires,
       m_attempts := m_attempts m + 1, m_run := run_id, m_updated := now,
       m_claimed := (case m_claimed m of None \<Rightarrow> Some now | Some c \<Rightarrow> Some c)\<rparr>"

definition new_run :: "claim_params \<Rightarrow> string \<Rightarrow> string \<Rightarrow> prompt_text \<Rightarrow> int \<Rightarrow> run_row" where
  "new_run p run_id mid prompt now =
     \<lparr>r_namespace = cl_namespace p, r_id = run_id, r_message = mid, r_agent = cl_agent p,
      r_trigger = mid, r_status = ''running'', r_started = now, r_finished = None,
      r_duration = 0, r_cwd = [], r_cached_tokens = 0, r_thought = [], r_value = NoText,
      r_error = [], r_trigger_prompt = prompt, r_system_prompt = cl_system_prompt p,
      r_created = now, r_updated = now\<rparr>"

text \<open>
  One round of the claim loop. \<open>Inr (None, s)\<close> is the round that finds no row to lease after
  selecting one; it is rolled back and the loop goes on.
\<close>

definition claim_attempt ::
    "claim_params \<Rightarrow> go_time \<Rightarrow> string \<Rightarrow> (store, store_error, (message \<times> run_row) option) tx" where
  "claim_attempt p now run_id s =
     (let owner = default_string (cl_lease_owner p) (lease_owner_id s);
          expires = now + default_duration (cl_lease_duration p) (5 * minute);
          now_ms = to_millis now
      in case claim_candidate (cl_namespace p) (cl_agent p) now s of
           None \<Rightarrow> Inl ErrNoAvailableMessage
         | Some record \<Rightarrow>
        (let cond = (\<lambda>m. m_namespace m = cl_namespace p \<and> m_id m = m_id record \<and> lease_free now_ms m);
             s1 = s\<lparr>messages :=
                    update_where cond (leased_message owner (to_millis expires) run_id now_ms) (messages s)\<rparr>
         in if rows_affected cond (messages s) = 0 then Inr (None, s)
            else case render_run_trigger_prompt (m_payload record) of
                None \<Rightarrow> Inl ErrDecode
              | Some prompt \<Rightarrow>
             (case insert_run (new_run p run_id (m_id record) prompt now_ms) s1 of
                Inl e \<Rightarrow> Inl e
              | Inr s2 \<Rightarrow>
                  Inr (Some (leased_message owner expires run_id now record,
                             new_run p run_id (m_id record) prompt now), s2))))"

fun claim_loop ::
    "claim_params \<Rightarrow> (nat \<Rightarrow> go_time) \<Rightarrow> (nat \<Rightarrow> string) \<Rightarrow> nat \<Rightarrow> nat \<Rightarrow>
     (store, store_error, message \<times> run_row) op" where
  "claim_loop p clock ids i 0 s = (Inl ErrNoAvailableMessage, s)"
| "claim_loop p clock ids i (Suc n) s =
     (case claim_attempt p (clock i) (ids i) s of
        Inl e \<Rightarrow> (Inl e, s)
      | Inr (None, s') \<Rightarrow> claim_loop p clock ids (Suc i) n s
      | Inr (Some c, s') \<Rightarrow> (Inr c, s'))"

definition claim_next_message ::
    "claim_params \<Rightarrow> (nat \<Rightarrow> go_time) \<Rightarrow> (nat \<Rightarrow> string) \<Rightarrow>
     (store, store_error, message \<times> run_row) op" where
  "claim_next_message p clock ids s =
     (if cl_namespace p = [] \<or> cl_agent p = []
      then (Inl (ErrInvalid ''namespace id and agent id must not be empty''), s)
      else claim_loop p clock ids 0 8 s)"

section \<open>Steps, completion and queries\<close>

definition record_step :: "step_row \<Rightarrow> (store, store_error, unit) op" where
  "record_step t s =
     (if t_namespace t = [] \<or> t_run t = []
      then (Inl (ErrInvalid ''namespace id and run id must not be empty''), s)
      else case insert_step
          (t\<lparr>t_started := to_millis (t_started t), t_finished := to_millis (t_finished t),
             t_duration := to_duration_millis (t_duration t)\<rparr>) s of
        Inl e \<Rightarrow> (Inl e, s)
      | Inr s' \<Rightarrow> (Inr (), s'))"

definition finished_run :: "complete_params \<Rightarrow> env_text \<Rightarrow> go_time \<Rightarrow> run_row \<Rightarrow> run_row" where
  "finished_run p value now r =
     r\<lparr>r_status := co_status p, r_finished := Some (to_millis (co_finished p)),
       r_duration := to_duration_millis (co_duration p), r_cwd := co_cwd p,
       r_cached_tokens := co_cached_tokens p, r_thought := co_thought p, r_value := value,
       r_error := co_error p, r_updated := to_millis now\<rparr>"

text \<open>
  The message's new status, availability, completion time and reason: a dead-letter reason wins over
  a retry time, and with neither the message is completed.
\<close>

definition completion_columns ::
    "complete_params \<Rightarrow> msg_status \<times> go_time \<times> millis option \<times> string" where
  "completion_columns p =
     (if co_dead_reason p \<noteq> []
      then (DeadLetter, co_finished p, Some (to_millis (co_finished p)), co_dead_reason p)
      else case co_retry_at p of
        Some t \<Rightarrow> (Queued, t, None, [])
      | None \<Rightarrow> (Completed, co_finished p, Some (to_millis (co_finished p)), []))"

definition settled_message :: "complete_params \<Rightarrow> go_time \<Rightarrow> message \<Rightarrow> message" where
  "settled_message p now m =
     (case completion_columns p of (status, available, completed, reason) \<Rightarrow>
        m\<lparr>m_status := status, m_available := to_millis available, m_lease_owner := [],
          m_lease_expires := None, m_run := [], m_dead_reason := reason,
          m_last_error := co_error p, m_updated := to_millis now, m_completed := completed\<rparr>)"

fun enqueue_outbox ::
    "go_time \<Rightarrow> (nat \<Rightarrow> string) \<Rightarrow> nat \<Rightarrow> create_message_params list \<Rightarrow> store \<Rightarrow> store_error + store" where
  "enqueue_outbox now ids i [] s = Inr s"
| "enqueue_outbox now ids i (p # ps) s =
     (case enqueue_message_tx now (ids i) p s of
        Inl e \<Rightarrow> Inl e
      | Inr (_, s') \<Rightarrow> enqueue_outbox now ids (Suc i) ps s')"

definition complete_run_tx ::
    "go_time \<Rightarrow> (nat \<Rightarrow> string) \<Rightarrow> complete_params \<Rightarrow> env_text \<Rightarrow> (store, store_error, unit) tx" where
  "complete_run_tx now ids p value s =
     (let is_run = (\<lambda>r. r_namespace r = co_namespace p \<and> r_id r = co_run p);
          is_msg = (\<lambda>m. m_namespace m = co_namespace p \<and> m_id m = co_message p);
          s1 = s\<lparr>runs := update_where is_run (finished_run p value now) (runs s)\<rparr>;
          s2 = s1\<lparr>messages := update_where is_msg (settled_message p now) (messages s1)\<rparr>
      in if rows_affected is_run (runs s) = 0 then Inl ErrNotFound
         else if rows_affected is_msg (messages s1) = 0 then Inl ErrNotFound
         else case enqueue_outbox now ids 0 (co_outbox p) s2 of
             Inl e \<Rightarrow> Inl e
           | Inr s3 \<Rightarrow> Inr ((), s3))"

definition complete_run ::
    "go_time \<Rightarrow> (nat \<Rightarrow> string) \<Rightarrow> complete_params \<Rightarrow> (store, store_error, unit) op" where
  "complete_run now ids p s =
     (if co_namespace p = [] \<or> co_run p = [] \<or> co_message p = []
      then (Inl (ErrInvalid ''namespace id, run id, and message id must not be empty''), s)
      else case marshal_optional_envelope ''run_value'' (co_value p) of
        None \<Rightarrow> (Inl ErrEncode, s)
      | Some value \<Rightarrow> run_tx (complete_run_tx now ids p value) s)"

definition get_run :: "string \<Rightarrow> string \<Rightarrow> store \<Rightarrow> store_error + run_row" where
  "get_run ns run_id s =
     (case find (\<lambda>r. r_namespace r = ns \<and> r_id r = run_id) (runs s) of
        None \<Rightarrow> Inl ErrNotFound
      | Some row \<Rightarrow> Inr (scan_run row))"

definition scan_thread_message :: "message \<Rightarrow> thread_message" where
  "scan_thread_message m =
     \<lparr>tm_id = m_id m, tm_thread = m_thread m, tm_sender = m_sender m, tm_recipient = m_recipient m,
      tm_kind = m_kind m, tm_payload = m_payload m, tm_status = m_status m,
      tm_created = from_millis (m_created m), tm_completed = null_millis_to_time (m_completed m)\<rparr>"

definition list_thread_messages :: "string \<Rightarrow> string \<Rightarrow> int \<Rightarrow> store \<Rightarrow> thread_message list" where
  "list_thread_messages ns thread_id limit s =
     (let lim = (if limit \<le> 0 then 20 else limit)
      in map scan_thread_message
           (take (nat lim)
             (sort_key m_created
               (filter (\<lambda>m. m_namespace m = ns \<and> m_thread m = thread_id) (messages s)))))"

end
