(* ===== verification/TimeFormat.thy ===== *)
theory TimeFormat
  imports Prelude "HOL-Library.Char_ord"
begin

text \<open>
  \<open>time.RFC3339Nano\<close>, the one time format the code writes (\<open>fired_at\<close> of a schedule's message) and
  reads (\<open>available_at\<close> of an outbox message), as Go's \<open>Time.Format\<close> and \<open>time.Parse\<close> implement it.
\<close>

section \<open>Writing\<close>

text \<open>
  \<open>time.RFC3339Nano\<close> in UTC: the civil date of a day number, the clock, and the fraction of a second
  without trailing zeros.
\<close>

definition civil_from_days :: "int \<Rightarrow> int \<times> int \<times> int" where
  "civil_from_days days =
     (let z = days + 719468;
          era = z div 146097;
          doe = z - era * 146097;
          yoe = (doe - doe div 1460 + doe div 36524 - doe div 146096) div 365;
          doy = doe - (365 * yoe + yoe div 4 - yoe div 100);
          mp = (5 * doy + 2) div 153;
          d = doy - (153 * mp + 2) div 5 + 1;
          m = (if mp < 10 then mp + 3 else mp - 9);
          y = yoe + era * 400 + (if m \<le> 2 then 1 else 0)
      in (y, m, d))"

definition two_digits :: "int \<Rightarrow> string" where
  "two_digits i = pad_zeros 2 (int_str i)"

definition nano_fraction :: "int \<Rightarrow> string" where
  "nano_fraction ns =
     (if ns = 0 then []
      else CHR ''.'' # rev (dropWhile (\<lambda>c. c = CHR ''0'') (rev (pad_zeros 9 (int_str ns)))))"

definition rfc3339_nano :: "go_time \<Rightarrow> string" where
  "rfc3339_nano t =
     (let secs = t div second; ns = t mod second; sod = secs mod 86400
      in case civil_from_days (secs div 86400) of (y, m, d) \<Rightarrow>
        pad_zeros 4 (int_str y) @ ''-'' @ two_digits m @ ''-'' @ two_digits d @ ''T'' @
        two_digits (sod div 3600) @ '':'' @ two_digits (sod div 60 mod 60) @ '':'' @
        two_digits (sod mod 60) @ nano_fraction ns @ ''Z'')"

section \<open>Reading\<close>

text \<open>
  \<open>time.Parse\<close> walks the layout: four digits of the year, two of the month and day, one or two of the
  hour, two of the minute and second, an optional fraction of any length after a period or a comma,
  and \<open>Z\<close> or an offset. The day is checked against the month at the end.
\<close>

definition is_digit :: "char \<Rightarrow> bool" where
  "is_digit c \<longleftrightarrow> CHR ''0'' \<le> c \<and> c \<le> CHR ''9''"

definition digit_val :: "char \<Rightarrow> int" where
  "digit_val c = int (of_char c) - 48"

definition digits_val :: "string \<Rightarrow> int" where
  "digits_val ds = foldl (\<lambda>n c. 10 * n + digit_val c) 0 ds"

text \<open>\<open>getnum\<close>: two digits, or one if the field is not fixed.\<close>

definition getnum :: "bool \<Rightarrow> string \<Rightarrow> (int \<times> string) option" where
  "getnum fixed s =
     (case s of
        [] \<Rightarrow> None
      | a # r \<Rightarrow>
          if \<not> is_digit a then None
          else case r of
              b # r' \<Rightarrow> if is_digit b then Some (digit_val a * 10 + digit_val b, r')
                         else if fixed then None else Some (digit_val a, r)
            | [] \<Rightarrow> if fixed then None else Some (digit_val a, r))"

definition skip_char :: "char \<Rightarrow> string \<Rightarrow> string option" where
  "skip_char c s = (case s of [] \<Rightarrow> None | a # r \<Rightarrow> if a = c then Some r else None)"

text \<open>The fraction: at most nine digits count.\<close>

definition parse_fraction :: "string \<Rightarrow> int \<times> string" where
  "parse_fraction s =
     (case s of
        c # d # r \<Rightarrow>
          if (c = CHR ''.'' \<or> c = CHR '','') \<and> is_digit d
          then let ds = takeWhile is_digit (d # r); k = take 9 ds
               in (digits_val k * 10 ^ (9 - length k), dropWhile is_digit (d # r))
          else (0, s)
      | _ \<Rightarrow> (0, s))"

text \<open>The offset in seconds, and what follows it.\<close>

definition parse_zone :: "string \<Rightarrow> (int \<times> string) option" where
  "parse_zone s =
     (case s of
        [] \<Rightarrow> None
      | c # r \<Rightarrow>
          if c = CHR ''Z'' then Some (0, r)
          else if length s < 6 \<or> s ! 3 \<noteq> CHR '':'' then None
          else case (getnum True (take 2 r), getnum True (take 2 (drop 3 r))) of
              (Some (hr, _), Some (mm, _)) \<Rightarrow>
                if hr > 24 \<or> mm > 60 then None
                else if c = CHR ''+'' then Some ((hr * 60 + mm) * 60, drop 5 r)
                else if c = CHR ''-'' then Some (- ((hr * 60 + mm) * 60), drop 5 r)
                else None
            | _ \<Rightarrow> None)"

definition leap_year :: "int \<Rightarrow> bool" where
  "leap_year y \<longleftrightarrow> y mod 4 = 0 \<and> (y mod 100 \<noteq> 0 \<or> y mod 400 = 0)"

definition days_in :: "int \<Rightarrow> int \<Rightarrow> int" where
  "days_in m y =
     (if m = 2 then (if leap_year y then 29 else 28)
      else if m = 4 \<or> m = 6 \<or> m = 9 \<or> m = 11 then 30 else 31)"

text \<open>The day number of a civil date, counted from 1 January 1970.\<close>

definition days_from_civil :: "int \<Rightarrow> int \<Rightarrow> int \<Rightarrow> int" where
  "days_from_civil y m d =
     (let y' = (if m \<le> 2 then y - 1 else y);
          era = y' div 400;
          yoe = y' - era * 400;
          doy = (153 * (if m > 2 then m - 3 else m + 9) + 2) div 5 + d - 1;
          doe = yoe * 365 + yoe div 4 - yoe div 100 + doy
      in era * 146097 + doe - 719468)"

definition civil_time :: "int \<Rightarrow> int \<Rightarrow> int \<Rightarrow> int \<Rightarrow> int \<Rightarrow> int \<Rightarrow> int \<Rightarrow> go_time" where
  "civil_time y m d hh mi ss ns =
     ((days_from_civil y m d * 86400 + hh * 3600 + mi * 60 + ss) * second + ns)"

definition parse_date :: "string \<Rightarrow> ((int \<times> int \<times> int) \<times> string) option" where
  "parse_date s =
     (if length s < 4 \<or> \<not> list_all is_digit (take 4 s) then None
      else
     (case skip_char (CHR ''-'') (drop 4 s) of None \<Rightarrow> None | Some r1 \<Rightarrow>
     (case getnum True r1 of None \<Rightarrow> None | Some (m, r2) \<Rightarrow>
      if m \<le> 0 \<or> 12 < m then None else
     (case skip_char (CHR ''-'') r2 of None \<Rightarrow> None | Some r3 \<Rightarrow>
     (case getnum True r3 of None \<Rightarrow> None | Some (d, r4) \<Rightarrow>
        Some ((digits_val (take 4 s), m, d), r4))))))"

definition parse_clock :: "string \<Rightarrow> ((int \<times> int \<times> int) \<times> string) option" where
  "parse_clock s =
     (case getnum False s of None \<Rightarrow> None | Some (hh, r1) \<Rightarrow>
      if 24 \<le> hh then None else
     (case skip_char (CHR '':'') r1 of None \<Rightarrow> None | Some r2 \<Rightarrow>
     (case getnum True r2 of None \<Rightarrow> None | Some (mi, r3) \<Rightarrow>
      if 60 \<le> mi then None else
     (case skip_char (CHR '':'') r3 of None \<Rightarrow> None | Some r4 \<Rightarrow>
     (case getnum True r4 of None \<Rightarrow> None | Some (ss, r5) \<Rightarrow>
      if 60 \<le> ss then None else Some ((hh, mi, ss), r5))))))"

definition parse_rfc3339_nano :: "string \<Rightarrow> go_time option" where
  "parse_rfc3339_nano s =
     (case parse_date s of None \<Rightarrow> None | Some ((y, m, d), r1) \<Rightarrow>
     (case skip_char (CHR ''T'') r1 of None \<Rightarrow> None | Some r2 \<Rightarrow>
     (case parse_clock r2 of None \<Rightarrow> None | Some ((hh, mi, ss), r3) \<Rightarrow>
     (case parse_fraction r3 of (ns, r4) \<Rightarrow>
     (case parse_zone r4 of None \<Rightarrow> None | Some (offset, r5) \<Rightarrow>
        if r5 \<noteq> [] \<or> d < 1 \<or> days_in m y < d then None
        else Some (civil_time y m d hh mi ss ns - offset * second))))))"

end
