(* ===== verification/Schedules.thy ===== *)
theory Schedules
  imports Mailbox TimeFormat
begin

text \<open>
  Cron schedules (\<open>pkg/server/store/schedule.go\<close>): a schedule row holds the time it fires next;
  firing advances it past the current time and enqueues one message, in one transaction guarded by
  the time it was read at. The cron parser and the time zone database are not part of the
  repository: \<open>cron_lib\<close> stands for them.
\<close>

section \<open>Schedules\<close>

text \<open>
  What the code uses of \<open>github.com/robfig/cron\<close> and \<open>time.LoadLocation\<close>: parsing an expression
  gives its \<open>Next\<close> in a location, and a location name is known or not.
\<close>

record cron_lib =
  cron_parse :: "string \<Rightarrow> (string \<Rightarrow> go_time \<Rightarrow> go_time) option"
  zone_known :: "string \<Rightarrow> bool"

record create_schedule_params =
  cs_namespace :: string
  cs_schedule :: string
  cs_agent :: string
  cs_cron :: string
  cs_zone :: string
  cs_payload :: gval
  cs_enabled :: bool

text \<open>The name of the location \<open>loadScheduleLocation\<close> returns.\<close>

definition load_schedule_location :: "cron_lib \<Rightarrow> string \<Rightarrow> string option" where
  "load_schedule_location lib name =
     (if name = [] then Some ''UTC'' else if zone_known lib name then Some name else None)"

definition scan_schedule :: "schedule \<Rightarrow> schedule" where
  "scan_schedule row =
     row\<lparr>s_next := null_millis_to_time (s_next row), s_last := null_millis_to_time (s_last row),
         s_created := from_millis (s_created row), s_updated := from_millis (s_updated row)\<rparr>"

definition new_schedule ::
    "create_schedule_params \<Rightarrow> string \<Rightarrow> string \<Rightarrow> env_text \<Rightarrow> int option \<Rightarrow> int \<Rightarrow> schedule" where
  "new_schedule p sid zone payload next now =
     \<lparr>s_namespace = cs_namespace p, s_id = sid, s_agent = cs_agent p, s_cron = cs_cron p,
      s_zone = zone, s_payload = payload, s_enabled = cs_enabled p, s_next = next, s_last = None,
      s_created = now, s_updated = now\<rparr>"

definition create_schedule ::
    "cron_lib \<Rightarrow> go_time \<Rightarrow> string \<Rightarrow> create_schedule_params \<Rightarrow> (store, store_error, schedule) op" where
  "create_schedule lib now gen_id p s =
     (if cs_namespace p = [] \<or> cs_agent p = []
      then (Inl (ErrInvalid ''namespace id and agent id must not be empty''), s)
      else case load_schedule_location lib (cs_zone p) of
        None \<Rightarrow> (Inl ErrTimeZone, s)
      | Some zone \<Rightarrow>
     (case cron_parse lib (cs_cron p) of
        None \<Rightarrow> (Inl ErrCron, s)
      | Some next \<Rightarrow>
     (case marshal_envelope ''schedule_payload'' (cs_payload p) of
        None \<Rightarrow> (Inl ErrEncode, s)
      | Some payload \<Rightarrow>
     (let sid = default_string (cs_schedule p) gen_id;
          fire = (if cs_enabled p then Some (next zone now) else None)
      in case insert_schedule
             (new_schedule p sid zone payload (map_option to_millis fire) (to_millis now)) s of
           Inl e \<Rightarrow> (Inl e, s)
         | Inr s' \<Rightarrow> (Inr (new_schedule p sid zone payload fire now), s')))))"

definition disable_schedule :: "go_time \<Rightarrow> string \<Rightarrow> string \<Rightarrow> (store, store_error, unit) op" where
  "disable_schedule now ns sid s =
     (let cond = (\<lambda>c. s_namespace c = ns \<and> s_id c = sid)
      in if rows_affected cond (schedules s) = 0 then (Inl ErrNotFound, s)
         else (Inr (), s\<lparr>schedules := update_where cond
                 (\<lambda>c. c\<lparr>s_enabled := False, s_next := None, s_updated := to_millis now\<rparr>) (schedules s)\<rparr>))"

text \<open>
  The loop that looks for the first fire time after the present one. It may run forever, which is
  \<open>None\<close>: \<open>Next\<close> is not under the repository's control. Go hands \<open>Next\<close> the time it returned last, so
  behind a zero time it goes on in UTC; here it stays in the schedule's zone.
\<close>

partial_function (option) advance :: "(go_time \<Rightarrow> go_time) \<Rightarrow> go_time \<Rightarrow> go_time \<Rightarrow> go_time option" where
  "advance next now t = (if t > now then Some t else advance next now (next t))"

declare advance.simps [code]

definition fired_schedule :: "go_time \<Rightarrow> go_time \<Rightarrow> go_time \<Rightarrow> schedule \<Rightarrow> schedule" where
  "fired_schedule due next_fire now c =
     c\<lparr>s_last := Some (to_millis due), s_next := Some (to_millis next_fire), s_updated := to_millis now\<rparr>"

definition fire_message_params :: "schedule \<Rightarrow> go_time \<Rightarrow> string \<Rightarrow> gval \<Rightarrow> go_time \<Rightarrow> create_message_params" where
  "fire_message_params c due thread_id payload now =
     \<lparr>cp_namespace = s_namespace c, cp_message = [], cp_thread = thread_id, cp_sender = [],
      cp_recipient = s_agent c, cp_kind = ''schedule.fire'', cp_payload = payload,
      cp_metadata = GMap [(''schedule_id'', GStr (s_id c)), (''fired_at'', GStr (rfc3339_nano due))],
      cp_available = now, cp_max_attempts = 5\<rparr>"

definition fire_schedule_tx ::
    "go_time \<Rightarrow> string \<Rightarrow> string \<Rightarrow> schedule \<Rightarrow> go_time \<Rightarrow> go_time \<Rightarrow> gval \<Rightarrow>
     (store, store_error, message option) tx" where
  "fire_schedule_tx now thread_id msg_id c due next_fire payload s =
     (let cond = (\<lambda>r. s_namespace r = s_namespace c \<and> s_id r = s_id c \<and> s_enabled r \<and>
                      s_next r = Some (to_millis due));
          s1 = s\<lparr>schedules := update_where cond (fired_schedule due next_fire now) (schedules s)\<rparr>
      in if rows_affected cond (schedules s) = 0 then Inr (None, s)
         else case enqueue_message_tx now msg_id
                (fire_message_params c due thread_id payload now) s1 of
             Inl e \<Rightarrow> Inl e
           | Inr (m, s2) \<Rightarrow> Inr (Some m, s2))"

text \<open>
  \<open>fireSchedule\<close>: the outer \<open>None\<close> is the loop that does not end; the message is \<open>None\<close> when the
  schedule was not fired.
\<close>

definition fire_schedule ::
    "cron_lib \<Rightarrow> go_time \<Rightarrow> string \<Rightarrow> string \<Rightarrow> schedule \<Rightarrow> store \<Rightarrow>
     ((store_error + message option) \<times> store) option" where
  "fire_schedule lib now thread_id msg_id c s =
     (case s_next c of
        None \<Rightarrow> Some (Inr None, s)
      | Some due \<Rightarrow>
     (case load_schedule_location lib (s_zone c) of
        None \<Rightarrow> Some (Inl ErrTimeZone, s)
      | Some zone \<Rightarrow>
     (case cron_parse lib (s_cron c) of
        None \<Rightarrow> Some (Inl ErrCron, s)
      | Some next \<Rightarrow>
     (case advance (next zone) now (next zone due) of
        None \<Rightarrow> None
      | Some next_fire \<Rightarrow>
     (case decode_envelope_any (s_payload c) of
        None \<Rightarrow> Some (Inl ErrDecode, s)
      | Some payload \<Rightarrow>
          Some (run_tx (fire_schedule_tx now thread_id msg_id c due next_fire payload) s))))))"

definition due_schedules :: "go_time \<Rightarrow> int \<Rightarrow> store \<Rightarrow> schedule list" where
  "due_schedules now limit s =
     (let lim = (if limit \<le> 0 then 32 else limit)
      in map scan_schedule
           (take (nat lim)
             (sort_key (\<lambda>c. (the (s_next c), s_updated c))
               (filter (\<lambda>c. s_enabled c \<and> (case s_next c of None \<Rightarrow> False | Some t \<Rightarrow> t \<le> to_millis now))
                 (schedules s)))))"

text \<open>
  The firing loop stops at the first error; what was fired before it stays fired. The identifiers of
  round \<open>i\<close> are \<open>ids (2 * i)\<close> for the thread and \<open>ids (2 * i + 1)\<close> for the message.
\<close>

fun fire_all ::
    "cron_lib \<Rightarrow> go_time \<Rightarrow> (nat \<Rightarrow> string) \<Rightarrow> nat \<Rightarrow> schedule list \<Rightarrow> store \<Rightarrow>
     ((store_error + message list) \<times> store) option" where
  "fire_all lib now ids i [] s = Some (Inr [], s)"
| "fire_all lib now ids i (c # cs) s =
     (case fire_schedule lib now (ids (2 * i)) (ids (2 * i + 1)) c s of
        None \<Rightarrow> None
      | Some (Inl e, s') \<Rightarrow> Some (Inl e, s')
      | Some (Inr m, s') \<Rightarrow>
     (case fire_all lib now ids (Suc i) cs s' of
        None \<Rightarrow> None
      | Some (Inl e, s2) \<Rightarrow> Some (Inl e, s2)
      | Some (Inr ms, s2) \<Rightarrow>
          Some (Inr (case m of None \<Rightarrow> ms | Some x \<Rightarrow> x # ms), s2)))"

definition fire_due_schedules ::
    "cron_lib \<Rightarrow> go_time \<Rightarrow> (nat \<Rightarrow> string) \<Rightarrow> int \<Rightarrow> store \<Rightarrow>
     ((store_error + message list) \<times> store) option" where
  "fire_due_schedules lib now ids limit s = fire_all lib now ids 0 (due_schedules now limit s) s"

text \<open>\<open>Scheduler.FireOnce\<close> of \<open>pkg/server/scheduler.go\<close>.\<close>

definition fire_once ::
    "cron_lib \<Rightarrow> go_time \<Rightarrow> (nat \<Rightarrow> string) \<Rightarrow> int \<Rightarrow> store \<Rightarrow>
     ((store_error + message list) \<times> store) option" where
  "fire_once lib now ids batch_size s =
     fire_due_schedules lib now ids (if batch_size \<le> 0 then 32 else batch_size) s"

definition list_schedules :: "string \<Rightarrow> store \<Rightarrow> schedule list" where
  "list_schedules ns s =
     map scan_schedule (sort_key s_id (filter (\<lambda>c. s_namespace c = ns) (schedules s)))"

end
