(* ===== verification/Agents.thy ===== *)
theory Agents
  imports Mailbox Schedules
begin

text \<open>
  Namespaces, agents and their prompt versions (\<open>store.go\<close>, \<open>reconcile.go\<close> of
  \<open>pkg/server/store\<close>), and the queries of \<open>readers.go\<close>. \<open>os.MkdirAll\<close> is outside the repository: a
  predicate says for which paths it succeeds. The random identifiers are arguments.
\<close>

section \<open>Parameters and results\<close>

record create_namespace_params =
  cn_id :: string
  cn_name :: string
  cn_limits :: gval

record create_agent_params =
  ca_namespace :: string
  ca_agent :: string
  ca_name :: string
  ca_role :: string
  ca_desired :: string
  ca_root :: string
  ca_provider :: string
  ca_model :: string
  ca_base_url :: string
  ca_preserve :: bool
  ca_max_steps :: int
  ca_step_timeout :: duration
  ca_max_output :: int
  ca_lease_duration :: duration
  ca_retry_delay :: duration
  ca_max_attempts :: int
  ca_config :: gval
  ca_prompt :: string
  ca_schema :: gval

record runnable_agent =
  ra_record :: agent_row
  ra_prompt :: string

record 'a put_result =
  put_value :: 'a
  put_created :: bool
  put_updated :: bool

record mailbox_summary =
  ms_queued :: nat
  ms_leased :: nat
  ms_dead_letter :: nat
  ms_completed :: nat

record namespace_snapshot =
  ns_namespace :: namespace_row
  ns_agents :: "runnable_agent list"
  ns_schedules :: "schedule list"
  ns_mailbox :: mailbox_summary

section \<open>Namespaces\<close>

definition scan_namespace :: "namespace_row \<Rightarrow> namespace_row" where
  "scan_namespace row =
     row\<lparr>n_created := from_millis (n_created row), n_updated := from_millis (n_updated row)\<rparr>"

definition create_namespace ::
    "go_time \<Rightarrow> string \<Rightarrow> create_namespace_params \<Rightarrow> (store, store_error, namespace_row) op" where
  "create_namespace now gen_id p s =
     (let nid = default_string (cn_id p) gen_id
      in case marshal_optional_envelope ''namespace_limits'' (cn_limits p) of
           None \<Rightarrow> (Inl ErrEncode, s)
         | Some limits \<Rightarrow>
        (let name = (if trim_space (cn_name p) = [] then nid else trim_space (cn_name p));
             row = (\<lambda>t. \<lparr>n_id = nid, n_name = name, n_limits = limits, n_created = t, n_updated = t\<rparr>)
         in case insert_namespace (row (to_millis now)) s of
              Inl e \<Rightarrow> (Inl e, s)
            | Inr s' \<Rightarrow> (Inr (row now), s')))"

definition get_namespace :: "string \<Rightarrow> store \<Rightarrow> store_error + namespace_row" where
  "get_namespace nid s =
     (case find (\<lambda>r. n_id r = nid) (namespaces s) of
        None \<Rightarrow> Inl ErrNotFound
      | Some row \<Rightarrow> Inr (scan_namespace row))"

definition list_namespaces :: "store \<Rightarrow> namespace_row list" where
  "list_namespaces s = map scan_namespace (sort_key n_id (namespaces s))"

definition put_namespace ::
    "go_time \<Rightarrow> string \<Rightarrow> create_namespace_params \<Rightarrow> (store, store_error, namespace_row put_result) op" where
  "put_namespace now gen_id p s =
     (let nid = default_string (cn_id p) gen_id;
          name = (if trim_space (cn_name p) = [] then nid else trim_space (cn_name p))
      in case marshal_optional_envelope ''namespace_limits'' (cn_limits p) of
           None \<Rightarrow> (Inl ErrEncode, s)
         | Some limits \<Rightarrow>
        (case get_namespace nid s of
           Inl e \<Rightarrow>
             (if e \<noteq> ErrNotFound then (Inl e, s)
              else case create_namespace now gen_id
                     \<lparr>cn_id = nid, cn_name = name, cn_limits = cn_limits p\<rparr> s of
                (Inl e', s') \<Rightarrow> (Inl e', s')
              | (Inr r, s') \<Rightarrow> (Inr \<lparr>put_value = r, put_created = True, put_updated = False\<rparr>, s'))
         | Inr existing \<Rightarrow>
             (if \<not> (n_name existing \<noteq> name \<or> n_limits existing \<noteq> limits)
              then (Inr \<lparr>put_value = existing, put_created = False, put_updated = False\<rparr>, s)
              else let s' = s\<lparr>namespaces := update_where (\<lambda>r. n_id r = nid)
                         (\<lambda>r. r\<lparr>n_name := name, n_limits := limits, n_updated := to_millis now\<rparr>)
                         (namespaces s)\<rparr>
                   in case get_namespace nid s' of
                        Inl e \<Rightarrow> (Inl e, s')
                      | Inr r \<Rightarrow> (Inr \<lparr>put_value = r, put_created = False, put_updated = True\<rparr>, s'))))"

section \<open>The file system kind of a configuration\<close>

text \<open>
  \<open>encoding/json\<close> matches object keys to field names up to case, which folds the Kelvin sign and the
  long s to letters; a later match overwrites an earlier one, \<open>null\<close> leaves a field as it is, and a
  value of the wrong type is an error.
\<close>

fun fold_name :: "string \<Rightarrow> string" where
  "fold_name (a # b # c # s) =
     (if [a, b, c] = [CHR 0xE2, CHR 0x84, CHR 0xAA] then CHR ''k'' # fold_name s
      else if [a, b] = [CHR 0xC5, CHR 0xBF] then CHR ''s'' # fold_name (c # s)
      else (if CHR ''A'' \<le> a \<and> a \<le> CHR ''Z'' then char_of (of_char a + 32 :: nat) else a) # fold_name (b # c # s))"
| "fold_name [a, b] =
     (if [a, b] = [CHR 0xC5, CHR 0xBF] then [CHR ''s'']
      else (if CHR ''A'' \<le> a \<and> a \<le> CHR ''Z'' then char_of (of_char a + 32 :: nat) else a) # fold_name [b])"
| "fold_name [a] = [if CHR ''A'' \<le> a \<and> a \<le> CHR ''Z'' then char_of (of_char a + 32 :: nat) else a]"
| "fold_name [] = []"

definition decode_kind :: "(string \<times> gval) \<Rightarrow> string option \<Rightarrow> string option" where
  "decode_kind kv acc =
     (if fold_name (fst kv) \<noteq> ''kind'' then acc
      else case snd kv of GNil \<Rightarrow> acc | GStr k \<Rightarrow> map_option (\<lambda>_. k) acc | _ \<Rightarrow> None)"

definition decode_filesystem :: "(string \<times> gval) \<Rightarrow> string option \<Rightarrow> string option" where
  "decode_filesystem kv acc =
     (if fold_name (fst kv) \<noteq> ''filesystem'' then acc
      else case snd kv of GNil \<Rightarrow> acc | GMap kvs \<Rightarrow> fold decode_kind kvs acc | _ \<Rightarrow> None)"

definition config_kind :: "env_text \<Rightarrow> string option" where
  "config_kind text =
     (case decode_envelope_any text of
        None \<Rightarrow> None
      | Some GNil \<Rightarrow> Some []
      | Some (GMap kvs) \<Rightarrow> fold decode_filesystem kvs (Some [])
      | Some _ \<Rightarrow> None)"

definition agent_filesystem_kind :: "env_text \<Rightarrow> string option" where
  "agent_filesystem_kind text =
     (case config_kind text of
        None \<Rightarrow> None
      | Some kind \<Rightarrow>
          (let k = trim_space kind
           in if k = [] \<or> k = ''disk'' then Some ''disk''
              else if k = ''memory'' then Some ''memory'' else Some k))"

section \<open>Agents\<close>

definition normalize_create_agent_params ::
    "(string \<Rightarrow> bool) \<Rightarrow> string \<Rightarrow> create_agent_params \<Rightarrow> store_error + create_agent_params \<times> env_text" where
  "normalize_create_agent_params mkdir gen_id p =
     (if blank (ca_namespace p) then Inl (ErrInvalid ''create agent: namespace id must not be empty'')
      else if blank (ca_root p) then Inl (ErrInvalid ''create agent: root path must not be empty'')
      else
        (let p' = p\<lparr>ca_agent := default_string (ca_agent p) gen_id,
                    ca_role := (if ca_role p = [] then role_worker else ca_role p),
                    ca_desired := (if ca_desired p = [] then state_running else ca_desired p),
                    ca_provider := default_string (ca_provider p) ''openai''\<rparr>
         in case marshal_optional_envelope ''agent_config'' (ca_config p) of
              None \<Rightarrow> Inl ErrEncode
            | Some config \<Rightarrow>
           (case agent_filesystem_kind config of
              None \<Rightarrow> Inl ErrDecode
            | Some kind \<Rightarrow>
                if kind \<noteq> ''memory'' \<and> \<not> mkdir (ca_root p)
                then Inl (ErrInvalid ''create agent: ensure root path'')
                else Inr (p', config))))"

definition default_prompt :: string where
  "default_prompt = ''You are an agent managed by the SQLite server.''"

definition prompt_or_default :: "string \<Rightarrow> string" where
  "prompt_or_default p = (if trim_space p = [] then default_prompt else trim_space p)"

text \<open>
  The columns of an agent: the three durations are converted by \<open>dur\<close> and the times by \<open>tm\<close>, to
  milliseconds in the row and not at all in the record the operation returns.
\<close>

definition new_agent ::
    "(duration \<Rightarrow> int) \<Rightarrow> (go_time \<Rightarrow> int) \<Rightarrow> create_agent_params \<Rightarrow> env_text \<Rightarrow> string \<Rightarrow> go_time \<Rightarrow> agent_row" where
  "new_agent dur tm p config prompt_id now =
     \<lparr>a_namespace = ca_namespace p, a_id = ca_agent p,
      a_name = default_string (trim_space (ca_name p)) (ca_agent p),
      a_role = (if ca_role p = [] then role_worker else ca_role p),
      a_desired = (if ca_desired p = [] then state_running else ca_desired p),
      a_root = ca_root p,
      a_provider = (if trim_space (ca_provider p) = [] then ''openai'' else trim_space (ca_provider p)),
      a_model = trim_space (ca_model p), a_base_url = trim_space (ca_base_url p),
      a_preserve = ca_preserve p, a_max_steps = default_int (ca_max_steps p) 32,
      a_step_timeout = dur (default_duration (ca_step_timeout p) (5 * minute)),
      a_max_output = default_int (ca_max_output p) 65536,
      a_lease_duration = dur (default_duration (ca_lease_duration p) (5 * minute)),
      a_retry_delay = dur (default_duration (ca_retry_delay p) (30 * second)),
      a_max_attempts = default_int (ca_max_attempts p) 5,
      a_config = config, a_prompt_version = prompt_id,
      a_created = tm now, a_updated = tm now\<rparr>"

definition create_agent_tx ::
    "create_agent_params \<Rightarrow> env_text \<Rightarrow> env_text \<Rightarrow> string \<Rightarrow> go_time \<Rightarrow> (store, store_error, runnable_agent) tx" where
  "create_agent_tx p config schema prompt_id now s =
     (case insert_agent (new_agent to_duration_millis to_millis p config prompt_id now) s of
        Inl e \<Rightarrow> Inl e
      | Inr s1 \<Rightarrow>
     (case insert_prompt \<lparr>p_namespace = ca_namespace p, p_id = prompt_id, p_agent = ca_agent p,
             p_version = 1, p_prompt = prompt_or_default (ca_prompt p), p_schema = schema,
             p_created = to_millis now\<rparr> s1 of
        Inl e \<Rightarrow> Inl e
      | Inr s2 \<Rightarrow>
          Inr (\<lparr>ra_record = new_agent id id p config prompt_id now,
                ra_prompt = prompt_or_default (ca_prompt p)\<rparr>, s2)))"

definition create_agent ::
    "(string \<Rightarrow> bool) \<Rightarrow> go_time \<Rightarrow> string \<Rightarrow> string \<Rightarrow> create_agent_params \<Rightarrow>
     (store, store_error, runnable_agent) op" where
  "create_agent mkdir now gen_agent gen_prompt p s =
     (case normalize_create_agent_params mkdir gen_agent p of
        Inl e \<Rightarrow> (Inl e, s)
      | Inr (q, config) \<Rightarrow>
     (case marshal_optional_envelope ''agent_action_schema'' (ca_schema q) of
        None \<Rightarrow> (Inl ErrEncode, s)
      | Some schema \<Rightarrow> run_tx (create_agent_tx q config schema gen_prompt now) s))"

definition next_prompt_version :: "string \<Rightarrow> string \<Rightarrow> store \<Rightarrow> int" where
  "next_prompt_version ns ag s =
     (case filter (\<lambda>r. p_namespace r = ns \<and> p_agent r = ag) (prompts s) of
        [] \<Rightarrow> 1
      | r # rs \<Rightarrow> fold (\<lambda>x m. max (p_version x) m) rs (p_version r) + 1)"

definition update_agent_prompt_tx ::
    "string \<Rightarrow> string \<Rightarrow> string \<Rightarrow> env_text \<Rightarrow> string \<Rightarrow> go_time \<Rightarrow> (store, store_error, prompt_row) tx" where
  "update_agent_prompt_tx ns ag prompt schema prompt_id now s =
     (let row = (\<lambda>t. \<lparr>p_namespace = ns, p_id = prompt_id, p_agent = ag,
                   p_version = next_prompt_version ns ag s, p_prompt = prompt, p_schema = schema,
                   p_created = t\<rparr>);
          cond = (\<lambda>a. a_namespace a = ns \<and> a_id a = ag)
      in case insert_prompt (row (to_millis now)) s of
           Inl e \<Rightarrow> Inl e
         | Inr s1 \<Rightarrow>
             if rows_affected cond (agents s1) = 0 then Inl ErrNotFound
             else Inr (row now, s1\<lparr>agents := update_where cond
                    (\<lambda>a. a\<lparr>a_prompt_version := prompt_id, a_updated := to_millis now\<rparr>) (agents s1)\<rparr>))"

definition update_agent_prompt ::
    "go_time \<Rightarrow> string \<Rightarrow> string \<Rightarrow> string \<Rightarrow> string \<Rightarrow> gval \<Rightarrow> (store, store_error, prompt_row) op" where
  "update_agent_prompt now gen_prompt ns ag prompt schema s =
     (if blank ns \<or> blank ag
      then (Inl (ErrInvalid ''update agent prompt: namespace id and agent id must not be empty''), s)
      else if trim_space prompt = []
      then (Inl (ErrInvalid ''update agent prompt: prompt must not be empty''), s)
      else case marshal_optional_envelope ''agent_action_schema'' schema of
        None \<Rightarrow> (Inl ErrEncode, s)
      | Some sch \<Rightarrow> run_tx (update_agent_prompt_tx ns ag (trim_space prompt) sch gen_prompt now) s)"

definition update_agent_desired_state ::
    "go_time \<Rightarrow> string \<Rightarrow> string \<Rightarrow> string \<Rightarrow> (store, store_error, unit) op" where
  "update_agent_desired_state now ns ag desired s =
     (let cond = (\<lambda>a. a_namespace a = ns \<and> a_id a = ag)
      in if rows_affected cond (agents s) = 0 then (Inl ErrNotFound, s)
         else (Inr (), s\<lparr>agents := update_where cond
                 (\<lambda>a. a\<lparr>a_desired := desired, a_updated := to_millis now\<rparr>) (agents s)\<rparr>))"

section \<open>Reading agents\<close>

text \<open>An agent joined with its current prompt version.\<close>

definition scan_runnable_agent :: "store \<Rightarrow> agent_row \<Rightarrow> runnable_agent" where
  "scan_runnable_agent s a =
     \<lparr>ra_record =
        a\<lparr>a_step_timeout := from_duration_millis (a_step_timeout a),
          a_lease_duration := from_duration_millis (a_lease_duration a),
          a_retry_delay := from_duration_millis (a_retry_delay a),
          a_created := from_millis (a_created a), a_updated := from_millis (a_updated a)\<rparr>,
      ra_prompt =
        (case find (\<lambda>r. p_namespace r = a_namespace a \<and> p_id r = a_prompt_version a) (prompts s) of
           None \<Rightarrow> [] | Some r \<Rightarrow> p_prompt r)\<rparr>"

definition get_agent :: "string \<Rightarrow> string \<Rightarrow> store \<Rightarrow> store_error + runnable_agent" where
  "get_agent ns ag s =
     (case find (\<lambda>a. a_namespace a = ns \<and> a_id a = ag) (agents s) of
        None \<Rightarrow> Inl ErrNotFound
      | Some a \<Rightarrow> Inr (scan_runnable_agent s a))"

definition list_runnable_agents :: "store \<Rightarrow> runnable_agent list" where
  "list_runnable_agents s =
     map (scan_runnable_agent s)
       (sort_key a_key (filter (\<lambda>a. a_role a = role_worker \<and> a_desired a = state_running) (agents s)))"

definition list_agents :: "string \<Rightarrow> store \<Rightarrow> runnable_agent list" where
  "list_agents ns s =
     map (scan_runnable_agent s)
       (sort_key a_key (filter (\<lambda>a. \<not> blank ns \<longrightarrow> a_namespace a = ns) (agents s)))"

definition snapshot_namespace :: "string \<Rightarrow> store \<Rightarrow> store_error + namespace_snapshot" where
  "snapshot_namespace nid s =
     (case get_namespace nid s of
        Inl e \<Rightarrow> Inl e
      | Inr n \<Rightarrow>
          (let count = (\<lambda>st. length (filter (\<lambda>m. m_namespace m = nid \<and> m_status m = st) (messages s)))
           in Inr \<lparr>ns_namespace = n,
                   ns_agents = map (scan_runnable_agent s)
                     (sort_key a_id (filter (\<lambda>a. a_namespace a = nid) (agents s))),
                   ns_schedules = list_schedules nid s,
                   ns_mailbox = \<lparr>ms_queued = count Queued, ms_leased = count Leased,
                     ms_dead_letter = count DeadLetter, ms_completed = count Completed\<rparr>\<rparr>))"

section \<open>Reconciling an agent\<close>

definition agent_differs :: "create_agent_params \<Rightarrow> env_text \<Rightarrow> agent_row \<Rightarrow> bool" where
  "agent_differs p config a \<longleftrightarrow>
     a_name a \<noteq> default_string (trim_space (ca_name p)) (ca_agent p) \<or>
     a_role a \<noteq> ca_role p \<or> a_desired a \<noteq> ca_desired p \<or> a_root a \<noteq> ca_root p \<or>
     a_provider a \<noteq> default_string (trim_space (ca_provider p)) ''openai'' \<or>
     a_model a \<noteq> trim_space (ca_model p) \<or> a_base_url a \<noteq> trim_space (ca_base_url p) \<or>
     a_preserve a \<noteq> ca_preserve p \<or> a_max_steps a \<noteq> default_int (ca_max_steps p) 32 \<or>
     a_step_timeout a \<noteq> default_duration (ca_step_timeout p) (5 * minute) \<or>
     a_max_output a \<noteq> default_int (ca_max_output p) 65536 \<or>
     a_lease_duration a \<noteq> default_duration (ca_lease_duration p) (5 * minute) \<or>
     a_retry_delay a \<noteq> default_duration (ca_retry_delay p) (30 * second) \<or>
     a_max_attempts a \<noteq> default_int (ca_max_attempts p) 5 \<or> a_config a \<noteq> config"

definition agent_columns :: "create_agent_params \<Rightarrow> env_text \<Rightarrow> go_time \<Rightarrow> agent_row \<Rightarrow> agent_row" where
  "agent_columns p config now a =
     a\<lparr>a_name := default_string (trim_space (ca_name p)) (ca_agent p),
       a_role := ca_role p, a_desired := ca_desired p, a_root := ca_root p,
       a_provider := default_string (trim_space (ca_provider p)) ''openai'',
       a_model := trim_space (ca_model p), a_base_url := trim_space (ca_base_url p),
       a_preserve := ca_preserve p, a_max_steps := default_int (ca_max_steps p) 32,
       a_step_timeout := to_duration_millis (default_duration (ca_step_timeout p) (5 * minute)),
       a_max_output := default_int (ca_max_output p) 65536,
       a_lease_duration := to_duration_millis (default_duration (ca_lease_duration p) (5 * minute)),
       a_retry_delay := to_duration_millis (default_duration (ca_retry_delay p) (30 * second)),
       a_max_attempts := default_int (ca_max_attempts p) 5, a_config := config,
       a_updated := to_millis now\<rparr>"

definition current_action_schema :: "string \<Rightarrow> string \<Rightarrow> store \<Rightarrow> env_text" where
  "current_action_schema ns prompt_id s =
     (if blank prompt_id then NoText
      else case find (\<lambda>r. p_namespace r = ns \<and> p_id r = prompt_id) (prompts s) of
        None \<Rightarrow> NoText
      | Some r \<Rightarrow> p_schema r)"

definition put_agent ::
    "(string \<Rightarrow> bool) \<Rightarrow> go_time \<Rightarrow> string \<Rightarrow> string \<Rightarrow> create_agent_params \<Rightarrow>
     (store, store_error, runnable_agent put_result) op" where
  "put_agent mkdir now gen_agent gen_prompt p s =
     (case normalize_create_agent_params mkdir gen_agent p of
        Inl e \<Rightarrow> (Inl e, s)
      | Inr (q, config) \<Rightarrow>
     (case marshal_optional_envelope ''agent_action_schema'' (ca_schema q) of
        None \<Rightarrow> (Inl ErrEncode, s)
      | Some schema \<Rightarrow>
     (case get_agent (ca_namespace q) (ca_agent q) s of
        Inl e \<Rightarrow>
          (if e \<noteq> ErrNotFound then (Inl e, s)
           else case create_agent mkdir now gen_agent gen_prompt q s of
             (Inl e', s') \<Rightarrow> (Inl e', s')
           | (Inr a, s') \<Rightarrow> (Inr \<lparr>put_value = a, put_created = True, put_updated = False\<rparr>, s'))
      | Inr existing \<Rightarrow>
          (let upd = agent_differs q config (ra_record existing);
               s1 = (if upd then s\<lparr>agents := update_where
                        (\<lambda>a. a_namespace a = ca_namespace q \<and> a_id a = ca_agent q)
                        (agent_columns q config now) (agents s)\<rparr> else s);
               prompt = prompt_or_default (ca_prompt q);
               cur = current_action_schema (ca_namespace q) (a_prompt_version (ra_record existing)) s1;
               stale = ra_prompt existing \<noteq> prompt \<or> cur \<noteq> schema
           in case (if stale
                    then map_prod (map_sum id Some) id (update_agent_prompt now gen_prompt
                           (ca_namespace q) (ca_agent q) prompt (ca_schema q) s1)
                    else (Inr None, s1)) of
                (Inl e, s2) \<Rightarrow> (Inl e, s2)
              | (Inr _, s2) \<Rightarrow>
             (case get_agent (ca_namespace q) (ca_agent q) s2 of
                Inl e \<Rightarrow> (Inl e, s2)
              | Inr a \<Rightarrow>
                  (Inr \<lparr>put_value = a, put_created = False, put_updated = upd \<or> stale\<rparr>, s2))))))"

section \<open>Deleting\<close>

definition delete_agent :: "string \<Rightarrow> string \<Rightarrow> (store, store_error, unit) op" where
  "delete_agent ns ag s =
     (let cond = (\<lambda>a. a_namespace a = ns \<and> a_id a = ag)
      in if rows_affected cond (agents s) = 0 then (Inl ErrNotFound, s)
         else (Inr (), delete_agents cond s))"

definition delete_schedules_by_agent :: "string \<Rightarrow> string \<Rightarrow> store \<Rightarrow> nat \<times> store" where
  "delete_schedules_by_agent ns ag s =
     (let cond = (\<lambda>c. s_namespace c = ns \<and> s_agent c = ag)
      in (rows_affected cond (schedules s), s\<lparr>schedules := filter (\<lambda>c. \<not> cond c) (schedules s)\<rparr>))"

section \<open>Queries of readers.go\<close>

definition status_text :: "msg_status \<Rightarrow> string" where
  "status_text st =
     (case st of Queued \<Rightarrow> ''queued'' | Leased \<Rightarrow> ''leased'' | Completed \<Rightarrow> ''completed''
      | DeadLetter \<Rightarrow> ''dead_letter'')"

text \<open>\<open>ORDER BY ... DESC LIMIT\<close> for one composite key.\<close>

definition latest :: "('r \<Rightarrow> 'k::linorder) \<Rightarrow> int \<Rightarrow> 'r list \<Rightarrow> 'r list" where
  "latest k limit rows = take (nat (if limit \<le> 0 then 50 else limit)) (rev (sort_key k (rev rows)))"

definition list_mailbox_messages :: "string \<Rightarrow> string \<Rightarrow> string \<Rightarrow> int \<Rightarrow> store \<Rightarrow> message list" where
  "list_mailbox_messages ns ag status limit s =
     map scan_message (latest (\<lambda>m. (m_updated m, m_created m, m_id m)) limit
       (filter (\<lambda>m. (\<not> blank ns \<longrightarrow> m_namespace m = ns) \<and>
                    (\<not> blank ag \<longrightarrow> m_recipient m = ag \<or> m_sender m = ag) \<and>
                    (status \<noteq> [] \<longrightarrow> status_text (m_status m) = status)) (messages s)))"

definition get_mailbox_message :: "string \<Rightarrow> string \<Rightarrow> store \<Rightarrow> store_error + message" where
  "get_mailbox_message ns mid s =
     (case find (\<lambda>m. m_namespace m = ns \<and> m_id m = mid) (messages s) of
        None \<Rightarrow> Inl ErrNotFound
      | Some m \<Rightarrow> Inr (scan_message m))"

definition list_runs :: "string \<Rightarrow> string \<Rightarrow> string \<Rightarrow> int \<Rightarrow> store \<Rightarrow> run_row list" where
  "list_runs ns ag status limit s =
     map scan_run (latest (\<lambda>r. (r_started r, r_created r, r_id r)) limit
       (filter (\<lambda>r. (\<not> blank ns \<longrightarrow> r_namespace r = ns) \<and> (\<not> blank ag \<longrightarrow> r_agent r = ag) \<and>
                    (\<not> blank status \<longrightarrow> r_status r = status)) (runs s)))"

definition scan_step :: "step_row \<Rightarrow> step_row" where
  "scan_step row =
     row\<lparr>t_started := from_millis (t_started row), t_finished := from_millis (t_finished row),
         t_duration := from_duration_millis (t_duration row)\<rparr>"

definition list_steps_by_run :: "string \<Rightarrow> string \<Rightarrow> store \<Rightarrow> step_row list" where
  "list_steps_by_run ns rid s =
     map scan_step (sort_key t_index (filter (\<lambda>t. t_namespace t = ns \<and> t_run t = rid) (steps s)))"

end
