(* ===== verification/AgentTypes.thy ===== *)
theory AgentTypes
  imports StoreModel
begin

text \<open>
  The types the agent runtime and the server share (\<open>pkg/agent/types.go\<close>, \<open>pkg/tools/core/core.go\<close>):
  triggers, decisions, steps and results. A metadata map that may be \<open>nil\<close> is an optional map.
\<close>

type_synonym metadata = "string \<rightharpoonup> gval"

record file_ref =
  f_path :: string
  f_mime :: string
  f_description :: string
  f_size :: int

datatype step_status =
    StepUnset | StepOK | StepExitStatus | StepParseError | StepPolicyError | StepFatalError

record agent_step =
  st_index :: int
  st_type :: string
  st_thought :: string
  st_action :: string
  st_tool_kind :: string
  st_input :: string
  st_output :: string
  st_output_truncated :: bool
  st_output_files :: "file_ref list"
  st_output_bytes :: int
  st_output_compacted :: bool
  st_shell :: string
  st_cached_tokens :: int
  st_cwd_before :: string
  st_cwd_after :: string
  st_stdout :: string
  st_stderr :: string
  st_stdout_truncated :: bool
  st_stderr_truncated :: bool
  st_stdout_file :: "file_ref option"
  st_stderr_file :: "file_ref option"
  st_stdout_bytes :: int
  st_stderr_bytes :: int
  st_started :: go_time
  st_finished :: go_time
  st_duration :: duration
  st_status :: step_status
  st_exit :: int
  st_error :: string

record trigger =
  tg_id :: string
  tg_kind :: string
  tg_payload :: gval
  tg_metadata :: "metadata option"
  tg_enqueued :: go_time

record tool_action =
  ta_name :: string
  ta_kind :: string
  ta_input :: string

record decision =
  d_thought :: string
  d_cached_tokens :: int
  d_tool :: "tool_action option"
  d_finish :: "gval option"
  d_replay :: string
  d_provider :: string

datatype result_status = Finished | MaxSteps | DriverError | FatalError | Canceled

record agent_result =
  rs_trigger :: trigger
  rs_started :: go_time
  rs_finished :: go_time
  rs_duration :: duration
  rs_status :: result_status
  rs_cwd :: string
  rs_cached_tokens :: int
  rs_thought :: string
  rs_value :: gval
  rs_steps :: "agent_step list"
  rs_error :: string
  rs_replay :: "string \<rightharpoonup> string"
  rs_provider :: string

definition result_status_text :: "result_status \<Rightarrow> string" where
  "result_status_text st =
     (case st of Finished \<Rightarrow> ''finished'' | MaxSteps \<Rightarrow> ''max_steps'' | DriverError \<Rightarrow> ''driver_error''
      | FatalError \<Rightarrow> ''fatal_error'' | Canceled \<Rightarrow> ''canceled'')"

definition step_status_text :: "step_status \<Rightarrow> string" where
  "step_status_text st =
     (case st of StepUnset \<Rightarrow> [] | StepOK \<Rightarrow> ''ok'' | StepExitStatus \<Rightarrow> ''exit_status''
      | StepParseError \<Rightarrow> ''parse_error'' | StepPolicyError \<Rightarrow> ''policy_error''
      | StepFatalError \<Rightarrow> ''fatal_error'')"

definition tool_kind_function :: string where "tool_kind_function = ''function''"
definition tool_kind_custom :: string where "tool_kind_custom = ''custom''"

text \<open>\<open>FirstNonEmptyString\<close> of \<open>pkg/tools/common\<close>.\<close>

fun first_non_empty :: "string list \<Rightarrow> string" where
  "first_non_empty [] = []"
| "first_non_empty (v # vs) = (if trim_space v \<noteq> [] then trim_space v else first_non_empty vs)"

end
