(* ===== verification/Dispatch.thy ===== *)
theory Dispatch
  imports Agents AgentTypes
begin

text \<open>
  Between the store and an agent (\<open>queue.go\<close>, \<open>context.go\<close>, \<open>persistence.go\<close> of \<open>pkg/server\<close>): the
  message queue turns a claimed message into a trigger, the step persister records the steps of its
  run, and the result persister settles the message with the result.
\<close>

section \<open>Errors\<close>

datatype server_error =
    StoreError store_error
  | PayloadError
  | ContextDone
  | MetadataMissing
  | MetadataIncomplete
  | OutboxInvalid
  | OutboxDenied

section \<open>Trigger metadata (\<open>context.go\<close>)\<close>

record trigger_context =
  tc_namespace :: string
  tc_agent :: string
  tc_message :: string
  tc_thread :: string
  tc_run :: string
  tc_sender :: string

definition md_namespace :: string where "md_namespace = ''server_namespace_id''"
definition md_agent :: string where "md_agent = ''server_agent_id''"
definition md_message :: string where "md_message = ''server_message_id''"
definition md_thread :: string where "md_thread = ''server_thread_id''"
definition md_run :: string where "md_run = ''server_run_id''"
definition md_sender :: string where "md_sender = ''server_sender_agent_id''"
definition md_attempts :: string where "md_attempts = ''server_attempt_count''"
definition md_max_attempts :: string where "md_max_attempts = ''server_max_attempts''"

lemmas md_defs = md_namespace_def md_agent_def md_message_def md_thread_def md_run_def md_sender_def
  md_attempts_def md_max_attempts_def

definition metadata_string :: "metadata \<Rightarrow> string \<Rightarrow> string" where
  "metadata_string md key = (case md key of Some (GStr s) \<Rightarrow> s | _ \<Rightarrow> [])"

text \<open>A \<open>float64\<close> is truncated towards zero.\<close>

definition metadata_int :: "metadata \<Rightarrow> string \<Rightarrow> int" where
  "metadata_int md key =
     (case md key of
        Some (GInt n) \<Rightarrow> n
      | Some (GNum q) \<Rightarrow> (if q < 0 then - \<lfloor>- q\<rfloor> else \<lfloor>q\<rfloor>)
      | _ \<Rightarrow> 0)"

definition trigger_context_from_metadata :: "metadata option \<Rightarrow> server_error + trigger_context" where
  "trigger_context_from_metadata md =
     (case md of
        None \<Rightarrow> Inl MetadataMissing
      | Some m \<Rightarrow>
          let ctx = \<lparr>tc_namespace = metadata_string m md_namespace, tc_agent = metadata_string m md_agent,
                     tc_message = metadata_string m md_message, tc_thread = metadata_string m md_thread,
                     tc_run = metadata_string m md_run, tc_sender = metadata_string m md_sender\<rparr>
          in if tc_namespace ctx = [] \<or> tc_agent ctx = [] \<or> tc_message ctx = [] \<or> tc_run ctx = []
             then Inl MetadataIncomplete else Inr ctx)"

section \<open>The message queue (\<open>queue.go\<close>)\<close>

record message_queue =
  q_namespace :: string
  q_agent :: string
  q_lease_owner :: string
  q_lease_duration :: duration
  q_system_prompt :: string

text \<open>
  The metadata of a claimed message: what the server knows of it, then whatever the sender attached,
  key by key on top.
\<close>

definition server_metadata :: "message_queue \<Rightarrow> message \<Rightarrow> run_row \<Rightarrow> metadata" where
  "server_metadata q m r =
     (let base = [md_namespace \<mapsto> GStr (q_namespace q), md_agent \<mapsto> GStr (q_agent q),
                  md_message \<mapsto> GStr (m_id m), md_thread \<mapsto> GStr (m_thread m), md_run \<mapsto> GStr (r_id r),
                  md_attempts \<mapsto> GInt (m_attempts m), md_max_attempts \<mapsto> GInt (m_max_attempts m)]
      in if m_sender m \<noteq> [] then base(md_sender \<mapsto> GStr (m_sender m)) else base)"

definition sender_metadata :: "env_text \<Rightarrow> metadata" where
  "sender_metadata text =
     (case decode_envelope_any text of Some (GMap kvs) \<Rightarrow> map_of (rev kvs) | _ \<Rightarrow> Map.empty)"

definition claim_trigger :: "message_queue \<Rightarrow> message \<Rightarrow> run_row \<Rightarrow> server_error + trigger" where
  "claim_trigger q m r =
     (case decode_envelope_any (m_payload m) of
        None \<Rightarrow> Inl PayloadError
      | Some payload \<Rightarrow>
          Inr \<lparr>tg_id = r_trigger r, tg_kind = m_kind m, tg_payload = payload,
               tg_metadata = Some (server_metadata q m r ++ sender_metadata (m_metadata m)),
               tg_enqueued = m_created m\<rparr>)"

definition queue_claim_params :: "message_queue \<Rightarrow> claim_params" where
  "queue_claim_params q =
     \<lparr>cl_namespace = q_namespace q, cl_agent = q_agent q, cl_lease_owner = q_lease_owner q,
      cl_lease_duration = q_lease_duration q, cl_system_prompt = q_system_prompt q\<rparr>"

text \<open>
  \<open>Next\<close> polls until there is a message. Between two polls the rest of the system acts: \<open>world i\<close> is
  what it does to the store during the \<open>i\<close>-th wait. The context is done at the end of the wait that
  follows poll \<open>n\<close>. Each poll has its own clock readings and identifiers.
\<close>

fun queue_next ::
    "message_queue \<Rightarrow> (nat \<Rightarrow> nat \<Rightarrow> go_time) \<Rightarrow> (nat \<Rightarrow> nat \<Rightarrow> string) \<Rightarrow> (nat \<Rightarrow> store \<Rightarrow> store) \<Rightarrow> nat \<Rightarrow> nat \<Rightarrow>
     (store, server_error, trigger) op" where
  "queue_next q clock ids world i 0 s = (Inl ContextDone, s)"
| "queue_next q clock ids world i (Suc n) s =
     (case claim_next_message (queue_claim_params q) (clock i) (ids i) s of
        (Inr (m, r), s') \<Rightarrow> (claim_trigger q m r, s')
      | (Inl e, s') \<Rightarrow>
          if e \<noteq> ErrNoAvailableMessage then (Inl (StoreError e), s')
          else queue_next q clock ids world (Suc i) n (world i s'))"

section \<open>Recording steps\<close>

definition step_record_of :: "trigger_context \<Rightarrow> agent_step \<Rightarrow> step_row" where
  "step_record_of ctx st =
     \<lparr>t_namespace = tc_namespace ctx, t_run = tc_run ctx, t_message = tc_message ctx,
      t_agent = tc_agent ctx, t_index = st_index st, t_type = st_type st, t_thought = st_thought st,
      t_shell = st_shell st, t_action = st_action st, t_tool_kind = st_tool_kind st,
      t_input = st_input st, t_output = st_output st, t_output_truncated = st_output_truncated st,
      t_cached_tokens = st_cached_tokens st, t_cwd_before = st_cwd_before st,
      t_cwd_after = st_cwd_after st, t_stdout = st_stdout st, t_stderr = st_stderr st,
      t_stdout_truncated = st_stdout_truncated st, t_stderr_truncated = st_stderr_truncated st,
      t_started = st_started st, t_finished = st_finished st, t_duration = st_duration st,
      t_status = step_status_text (st_status st), t_exit = st_exit st, t_error = st_error st\<rparr>"

definition handle_step :: "trigger \<Rightarrow> agent_step \<Rightarrow> (store, server_error, unit) op" where
  "handle_step tg st s =
     (case trigger_context_from_metadata (tg_metadata tg) of
        Inl e \<Rightarrow> (Inl e, s)
      | Inr ctx \<Rightarrow> map_prod (map_sum StoreError id) id (record_step (step_record_of ctx st) s))"

section \<open>The outbox of a result\<close>

record outbox_message =
  ob_recipient :: string
  ob_thread :: string
  ob_kind :: string
  ob_payload :: gval
  ob_metadata :: gval
  ob_available :: string
  ob_max_attempts :: int

definition empty_outbox_message :: outbox_message where
  "empty_outbox_message =
     \<lparr>ob_recipient = [], ob_thread = [], ob_kind = [], ob_payload = GNil, ob_metadata = GNil,
      ob_available = [], ob_max_attempts = 0\<rparr>"

text \<open>
  Decoding into a \<open>string\<close> or an \<open>int\<close> field: \<open>null\<close> leaves it, another type is an error; an \<open>int\<close>
  takes a whole number of 64 bits.
\<close>

definition json_string :: "string \<Rightarrow> gval \<Rightarrow> string option" where
  "json_string old v = (case v of GNil \<Rightarrow> Some old | GStr s \<Rightarrow> Some s | _ \<Rightarrow> None)"

definition json_int :: "int \<Rightarrow> gval \<Rightarrow> int option" where
  "json_int old v =
     (case v of
        GNil \<Rightarrow> Some old
      | GNum q \<Rightarrow> if q = of_int \<lfloor>q\<rfloor> \<and> - (2 ^ 63) \<le> \<lfloor>q\<rfloor> \<and> \<lfloor>q\<rfloor> < 2 ^ 63 then Some \<lfloor>q\<rfloor> else None
      | _ \<Rightarrow> None)"

definition decode_outbox_field :: "(string \<times> gval) \<Rightarrow> outbox_message option \<Rightarrow> outbox_message option" where
  "decode_outbox_field kv acc =
     (case acc of None \<Rightarrow> None | Some om \<Rightarrow>
      (let k = fold_name (fst kv); v = snd kv
       in if k = ''recipient_agent_id'' then map_option (\<lambda>x. om\<lparr>ob_recipient := x\<rparr>) (json_string (ob_recipient om) v)
          else if k = ''thread_id'' then map_option (\<lambda>x. om\<lparr>ob_thread := x\<rparr>) (json_string (ob_thread om) v)
          else if k = ''kind'' then map_option (\<lambda>x. om\<lparr>ob_kind := x\<rparr>) (json_string (ob_kind om) v)
          else if k = ''payload'' then Some (om\<lparr>ob_payload := v\<rparr>)
          else if k = ''metadata'' then Some (om\<lparr>ob_metadata := v\<rparr>)
          else if k = ''available_at'' then map_option (\<lambda>x. om\<lparr>ob_available := x\<rparr>) (json_string (ob_available om) v)
          else if k = ''max_attempts'' then map_option (\<lambda>x. om\<lparr>ob_max_attempts := x\<rparr>) (json_int (ob_max_attempts om) v)
          else Some om))"

text \<open>An array is decoded over the elements a previous spelling of the key left.\<close>

fun decode_outbox_list :: "outbox_message list \<Rightarrow> gval list \<Rightarrow> outbox_message list option" where
  "decode_outbox_list old [] = Some []"
| "decode_outbox_list old (v # vs) =
     (let base = (case old of [] \<Rightarrow> empty_outbox_message | om # _ \<Rightarrow> om)
      in case (case v of GNil \<Rightarrow> Some base | GMap kvs \<Rightarrow> fold decode_outbox_field kvs (Some base) | _ \<Rightarrow> None) of
           None \<Rightarrow> None
         | Some om \<Rightarrow> map_option (\<lambda>os. om # os) (decode_outbox_list (tl old) vs))"

definition decode_result_field ::
    "(string \<times> gval) \<Rightarrow> outbox_message list option \<Rightarrow> outbox_message list option" where
  "decode_result_field kv acc =
     (case acc of None \<Rightarrow> None | Some os \<Rightarrow>
      if fold_name (fst kv) \<noteq> ''outbox'' then Some os
      else case snd kv of GNil \<Rightarrow> Some [] | GList vs \<Rightarrow> decode_outbox_list os vs | _ \<Rightarrow> None)"

text \<open>The outbox in a value that reads as \<open>WorkerResultEnvelope\<close>; \<open>None\<close> when it does not.\<close>

definition decode_worker_result :: "gval \<Rightarrow> outbox_message list option" where
  "decode_worker_result v =
     (case v of GNil \<Rightarrow> Some [] | GMap kvs \<Rightarrow> fold decode_result_field kvs (Some []) | _ \<Rightarrow> None)"

definition outbox_params :: "trigger_context \<Rightarrow> outbox_message \<Rightarrow> create_message_params option" where
  "outbox_params ctx om =
     (if ob_recipient om = [] then None
      else case (if ob_available om = [] then Some zero_time else parse_rfc3339_nano (ob_available om)) of
        None \<Rightarrow> None
      | Some available \<Rightarrow>
          Some \<lparr>cp_namespace = tc_namespace ctx, cp_message = [],
                cp_thread = first_non_empty [ob_thread om, tc_thread ctx],
                cp_sender = tc_agent ctx, cp_recipient = ob_recipient om,
                cp_kind = first_non_empty [ob_kind om, ''agent.message''],
                cp_payload = ob_payload om, cp_metadata = ob_metadata om,
                cp_available = available, cp_max_attempts = ob_max_attempts om\<rparr>)"

definition extract_outbox :: "gval \<Rightarrow> trigger_context \<Rightarrow> server_error + create_message_params list" where
  "extract_outbox v ctx =
     (if v = GNil then Inr []
      else case json_text v of
        None \<Rightarrow> Inl OutboxInvalid
      | Some data \<Rightarrow>
     (case decode_worker_result data of
        None \<Rightarrow> Inr []
      | Some os \<Rightarrow>
     (case those (map (outbox_params ctx) os) of
        None \<Rightarrow> Inl OutboxInvalid
      | Some ps \<Rightarrow> Inr ps)))"

section \<open>Settling a message with its result\<close>

record result_persister =
  rp_retry_delay :: duration
  rp_allow_message_send :: bool

text \<open>The reason of a dead letter, or the time of the retry.\<close>

definition settle_failure ::
    "result_persister \<Rightarrow> go_time \<Rightarrow> agent_result \<Rightarrow> metadata \<Rightarrow> go_time option \<times> string" where
  "settle_failure p now res md =
     (if rs_status res = Finished then (None, [])
      else if metadata_int md md_max_attempts > 0 \<and> metadata_int md md_attempts \<ge> metadata_int md md_max_attempts
      then (None, ''message exhausted retries after result status '' @ result_status_text (rs_status res))
      else (Some (now + (if rp_retry_delay p \<le> 0 then 30 * second else rp_retry_delay p)), []))"

definition complete_params_of ::
    "trigger_context \<Rightarrow> agent_result \<Rightarrow> go_time option \<times> string \<Rightarrow> create_message_params list \<Rightarrow> complete_params" where
  "complete_params_of ctx res failure outbox =
     \<lparr>co_namespace = tc_namespace ctx, co_run = tc_run ctx, co_message = tc_message ctx,
      co_status = result_status_text (rs_status res), co_finished = rs_finished res,
      co_duration = rs_duration res, co_cwd = rs_cwd res, co_cached_tokens = rs_cached_tokens res,
      co_thought = rs_thought res, co_value = rs_value res, co_error = rs_error res,
      co_retry_at = fst failure, co_dead_reason = snd failure, co_outbox = outbox\<rparr>"

text \<open>
  \<open>HandleResult\<close>; \<open>now\<close> is the clock when the retry time is computed, \<open>now'\<close> the store's clock.
\<close>

definition handle_result ::
    "result_persister \<Rightarrow> go_time \<Rightarrow> go_time \<Rightarrow> (nat \<Rightarrow> string) \<Rightarrow> agent_result \<Rightarrow> (store, server_error, unit) op" where
  "handle_result p now now' ids res s =
     (case trigger_context_from_metadata (tg_metadata (rs_trigger res)) of
        Inl e \<Rightarrow> (Inl e, s)
      | Inr ctx \<Rightarrow>
     (case extract_outbox (rs_value res) ctx of
        Inl e \<Rightarrow> (Inl e, s)
      | Inr extracted \<Rightarrow>
          (let outbox = (if rs_status res \<noteq> Finished then [] else extracted);
               failure = settle_failure p now res (the (tg_metadata (rs_trigger res)))
           in if outbox \<noteq> [] \<and> \<not> rp_allow_message_send p then (Inl OutboxDenied, s)
              else map_prod (map_sum StoreError id) id
                (complete_run now' ids (complete_params_of ctx res failure outbox) s))))"

end
