(* ===== verification/MailboxLaws.thy ===== *)
theory MailboxLaws
  imports Mailbox
begin

text \<open>
  Lemmas on the mailbox: what each operation does to the message table, that no operation breaks the
  constraints of the schema, the life cycle of a message, and the exclusion a lease gives.
\<close>

section \<open>Columns the helpers leave alone\<close>

lemma scan_message_simps [simp]:
  "m_namespace (scan_message m) = m_namespace m" "m_id (scan_message m) = m_id m"
  "m_thread (scan_message m) = m_thread m" "m_sender (scan_message m) = m_sender m"
  "m_recipient (scan_message m) = m_recipient m" "m_kind (scan_message m) = m_kind m"
  "m_payload (scan_message m) = m_payload m" "m_metadata (scan_message m) = m_metadata m"
  "m_status (scan_message m) = m_status m" "m_attempts (scan_message m) = m_attempts m"
  "m_max_attempts (scan_message m) = m_max_attempts m" "m_run (scan_message m) = m_run m"
  by (simp_all add: scan_message_def)

lemma leased_message_simps [simp]:
  "m_key (leased_message ow e r t m) = m_key m" "m_agent (leased_message ow e r t m) = m_agent m"
  "m_id (leased_message ow e r t m) = m_id m" "m_namespace (leased_message ow e r t m) = m_namespace m"
  "m_recipient (leased_message ow e r t m) = m_recipient m"
  "m_payload (leased_message ow e r t m) = m_payload m"
  "m_metadata (leased_message ow e r t m) = m_metadata m"
  "m_thread (leased_message ow e r t m) = m_thread m"
  "m_sender (leased_message ow e r t m) = m_sender m"
  "m_kind (leased_message ow e r t m) = m_kind m"
  "m_status (leased_message ow e r t m) = Leased" "m_run (leased_message ow e r t m) = r"
  "m_lease_owner (leased_message ow e r t m) = ow"
  "m_lease_expires (leased_message ow e r t m) = Some e"
  "m_attempts (leased_message ow e r t m) = m_attempts m + 1"
  "m_max_attempts (leased_message ow e r t m) = m_max_attempts m"
  "m_available (leased_message ow e r t m) = m_available m"
  "m_created (leased_message ow e r t m) = m_created m"
  "m_dead_reason (leased_message ow e r t m) = m_dead_reason m"
  "m_completed (leased_message ow e r t m) = m_completed m"
  "m_claimed (leased_message ow e r t m) \<noteq> None"
  by (simp_all add: leased_message_def m_key_def m_agent_def split: option.split)

lemma settled_message_simps [simp]:
  "m_key (settled_message p now m) = m_key m" "m_agent (settled_message p now m) = m_agent m"
  "m_id (settled_message p now m) = m_id m" "m_namespace (settled_message p now m) = m_namespace m"
  "m_recipient (settled_message p now m) = m_recipient m"
  "m_attempts (settled_message p now m) = m_attempts m"
  "m_max_attempts (settled_message p now m) = m_max_attempts m"
  "m_lease_owner (settled_message p now m) = []" "m_lease_expires (settled_message p now m) = None"
  "m_run (settled_message p now m) = []"
  by (simp_all add: settled_message_def m_key_def m_agent_def completion_columns_def split: option.split)

lemma finished_run_simps [simp]:
  "r_key (finished_run p v now r) = r_key r" "r_message_key (finished_run p v now r) = r_message_key r"
  "r_agent_key (finished_run p v now r) = r_agent_key r" "r_id (finished_run p v now r) = r_id r"
  "r_namespace (finished_run p v now r) = r_namespace r"
  "r_message (finished_run p v now r) = r_message r" "r_agent (finished_run p v now r) = r_agent r"
  by (simp_all add: finished_run_def key_defs)

lemma new_message_simps [simp]:
  "m_key (new_message p mid pay md av now) = (cp_namespace p, mid)"
  "m_agent (new_message p mid pay md av now) = (cp_namespace p, cp_recipient p)"
  "m_status (new_message p mid pay md av now) = Queued"
  "m_id (new_message p mid pay md av now) = mid"
  "m_payload (new_message p mid pay md av now) = pay"
  "m_available (new_message p mid pay md av now) = av"
  by (simp_all add: new_message_def key_defs)

section \<open>What a transaction does\<close>

lemma enqueue_message_tx_Inr:
  assumes "enqueue_message_tx now gen p s = Inr (m, s')"
  obtains mid pay md where "mid = default_string (cp_message p) gen"
    and "marshal_envelope ''mailbox_payload'' (cp_payload p) = Some pay"
    and "(cp_namespace p, mid) \<notin> m_key ` set (messages s)"
    and "(cp_namespace p, cp_recipient p) \<in> a_key ` set (agents s)"
    and "m = new_message p mid pay md
           (if cp_available p = zero_time then now else cp_available p) now"
    and "s' = s\<lparr>messages := messages s @ [new_message p mid pay md
           (to_millis (if cp_available p = zero_time then now else cp_available p)) (to_millis now)]\<rparr>"
  using assms
  by (auto simp: enqueue_message_tx_def Let_def insert_message_Inr split: option.splits sum.splits)

text \<open>
  The row a message to be sent becomes: addressed and filled as its parameters say, queued, not yet
  attempted, available at the time asked for or at once.
\<close>

definition enqueued_as :: "go_time \<Rightarrow> create_message_params \<Rightarrow> message \<Rightarrow> bool" where
  "enqueued_as now q m \<longleftrightarrow>
     m_namespace m = cp_namespace q \<and> m_recipient m = cp_recipient q \<and> m_sender m = cp_sender q \<and>
     m_kind m = default_string (cp_kind q) ''mailbox.message'' \<and>
     (blank (cp_message q) \<or> m_id m = cp_message q) \<and> m_thread m = default_string (cp_thread q) (m_id m) \<and>
     marshal_envelope ''mailbox_payload'' (cp_payload q) = Some (m_payload m) \<and>
     marshal_optional_envelope ''mailbox_metadata'' (cp_metadata q) = Some (m_metadata m) \<and>
     m_status m = Queued \<and> m_attempts m = 0 \<and> m_max_attempts m = default_int (cp_max_attempts q) 5 \<and>
     m_available m = to_millis (if cp_available q = zero_time then now else cp_available q)"

lemma enqueue_message_tx_row:
  assumes "enqueue_message_tx now gen p s = Inr (m, s')"
  obtains row where "s' = s\<lparr>messages := messages s @ [row]\<rparr>"
    and "enqueued_as now p row" and "m_key row = m_key m"
    and "m_namespace m = cp_namespace p" and "m_recipient m = cp_recipient p" and "m_status m = Queued"
proof -
  let ?av = "if cp_available p = zero_time then now else cp_available p"
  from assms obtain mid pay md where e:
    "marshal_envelope ''mailbox_payload'' (cp_payload p) = Some pay"
    "marshal_optional_envelope ''mailbox_metadata'' (cp_metadata p) = Some md"
    "mid = default_string (cp_message p) gen"
    "m = new_message p mid pay md ?av now"
    "s' = s\<lparr>messages := messages s @ [new_message p mid pay md (to_millis ?av) (to_millis now)]\<rparr>"
    by (auto simp: enqueue_message_tx_def Let_def insert_message_Inr split: option.splits sum.splits)
  have "enqueued_as now p (new_message p mid pay md (to_millis ?av) (to_millis now))"
    using e(1-3) by (simp add: new_message_def enqueued_as_def default_string_def)
  then show thesis by (rule that [OF e(5)]) (simp_all add: e(4) new_message_def m_key_def)
qed

text \<open>A row selected by its key is the only one an update on that key changes.\<close>

lemma update_where_key:
  assumes "store_ok s" and row: "row \<in> set (messages s)" and "P row"
  shows "update_where (\<lambda>m. m_namespace m = m_namespace row \<and> m_id m = m_id row \<and> P m) f (messages s) =
         update_where (\<lambda>m. m_key m = m_key row) f (messages s)"
proof -
  have "(m_namespace m = m_namespace row \<and> m_id m = m_id row \<and> P m) = (m_key m = m_key row)"
    if "m \<in> set (messages s)" for m
    using message_rows.row_unique [OF assms(1) that row] assms(3) by (auto simp: m_key_def)
  then show ?thesis by (simp add: update_where_def)
qed

text \<open>The state a successful claim of \<open>row\<close> leaves.\<close>

definition claimed_store ::
    "claim_params \<Rightarrow> go_time \<Rightarrow> string \<Rightarrow> prompt_text \<Rightarrow> message \<Rightarrow> store \<Rightarrow> store" where
  "claimed_store p now rid prompt row s =
     s\<lparr>messages := update_where (\<lambda>m. m_key m = m_key row)
         (leased_message (default_string (cl_lease_owner p) (lease_owner_id s))
            (to_millis (now + default_duration (cl_lease_duration p) (5 * minute))) rid (to_millis now))
         (messages s),
       runs := runs s @ [new_run p rid (m_id row) prompt (to_millis now)]\<rparr>"

text \<open>
  A message waits for an agent: it is addressed to it and due, and it is queued or its lease has run out.
\<close>

definition waits_for :: "string \<Rightarrow> string \<Rightarrow> millis \<Rightarrow> message \<Rightarrow> bool" where
  "waits_for ns agent t m \<longleftrightarrow>
     m_namespace m = ns \<and> m_recipient m = agent \<and> m_available m \<le> t \<and>
     (m_status m = Queued \<or> m_status m = Leased \<and> (\<forall>e. m_lease_expires m = Some e \<longrightarrow> e \<le> t))"

lemma claimable_waits: "claimable ns agent t m \<longleftrightarrow> waits_for ns agent t m"
  by (auto simp: claimable_def lease_free_def waits_for_def split: option.splits)

lemma claim_candidate_Some:
  assumes "claim_candidate ns ag now s = Some rec"
  obtains row where "row \<in> set (messages s)" and "claimable ns ag (to_millis now) row"
    and "rec = scan_message row"
    and "\<And>m. m \<in> set (messages s) \<Longrightarrow> claimable ns ag (to_millis now) m \<Longrightarrow> claim_order row \<le> claim_order m"
proof -
  from assms obtain row where
    row: "first_min claim_order (filter (claimable ns ag (to_millis now)) (messages s)) = Some row"
    and "rec = scan_message row"
    by (auto simp: claim_candidate_def)
  moreover from first_min_in [OF row] have "row \<in> set (messages s)" "claimable ns ag (to_millis now) row"
    by auto
  ultimately show thesis using that first_min_le [OF row] by auto
qed

lemma claim_candidate_None:
  "claim_candidate ns ag now s = None \<longleftrightarrow>
     (\<forall>m \<in> set (messages s). \<not> claimable ns ag (to_millis now) m)"
  by (auto simp: claim_candidate_def filter_empty_conv)

lemma claim_attempt_Inr:
  assumes ok: "store_ok s" and att: "claim_attempt p now rid s = Inr (x, s')"
  obtains row prompt where "row \<in> set (messages s)"
    and "claimable (cl_namespace p) (cl_agent p) (to_millis now) row"
    and "\<And>m. m \<in> set (messages s) \<Longrightarrow> claimable (cl_namespace p) (cl_agent p) (to_millis now) m \<Longrightarrow>
           claim_order row \<le> claim_order m"
    and "render_run_trigger_prompt (m_payload row) = Some prompt"
    and "(cl_namespace p, rid) \<notin> r_key ` set (runs s)"
    and "x = Some (leased_message (default_string (cl_lease_owner p) (lease_owner_id s))
                     (now + default_duration (cl_lease_duration p) (5 * minute)) rid now (scan_message row),
                   new_run p rid (m_id row) prompt now)"
    and "s' = claimed_store p now rid prompt row s"
proof -
  from att obtain rec where cand: "claim_candidate (cl_namespace p) (cl_agent p) now s = Some rec"
    by (auto simp: claim_attempt_def Let_def split: option.splits)
  from claim_candidate_Some [OF cand] obtain row where row: "row \<in> set (messages s)"
    and cl: "claimable (cl_namespace p) (cl_agent p) (to_millis now) row"
    and rec: "rec = scan_message row"
    and least: "\<And>m. m \<in> set (messages s) \<Longrightarrow> claimable (cl_namespace p) (cl_agent p) (to_millis now) m \<Longrightarrow>
      claim_order row \<le> claim_order m"
    by blast
  let ?cond = "\<lambda>m. m_namespace m = cl_namespace p \<and> m_id m = m_id row \<and> lease_free (to_millis now) m"
  from cl have ns: "m_namespace row = cl_namespace p" and free: "lease_free (to_millis now) row"
    by (auto simp: claimable_def)
  have upd: "update_where ?cond f (messages s) = update_where (\<lambda>m. m_key m = m_key row) f (messages s)" for f
    using update_where_key [where P = "lease_free (to_millis now)", OF ok row free, of f] ns by simp
  from row ns free have some: "rows_affected ?cond (messages s) \<noteq> 0" by auto
  from att cand some obtain prompt s2 where
      pr: "render_run_trigger_prompt (m_payload row) = Some prompt"
    and ins: "insert_run (new_run p rid (m_id row) prompt (to_millis now))
        (s\<lparr>messages := update_where ?cond (leased_message (default_string (cl_lease_owner p) (lease_owner_id s))
            (to_millis (now + default_duration (cl_lease_duration p) (5 * minute))) rid (to_millis now))
            (messages s)\<rparr>) = Inr s2"
    and x: "x = Some (leased_message (default_string (cl_lease_owner p) (lease_owner_id s))
                     (now + default_duration (cl_lease_duration p) (5 * minute)) rid now (scan_message row),
                   new_run p rid (m_id row) prompt now)"
    and s2: "s' = s2"
    by (auto simp: claim_attempt_def Let_def rec simp del: rows_affected_0
          split: option.splits sum.splits)
  from ins have fresh: "(cl_namespace p, rid) \<notin> r_key ` set (runs s)"
    by (simp add: insert_run_Inr new_run_def r_key_def)
  from ins have "s' = claimed_store p now rid prompt row s"
    unfolding s2 by (simp add: insert_run_Inr claimed_store_def upd)
  with row cl least pr fresh x show thesis using that by blast
qed

lemma claim_attempt_progress:
  "store_ok s \<Longrightarrow> claim_attempt p now rid s \<noteq> Inr (None, s')"
  by (metis claim_attempt_Inr option.distinct(1))

text \<open>The first round decides: the loop never comes to a second one.\<close>

lemma claim_loop_first:
  "store_ok s \<Longrightarrow> claim_loop p clock ids i (Suc n) s =
     (case claim_attempt p (clock i) (ids i) s of
        Inl e \<Rightarrow> (Inl e, s)
      | Inr (x, s') \<Rightarrow> (Inr (the x), s'))"
  using claim_attempt_progress [of s p "clock i" "ids i"]
  by (auto split: sum.split prod.split option.split)

lemma claim_next_message_eq:
  assumes "store_ok s" and "cl_namespace p \<noteq> []" and "cl_agent p \<noteq> []"
  shows "claim_next_message p clock ids s =
     (case claim_attempt p (clock 0) (ids 0) s of
        Inl e \<Rightarrow> (Inl e, s)
      | Inr (x, s') \<Rightarrow> (Inr (the x), s'))"
proof -
  have "claim_loop p clock ids 0 8 s = claim_loop p clock ids 0 (Suc 7) s"
    by (simp add: eval_nat_numeral)
  with assms(2,3) show ?thesis
    unfolding claim_next_message_def claim_loop_first [OF assms(1)] by simp
qed

section \<open>The life cycle of a message\<close>

text \<open>
  What every stored message satisfies: a queued or settled message carries no lease, a leased one
  carries its expiry and points at a run opened for it, a settled one has a completion time, and
  exactly the dead letters have a reason.
\<close>

definition run_cols :: "run_row \<Rightarrow> (string \<times> string) \<times> string \<times> string" where
  "run_cols r = (r_key r, r_message r, r_agent r)"

definition message_ok :: "run_row list \<Rightarrow> message \<Rightarrow> bool" where
  "message_ok rs m \<longleftrightarrow>
     0 \<le> m_attempts m \<and> m_max_attempts m \<noteq> 0 \<and>
     (m_dead_reason m \<noteq> [] \<longleftrightarrow> m_status m = DeadLetter) \<and>
     (m_completed m \<noteq> None \<longleftrightarrow> m_status m = Completed \<or> m_status m = DeadLetter) \<and>
     (if m_status m = Leased
      then m_lease_expires m \<noteq> None \<and> m_claimed m \<noteq> None \<and> 1 \<le> m_attempts m \<and>
           ((m_namespace m, m_run m), m_id m, m_recipient m) \<in> run_cols ` set rs
      else m_lease_owner m = [] \<and> m_lease_expires m = None \<and> m_run m = [])"

definition mailbox_ok :: "store \<Rightarrow> bool" where
  "mailbox_ok s \<longleftrightarrow> store_ok s \<and> (\<forall>m \<in> set (messages s). message_ok (runs s) m)"

lemma mailbox_ok_store_ok [dest]: "mailbox_ok s \<Longrightarrow> store_ok s"
  by (simp add: mailbox_ok_def)

lemma message_ok_mono:
  "message_ok rs m \<Longrightarrow> run_cols ` set rs \<subseteq> run_cols ` set rs' \<Longrightarrow> message_ok rs' m"
  by (simp add: message_ok_def subset_iff split: if_splits)

text \<open>A leased message points at a run opened for it, which no other leased message points at.\<close>

lemma leased_runs:
  assumes ok: "store_ok s" and msg: "\<And>m. m \<in> set (messages s) \<Longrightarrow> message_ok (runs s) m"
  shows "\<forall>m \<in> set (messages s). m_status m = Leased \<longrightarrow> m_lease_expires m \<noteq> None \<and>
    (\<exists>r \<in> set (runs s). r_key r = (m_namespace m, m_run m) \<and> r_message r = m_id m \<and> r_agent r = m_recipient m) \<and>
    (\<forall>x \<in> set (messages s). m_status x = Leased \<and> m_namespace x = m_namespace m \<and> m_run x = m_run m \<longrightarrow> x = m)"
proof -
  have run: "\<exists>r \<in> set (runs s). r_key r = (m_namespace m, m_run m) \<and> r_message r = m_id m \<and> r_agent r = m_recipient m"
    if "m \<in> set (messages s)" "m_status m = Leased" for m
    using msg [OF that(1)] that(2) by (auto simp: message_ok_def run_cols_def)
  have "x = m" if m: "m \<in> set (messages s)" "m_status m = Leased"
    and x: "x \<in> set (messages s)" "m_status x = Leased" "m_namespace x = m_namespace m" "m_run x = m_run m" for m x
  proof -
    from run [OF m] run [OF x(1,2)] x(3,4) have "m_id x = m_id m"
      using run_rows.row_unique [OF ok] by metis
    with x(3) show ?thesis using message_rows.row_unique [OF ok x(1) m(1)] by (simp add: m_key_def)
  qed
  with run msg show ?thesis by (auto simp: message_ok_def)
qed

lemma message_ok_new [simp]: "message_ok rs (new_message p mid pay md av now)"
  by (simp add: message_ok_def new_message_def default_int_def)

lemma message_ok_leased:
  assumes "message_ok rs m" and "lease_free t m"
    and "((m_namespace m, rid), m_id m, m_recipient m) \<in> run_cols ` set rs'"
  shows "message_ok rs' (leased_message ow e rid now m)"
proof -
  from assms(2) have "m_status m = Queued \<or> m_status m = Leased" by (auto simp: lease_free_def)
  with assms show ?thesis by (auto simp: message_ok_def)
qed

lemma message_ok_settled:
  "message_ok rs m \<Longrightarrow> message_ok rs (settled_message p now m)"
  by (cases "co_dead_reason p = []"; cases "co_retry_at p")
     (simp_all add: message_ok_def settled_message_def completion_columns_def)

lemma run_cols_finished [simp]: "run_cols (finished_run p v now r) = run_cols r"
  by (simp add: run_cols_def)

lemma enqueue_message_tx_ok:
  assumes "mailbox_ok s" and enq: "enqueue_message_tx now gen p s = Inr (m, s')"
  shows "mailbox_ok s'"
proof -
  from enqueue_message_tx_Inr [OF enq] obtain row where
    s': "s' = s\<lparr>messages := messages s @ [row]\<rparr>" and "message_ok (runs s) row"
    and "m_key row \<notin> m_key ` set (messages s)" and "m_agent row \<in> a_key ` set (agents s)"
    by (metis message_ok_new new_message_simps(1) new_message_simps(2))
  moreover from this have "insert_message row s = Inr s'" by (simp add: insert_message_Inr)
  ultimately show ?thesis
    using assms(1) insert_message_ok by (auto simp: mailbox_ok_def)
qed

lemma enqueue_message_ok:
  "mailbox_ok s \<Longrightarrow> enqueue_message now gen p s = (r, s') \<Longrightarrow> mailbox_ok s'"
  by (auto simp: enqueue_message_def elim!: run_tx_cases intro: enqueue_message_tx_ok split: if_splits)

lemma enqueue_outbox_ok:
  "mailbox_ok s \<Longrightarrow> enqueue_outbox now ids i ps s = Inr s' \<Longrightarrow> mailbox_ok s'"
proof (induction now ids i ps s rule: enqueue_outbox.induct)
  case (2 now ids i p ps s)
  from "2.prems"(2) obtain m s1 where "enqueue_message_tx now (ids i) p s = Inr (m, s1)"
    and rest: "enqueue_outbox now ids (Suc i) ps s1 = Inr s'"
    by (auto split: sum.splits)
  with "2.IH" enqueue_message_tx_ok [OF "2.prems"(1)] show ?case by metis
qed simp

lemma update_messages_mailbox_ok:
  assumes "mailbox_ok s" and "\<And>m. m_key (f m) = m_key m" and "\<And>m. m_agent (f m) = m_agent m"
    and "\<And>m. m \<in> set (messages s) \<Longrightarrow> cond m \<Longrightarrow> message_ok (runs s) m \<Longrightarrow> message_ok (runs s) (f m)"
  shows "mailbox_ok (s\<lparr>messages := update_where cond f (messages s)\<rparr>)"
proof -
  from assms(1) have "store_ok s" and ok: "\<And>m. m \<in> set (messages s) \<Longrightarrow> message_ok (runs s) m"
    by (auto simp: mailbox_ok_def)
  from update_messages_ok [OF this(1) assms(2,3)] ok assms(4) show ?thesis
    by (auto simp: mailbox_ok_def set_update_where)
qed

lemma store_runs_messages:
  "s\<lparr>runs := rs, messages := ms\<rparr> = s\<lparr>messages := ms, runs := rs\<rparr>" for s :: store
  by (cases s) simp

lemma claimed_store_ok:
  assumes ok: "mailbox_ok s" and row: "row \<in> set (messages s)"
    and cl: "claimable (cl_namespace p) (cl_agent p) t row"
    and fresh: "(cl_namespace p, rid) \<notin> r_key ` set (runs s)"
  shows "mailbox_ok (claimed_store p now rid prompt row s)"
proof -
  let ?run = "new_run p rid (m_id row) prompt (to_millis now)"
  let ?s1 = "s\<lparr>runs := runs s @ [?run]\<rparr>"
  from ok have sok: "store_ok s" by blast
  with row have "m_agent row \<in> a_key ` set (agents s)" by (auto simp: store_ok_def)
  moreover from cl have "m_agent row = r_agent_key ?run" "m_key row = r_message_key ?run"
    by (auto simp: claimable_def key_defs new_run_def)
  moreover have "r_key ?run = (cl_namespace p, rid)" by (simp add: new_run_def r_key_def)
  ultimately have "insert_run ?run s = Inr ?s1"
    using row fresh by (auto simp: insert_run_Inr intro!: image_eqI [of _ m_key])
  with sok have "store_ok ?s1" by (rule insert_run_ok [rotated])
  moreover have "message_ok (runs ?s1) m" if "m \<in> set (messages s)" for m
    using that ok message_ok_mono [of "runs s" m "runs ?s1"] by (auto simp: mailbox_ok_def)
  ultimately have ok1: "mailbox_ok ?s1" by (simp add: mailbox_ok_def)
  have "mailbox_ok (?s1\<lparr>messages := update_where (\<lambda>m. m_key m = m_key row)
      (leased_message (default_string (cl_lease_owner p) (lease_owner_id s))
         (to_millis (now + default_duration (cl_lease_duration p) (5 * minute))) rid (to_millis now))
      (messages ?s1)\<rparr>)"
  proof (rule update_messages_mailbox_ok [OF ok1])
    fix m assume m: "m \<in> set (messages ?s1)" "m_key m = m_key row" "message_ok (runs ?s1) m"
    from m(1,2) row have "m = row" using message_rows.row_unique [OF sok] by simp
    with cl m(3) show "message_ok (runs ?s1) (leased_message
        (default_string (cl_lease_owner p) (lease_owner_id s))
        (to_millis (now + default_duration (cl_lease_duration p) (5 * minute))) rid (to_millis now) m)"
      by (auto simp: claimable_def run_cols_def new_run_def r_key_def intro!: message_ok_leased)
  qed simp_all
  then show ?thesis by (simp add: claimed_store_def store_runs_messages)
qed

lemma claim_next_message_cases:
  assumes ok: "store_ok s" and cl: "claim_next_message p clock ids s = (r, s')"
  obtains (err) e where "r = Inl e" "s' = s"
    | (claimed) row prompt where "cl_namespace p \<noteq> []" "cl_agent p \<noteq> []" "row \<in> set (messages s)"
      "claimable (cl_namespace p) (cl_agent p) (to_millis (clock 0)) row"
      "\<And>m. m \<in> set (messages s) \<Longrightarrow>
         claimable (cl_namespace p) (cl_agent p) (to_millis (clock 0)) m \<Longrightarrow> claim_order row \<le> claim_order m"
      "render_run_trigger_prompt (m_payload row) = Some prompt"
      "(cl_namespace p, ids 0) \<notin> r_key ` set (runs s)"
      "r = Inr (leased_message (default_string (cl_lease_owner p) (lease_owner_id s))
                  (clock 0 + default_duration (cl_lease_duration p) (5 * minute)) (ids 0) (clock 0)
                  (scan_message row),
                new_run p (ids 0) (m_id row) prompt (clock 0))"
      "s' = claimed_store p (clock 0) (ids 0) prompt row s"
proof (cases "cl_namespace p = [] \<or> cl_agent p = []")
  case True
  with cl err show thesis by (auto simp: claim_next_message_def)
next
  case False
  then have ne: "cl_namespace p \<noteq> []" "cl_agent p \<noteq> []" by auto
  show thesis
  proof (cases "claim_attempt p (clock 0) (ids 0) s")
    case (Inl e)
    with cl claim_next_message_eq [OF ok ne, of clock ids] have "r = Inl e" and "s' = s" by simp_all
    then show thesis by (rule err)
  next
    case (Inr y)
    then obtain x where att: "claim_attempt p (clock 0) (ids 0) s = Inr (x, s')" and r: "r = Inr (the x)"
      using cl claim_next_message_eq [OF ok ne, of clock ids] by (cases y) auto
    from claim_attempt_Inr [OF ok att] obtain row prompt where
      c: "row \<in> set (messages s)" "claimable (cl_namespace p) (cl_agent p) (to_millis (clock 0)) row"
      "render_run_trigger_prompt (m_payload row) = Some prompt"
      "(cl_namespace p, ids 0) \<notin> r_key ` set (runs s)"
      "s' = claimed_store p (clock 0) (ids 0) prompt row s"
      and least: "\<And>m. m \<in> set (messages s) \<Longrightarrow>
         claimable (cl_namespace p) (cl_agent p) (to_millis (clock 0)) m \<Longrightarrow> claim_order row \<le> claim_order m"
      and x: "x = Some (leased_message (default_string (cl_lease_owner p) (lease_owner_id s))
                  (clock 0 + default_duration (cl_lease_duration p) (5 * minute)) (ids 0) (clock 0)
                  (scan_message row),
                new_run p (ids 0) (m_id row) prompt (clock 0))"
      by blast
    from claimed [OF ne c(1,2) least c(3,4) _ c(5)] r x show thesis by simp
  qed
qed

lemma claim_next_message_ok:
  assumes "mailbox_ok s" and cl: "claim_next_message p clock ids s = (r, s')"
  shows "mailbox_ok s'"
  using claim_next_message_cases [OF mailbox_ok_store_ok [OF assms(1)] cl] assms(1)
  by cases (auto intro: claimed_store_ok)

lemma record_step_ok: "mailbox_ok s \<Longrightarrow> record_step t s = (r, s') \<Longrightarrow> mailbox_ok s'"
proof -
  assume ok: "mailbox_ok s" and rec: "record_step t s = (r, s')"
  have "mailbox_ok s2" if "insert_step row s = Inr s2" for row s2
  proof -
    from that ok have "store_ok s2" by (auto intro: insert_step_ok)
    with that ok show ?thesis by (simp add: insert_step_Inr mailbox_ok_def)
  qed
  with ok rec show ?thesis by (auto simp: record_step_def split: if_splits sum.splits)
qed

section \<open>Completion\<close>

text \<open>The state after the two updates of a completion, before the outbox is enqueued.\<close>

definition settled_store :: "go_time \<Rightarrow> complete_params \<Rightarrow> env_text \<Rightarrow> store \<Rightarrow> store" where
  "settled_store now p value s =
     s\<lparr>runs := update_where (\<lambda>r. r_namespace r = co_namespace p \<and> r_id r = co_run p)
                 (finished_run p value now) (runs s),
       messages := update_where (\<lambda>m. m_namespace m = co_namespace p \<and> m_id m = co_message p)
                 (settled_message p now) (messages s)\<rparr>"

lemma rows_affected_key:
  "rows_affected (\<lambda>r. r_namespace r = ns \<and> r_id r = i) rs = 0 \<longleftrightarrow> (ns, i) \<notin> r_key ` set rs"
  "rows_affected (\<lambda>m. m_namespace m = ns \<and> m_id m = i) ms = 0 \<longleftrightarrow> (ns, i) \<notin> m_key ` set ms"
  by (auto simp: r_key_def m_key_def)

lemma complete_run_tx_Inr:
  "complete_run_tx now ids p v s = Inr (u, s') \<longleftrightarrow>
     (co_namespace p, co_run p) \<in> r_key ` set (runs s) \<and>
     (co_namespace p, co_message p) \<in> m_key ` set (messages s) \<and>
     enqueue_outbox now ids 0 (co_outbox p) (settled_store now p v s) = Inr s'"
  by (simp add: complete_run_tx_def Let_def settled_store_def rows_affected_key del: rows_affected_0
        split: sum.splits)

lemma settled_store_ok:
  assumes "mailbox_ok s"
  shows "mailbox_ok (settled_store now p value s)"
proof -
  let ?s1 = "s\<lparr>runs := update_where (\<lambda>r. r_namespace r = co_namespace p \<and> r_id r = co_run p)
                 (finished_run p value now) (runs s)\<rparr>"
  from assms have "store_ok ?s1" by (auto intro: update_runs_ok)
  with assms have "mailbox_ok ?s1"
    using message_ok_mono [of "runs s" _ "runs ?s1"] by (simp add: mailbox_ok_def)
  then have "mailbox_ok (?s1\<lparr>messages := update_where
      (\<lambda>m. m_namespace m = co_namespace p \<and> m_id m = co_message p) (settled_message p now) (messages ?s1)\<rparr>)"
    by (rule update_messages_mailbox_ok) (auto intro: message_ok_settled)
  then show ?thesis by (simp add: settled_store_def)
qed

lemma complete_run_cases:
  assumes "complete_run now ids p s = (r, s')"
  obtains (err) e where "r = Inl e" "s' = s"
    | (settled) body where "r = Inr ()" "co_namespace p \<noteq> []" "co_run p \<noteq> []" "co_message p \<noteq> []"
      "marshal_optional_envelope ''run_value'' (co_value p) = Some body"
      "(co_namespace p, co_run p) \<in> r_key ` set (runs s)"
      "(co_namespace p, co_message p) \<in> m_key ` set (messages s)"
      "enqueue_outbox now ids 0 (co_outbox p) (settled_store now p body s) = Inr s'"
  using assms
proof (cases "co_namespace p = [] \<or> co_run p = [] \<or> co_message p = []")
  case False
  with assms err show thesis
  proof (cases "marshal_optional_envelope ''run_value'' (co_value p)")
    case (Some body)
    with False assms have "run_tx (complete_run_tx now ids p body) s = (r, s')"
      by (simp add: complete_run_def)
    then show thesis
      by (rule run_tx_cases) (use err settled [of body] False Some in \<open>auto simp: complete_run_tx_Inr\<close>)
  qed (auto simp: complete_run_def)
qed (use assms err in \<open>auto simp: complete_run_def\<close>)

lemma complete_run_ok:
  assumes "mailbox_ok s" and "complete_run now ids p s = (r, s')"
  shows "mailbox_ok s'"
  using assms(2,1)
  by (cases rule: complete_run_cases) (auto intro: enqueue_outbox_ok settled_store_ok)

lemma enqueue_outbox_rows:
  "enqueue_outbox now ids i ps s = Inr s' \<Longrightarrow>
     \<exists>new. messages s' = messages s @ new \<and> list_all2 (enqueued_as now) ps new \<and> runs s' = runs s \<and> agents s' = agents s"
proof (induction now ids i ps s rule: enqueue_outbox.induct)
  case (2 now ids i p ps s)
  from "2.prems" obtain m s1 where enq: "enqueue_message_tx now (ids i) p s = Inr (m, s1)"
    and rest: "enqueue_outbox now ids (Suc i) ps s1 = Inr s'"
    by (auto split: sum.splits)
  from enqueue_message_tx_row [OF enq] obtain row where
    s1: "s1 = s\<lparr>messages := messages s @ [row]\<rparr>" and "enqueued_as now p row" by metis
  moreover from "2.IH" [OF enq refl rest] obtain new where "messages s' = messages s1 @ new"
    "list_all2 (enqueued_as now) ps new" "runs s' = runs s1" "agents s' = agents s1"
    by blast
  ultimately show ?case by (intro exI [of _ "row # new"]) simp
qed auto

lemma enqueue_outbox_messages:
  assumes "enqueue_outbox now ids i ps s = Inr s'"
  shows "\<exists>new. messages s' = messages s @ new \<and> length new = length ps \<and>
       (\<forall>m \<in> set new. m_status m = Queued) \<and> runs s' = runs s \<and> agents s' = agents s"
proof -
  from enqueue_outbox_rows [OF assms] obtain new where new: "messages s' = messages s @ new"
    "list_all2 (enqueued_as now) ps new" "runs s' = runs s" "agents s' = agents s" by blast
  from list_all2_lengthD [OF new(2)] list_all2_nthD2 [OF new(2)] have "length new = length ps" "\<forall>m \<in> set new. m_status m = Queued"
    by (auto simp: enqueued_as_def in_set_conv_nth)
  with new show ?thesis by blast
qed

section \<open>Frames\<close>

text \<open>Which rows of the message table an operation leaves as they are.\<close>

lemma enqueue_message_frame:
  "enqueue_message now gen p s = (r, s') \<Longrightarrow> set (messages s) \<subseteq> set (messages s') \<and> runs s' = runs s"
  by (auto simp: enqueue_message_def elim!: run_tx_cases enqueue_message_tx_Inr split: if_splits)

lemma record_step_frame: "record_step t s = (r, s') \<Longrightarrow> messages s' = messages s \<and> runs s' = runs s"
  by (auto simp: record_step_def insert_step_Inr split: if_splits sum.splits)

lemma claim_next_message_frame:
  assumes "store_ok s" and "claim_next_message p clock ids s = (r, s')"
    and "m \<in> set (messages s)" and "\<not> lease_free (to_millis (clock 0)) m"
  shows "m \<in> set (messages s')"
  using assms(1,2)
proof (cases rule: claim_next_message_cases)
  case err
  with assms(3) show ?thesis by simp
next
  case (claimed row prompt)
  then have "m_key m \<noteq> m_key row"
    using message_rows.row_unique [OF assms(1,3)] assms(4) by (auto simp: claimable_def)
  with assms(3) claimed show ?thesis
    by (auto simp: claimed_store_def set_update_where image_iff intro: bexI [of _ m])
qed

lemma complete_run_frame:
  assumes "complete_run now ids p s = (r, s')" and "m \<in> set (messages s)"
    and "m_key m \<noteq> (co_namespace p, co_message p)"
  shows "m \<in> set (messages s')"
  using assms(1)
proof (cases rule: complete_run_cases)
  case err
  with assms(2) show ?thesis by simp
next
  case (settled body)
  have "m \<in> set (messages (settled_store now p body s))"
    using assms(2,3) by (auto simp: settled_store_def set_update_where m_key_def image_iff intro: bexI [of _ m])
  with enqueue_outbox_messages [OF settled(8)] show ?thesis by auto
qed

text \<open>
  A claim leaves its message leased, under the caller's owner and run, until the expiry it wrote; no
  claim before that expiry can take it.
\<close>

lemma claim_takes_lease:
  assumes "store_ok s" and "claim_next_message p clock ids s = (Inr (m, r), s')"
  obtains row where "row \<in> set (messages s')" and "m_key row = m_key m"
    and "m_status row = Leased" and "m_run row = r_id r" and "m_run m = r_id r"
    and "m_lease_expires row =
           Some (to_millis (clock 0 + default_duration (cl_lease_duration p) (5 * minute)))"
    and "m_attempts row = m_attempts m"
  using assms
proof (cases rule: claim_next_message_cases)
  case (claimed row prompt)
  let ?l = "leased_message (default_string (cl_lease_owner p) (lease_owner_id s))
     (to_millis (clock 0 + default_duration (cl_lease_duration p) (5 * minute))) (ids 0)
     (to_millis (clock 0)) row"
  from claimed have "?l \<in> set (messages s')"
    by (auto simp: claimed_store_def set_update_where image_iff intro: bexI [of _ row])
  with claimed show thesis by (intro that [of ?l]) (auto simp: new_run_def m_key_def)
qed simp

lemma leased_not_free:
  "m_status m = Leased \<Longrightarrow> m_lease_expires m = Some e \<Longrightarrow> t < e \<Longrightarrow> \<not> lease_free t m"
  by (simp add: lease_free_def)

text \<open>A successful claim, row by row.\<close>

lemma claim_success:
  assumes ok: "store_ok s" and cl: "claim_next_message p clock ids s = (Inr (m, r), s')"
  obtains row lease run where "row \<in> set (messages s)" and "m_key row = m_key m"
    and "claimable (cl_namespace p) (cl_agent p) (to_millis (clock 0)) row"
    and "\<And>x. x \<in> set (messages s) \<Longrightarrow> claimable (cl_namespace p) (cl_agent p) (to_millis (clock 0)) x \<Longrightarrow>
           claim_order row \<le> claim_order x"
    and "m_attempts m = m_attempts row + 1"
    and "m_key lease = m_key m" and "m_status lease = Leased" and "m_run lease = r_id r"
    and "m_lease_owner lease = default_string (cl_lease_owner p) (lease_owner_id s)"
    and "m_attempts lease = m_attempts row + 1" and "m_max_attempts lease = m_max_attempts row"
    and "m_lease_expires lease = Some (to_millis (clock 0 + default_duration (cl_lease_duration p) (5 * minute)))"
    and "messages s' = update_where (\<lambda>x. m_key x = m_key m) (\<lambda>_. lease) (messages s)"
    and "runs s' = runs s @ [run]" and "r_key run = r_key r" and "r_message run = m_id m"
    and "r_status run = ''running''" and "r_key r \<notin> r_key ` set (runs s)"
proof (cases rule: claim_next_message_cases [OF ok cl, case_names err claimed])
  case (claimed row prompt)
  let ?lease = "leased_message (default_string (cl_lease_owner p) (lease_owner_id s))
    (to_millis (clock 0 + default_duration (cl_lease_duration p) (5 * minute))) (ids 0) (to_millis (clock 0)) row"
  let ?run = "new_run p (ids 0) (m_id row) prompt (to_millis (clock 0))"
  from claimed(8) have m: "m_key row = m_key m" "m_id m = m_id row" "m_attempts m = m_attempts row + 1" "r_id r = ids 0"
    "r_key r = (cl_namespace p, ids 0)" by (auto simp: m_key_def new_run_def r_key_def)
  have "messages s' = update_where (\<lambda>x. m_key x = m_key m) (\<lambda>_. ?lease) (messages s)"
    unfolding claimed(9) claimed_store_def update_where_def m(1)
    by simp (metis message_rows.row_unique [OF ok _ claimed(3)] m(1))
  then show ?thesis
    using claimed(3-5,7) m claimed(9)
    by (intro that [of row ?lease ?run]) (auto simp: claimed_store_def new_run_def r_key_def)
qed (use cl in simp)

lemma update_where_const:
  "x \<in> set xs \<Longrightarrow> P x \<Longrightarrow> y \<in> set (update_where P (\<lambda>_. y) xs)"
  "x \<in> set xs \<Longrightarrow> \<not> P x \<Longrightarrow> x \<in> set (update_where P f xs)"
  by (auto simp: update_where_def image_iff)

text \<open>Every recipient of an outbox that is enqueued is an agent.\<close>

lemma enqueue_outbox_recipients:
  "enqueue_outbox now ids i ps s = Inr s' \<Longrightarrow> q \<in> set ps \<Longrightarrow>
     (cp_namespace q, cp_recipient q) \<in> a_key ` set (agents s)"
proof (induction ps arbitrary: i s)
  case (Cons x ps)
  from Cons.prems(1) obtain m s1 where e: "enqueue_message_tx now (ids i) x s = Inr (m, s1)"
    "enqueue_outbox now ids (Suc i) ps s1 = Inr s'" by (auto split: sum.splits)
  then have "agents s1 = agents s" "(cp_namespace x, cp_recipient x) \<in> a_key ` set (agents s)"
    by (auto elim!: enqueue_message_tx_Inr)
  with Cons.IH [OF e(2)] Cons.prems(2) show ?case by auto
qed simp

text \<open>A claim succeeds when a message is claimable and every claimable payload renders.\<close>

lemma claim_progress_row:
  assumes ok: "store_ok s" and ne: "cl_namespace p \<noteq> []" "cl_agent p \<noteq> []"
    and some: "x \<in> set (messages s)" "claimable (cl_namespace p) (cl_agent p) (to_millis (clock 0)) x"
    and render: "\<And>m. m \<in> set (messages s) \<Longrightarrow> claimable (cl_namespace p) (cl_agent p) (to_millis (clock 0)) m \<Longrightarrow>
      render_run_trigger_prompt (m_payload m) \<noteq> None"
    and fresh: "(cl_namespace p, ids 0) \<notin> r_key ` set (runs s)"
  shows "\<exists>m r s'. claim_next_message p clock ids s = (Inr (m, r), s')"
proof -
  from some have "claim_candidate (cl_namespace p) (cl_agent p) (clock 0) s \<noteq> None"
    by (auto simp: claim_candidate_None)
  then obtain rec where rec: "claim_candidate (cl_namespace p) (cl_agent p) (clock 0) s = Some rec" by auto
  from rec obtain row where row: "row \<in> set (messages s)"
    "claimable (cl_namespace p) (cl_agent p) (to_millis (clock 0)) row" "rec = scan_message row"
    by (rule claim_candidate_Some)
  from render [OF row(1,2)] obtain prompt where prompt: "render_run_trigger_prompt (m_payload row) = Some prompt"
    by auto
  have key: "(cl_namespace p, m_id row) = m_key row" "(cl_namespace p, cl_agent p) = m_agent row"
    using row(2) by (auto simp: claimable_def m_key_def m_agent_def)
  have agent: "m_agent row \<in> a_key ` set (agents s)" using ok row(1) by (auto simp: store_ok_def)
  have "claim_attempt p (clock 0) (ids 0) s \<noteq> Inl e" for e
    using rec prompt row(1,3) fresh key agent
    by (auto simp: claim_attempt_def Let_def insert_run_def insert_row_def new_run_def r_message_key_def
        r_agent_key_def r_key_def split: if_splits)
  then obtain x s' where att: "claim_attempt p (clock 0) (ids 0) s = Inr (x, s')"
    by (metis sum.exhaust surj_pair)
  with claim_attempt_progress [OF ok, of p "clock 0" "ids 0" s'] have "x \<noteq> None" by (cases x) auto
  with att show ?thesis by (auto simp: claim_next_message_eq [OF ok ne])
qed

end
