(* ===== verification/ScheduleLaws.thy ===== *)
theory ScheduleLaws
  imports Schedules MailboxLaws
begin

text \<open>
  Lemmas on schedules: when the search for the next fire time ends, what firing does to the tables,
  and that a schedule fires once for each due time.
\<close>

section \<open>The search for the next fire time\<close>

text \<open>
  What \<open>cron\<close> documents of \<open>Next\<close> where the expression has a next activation, here at every time from
  \<open>a\<close> to \<open>b\<close>: it is later than the given time and a whole second.
\<close>

definition cron_lives :: "(go_time \<Rightarrow> go_time) \<Rightarrow> go_time \<Rightarrow> go_time \<Rightarrow> bool" where
  "cron_lives next a b \<longleftrightarrow> (\<forall>t. a \<le> t \<and> t \<le> b \<longrightarrow> t < next t \<and> next t mod second = 0)"

lemma cron_livesD:
  "cron_lives next a b \<Longrightarrow> a \<le> t \<Longrightarrow> t \<le> b \<Longrightarrow> t < next t"
  "cron_lives next a b \<Longrightarrow> a \<le> t \<Longrightarrow> t \<le> b \<Longrightarrow> next t mod second = 0"
  by (simp_all add: cron_lives_def)

text \<open>
  A schedule as it was read is live when its expression, in its zone, has a next activation at every time
  from the one it is due at until the present. An expression without any, like the thirtieth of February, has
  the zero time as its \<open>Next\<close> and is not live.
\<close>

definition cron_live :: "cron_lib \<Rightarrow> go_time \<Rightarrow> schedule \<Rightarrow> bool" where
  "cron_live lib now c \<longleftrightarrow>
     (\<forall>due zone nxt. s_next c = Some due \<and> load_schedule_location lib (s_zone c) = Some zone \<and>
        cron_parse lib (s_cron c) = Some nxt \<longrightarrow> cron_lives (nxt zone) due (max due now))"

lemma cron_liveD:
  "cron_live lib now c \<Longrightarrow> s_next c = Some due \<Longrightarrow> load_schedule_location lib (s_zone c) = Some zone \<Longrightarrow>
     cron_parse lib (s_cron c) = Some nxt \<Longrightarrow> cron_lives (nxt zone) due (max due now)"
  by (simp add: cron_live_def)

lemma advance_now: "now < t \<Longrightarrow> advance next now t = Some t"
  by (simp add: advance.simps)

lemma advance_step: "t \<le> now \<Longrightarrow> advance next now t = advance next now (next t)"
  by (subst advance.simps) simp

lemma advance_returns:
  assumes "cron_lives next a b" and "now \<le> b"
  shows "a \<le> t \<Longrightarrow> \<exists>r. advance next now t = Some r"
proof (induction "nat (now + 1 - t)" arbitrary: t rule: less_induct)
  case less
  show ?case
  proof (cases "now < t")
    case True
    then show ?thesis by (auto simp: advance_now)
  next
    case False
    with cron_livesD(1) [OF assms(1) less.prems] assms(2) have "t < next t" by simp
    with False less.prems have "nat (now + 1 - next t) < nat (now + 1 - t)" "a \<le> next t" by linarith+
    from less.hyps [OF this] False show ?thesis by (simp add: advance_step)
  qed
qed

lemma advance_later:
  assumes "advance next now t = Some r"
  shows "now < r"
proof (rule advance.raw_induct [where P = "\<lambda>next now t r. now < r", OF _ assms])
  fix f and nx :: "go_time \<Rightarrow> go_time" and now t r :: go_time
  assume IH: "\<And>nx now t r. f nx now t = Some r \<Longrightarrow> now < r"
    and eq: "(if now < t then Some t else f nx now (nx t)) = Some r"
  show "now < r"
  proof (cases "now < t")
    case False
    with eq show ?thesis by (auto dest: IH)
  qed (use eq in simp)
qed

lemma advance_from:
  assumes "advance next now t = Some r" and "cron_lives next a b" and "now \<le> b" and "a \<le> t"
  shows "t \<le> r \<and> (t mod second = 0 \<longrightarrow> r mod second = 0)"
proof (rule advance.raw_induct
    [where P = "\<lambda>next now t r. cron_lives next a b \<and> now \<le> b \<and> a \<le> t \<longrightarrow> t \<le> r \<and> (t mod second = 0 \<longrightarrow> r mod second = 0)",
      OF _ assms(1), THEN mp])
  fix f and nx :: "go_time \<Rightarrow> go_time" and now t r :: go_time
  assume IH: "\<And>nx now t r. f nx now t = Some r \<Longrightarrow>
      cron_lives nx a b \<and> now \<le> b \<and> a \<le> t \<longrightarrow> t \<le> r \<and> (t mod second = 0 \<longrightarrow> r mod second = 0)"
    and eq: "(if now < t then Some t else f nx now (nx t)) = Some r"
  show "cron_lives nx a b \<and> now \<le> b \<and> a \<le> t \<longrightarrow> t \<le> r \<and> (t mod second = 0 \<longrightarrow> r mod second = 0)"
  proof (cases "now < t")
    case False
    with eq have "f nx now (nx t) = Some r" by simp
    from IH [OF this] cron_livesD [of nx a b t] False show ?thesis by auto
  qed (use eq in simp)
qed (use assms(2-4) in simp)

text \<open>A \<open>Next\<close> that never gets past the present time keeps the loop running.\<close>

lemma advance_diverges:
  assumes stuck: "\<And>u. u \<le> now \<Longrightarrow> next u \<le> now" and "t \<le> now"
  shows "advance next now t = None"
proof (rule ccontr)
  assume "advance next now t \<noteq> None"
  then obtain r where "advance next now t = Some r" by auto
  then have "(\<forall>u \<le> now. next u \<le> now) \<longrightarrow> now < t"
  proof (rule advance.raw_induct [where P = "\<lambda>next now t r. (\<forall>u \<le> now. next u \<le> now) \<longrightarrow> now < t", rotated])
    fix f and nx :: "go_time \<Rightarrow> go_time" and now t r :: go_time
    assume IH: "\<And>nx now t r. f nx now t = Some r \<Longrightarrow> (\<forall>u \<le> now. nx u \<le> now) \<longrightarrow> now < t"
      and eq: "(if now < t then Some t else f nx now (nx t)) = Some r"
    show "(\<forall>u \<le> now. nx u \<le> now) \<longrightarrow> now < t"
    proof (rule impI, rule ccontr)
      assume st: "\<forall>u \<le> now. nx u \<le> now" and "\<not> now < t"
      with eq have "f nx now (nx t) = Some r" by simp
      from IH [OF this] st have "now < nx t" by blast
      with st [rule_format, of t] \<open>\<not> now < t\<close> show False by simp
    qed
  qed
  with stuck \<open>t \<le> now\<close> show False by auto
qed

section \<open>Firing\<close>

lemma fired_schedule_simps [simp]:
  "s_key (fired_schedule due nf now c) = s_key c" "s_owner (fired_schedule due nf now c) = s_owner c"
  "s_enabled (fired_schedule due nf now c) = s_enabled c"
  "s_next (fired_schedule due nf now c) = Some (to_millis nf)"
  "s_last (fired_schedule due nf now c) = Some (to_millis due)"
  by (simp_all add: fired_schedule_def key_defs)

lemma scan_schedule_simps [simp]:
  "s_namespace (scan_schedule c) = s_namespace c" "s_id (scan_schedule c) = s_id c"
  "s_agent (scan_schedule c) = s_agent c" "s_cron (scan_schedule c) = s_cron c"
  "s_zone (scan_schedule c) = s_zone c" "s_payload (scan_schedule c) = s_payload c"
  "s_next (scan_schedule c) = null_millis_to_time (s_next c)" "s_key (scan_schedule c) = s_key c"
  by (simp_all add: scan_schedule_def s_key_def)

text \<open>The rows a firing of \<open>c\<close>, due at \<open>due\<close>, may change.\<close>

definition fire_cond :: "schedule \<Rightarrow> go_time \<Rightarrow> schedule \<Rightarrow> bool" where
  "fire_cond c due r \<longleftrightarrow>
     s_namespace r = s_namespace c \<and> s_id r = s_id c \<and> s_enabled r \<and> s_next r = Some (to_millis due)"

lemma fire_schedule_cases:
  assumes "fire_schedule lib now tid mid c s = Some (r, s')"
  obtains (failed) e where "r = Inl e" "s' = s"
    | (idle) "r = Inr None" "s' = s"
        "\<And>due x. s_next c = Some due \<Longrightarrow> x \<in> set (schedules s) \<Longrightarrow> \<not> fire_cond c due x"
    | (fired) due zone nxt nf payload m where "r = Inr (Some m)" "s_next c = Some due"
      "load_schedule_location lib (s_zone c) = Some zone" "cron_parse lib (s_cron c) = Some nxt"
      "advance (nxt zone) now (nxt zone due) = Some nf"
      "decode_envelope_any (s_payload c) = Some payload"
      "\<exists>x \<in> set (schedules s). fire_cond c due x"
      "enqueue_message_tx now mid (fire_message_params c due tid payload now)
         (s\<lparr>schedules := update_where (fire_cond c due) (fired_schedule due nf now) (schedules s)\<rparr>)
         = Inr (m, s')"
proof (cases "s_next c")
  case None
  with assms idle show thesis by (simp add: fire_schedule_def)
next
  case (Some due)
  consider (bad) e where "r = Inl e" "s' = s"
    | (good) zone nxt nf payload where "load_schedule_location lib (s_zone c) = Some zone"
        "cron_parse lib (s_cron c) = Some nxt" "advance (nxt zone) now (nxt zone due) = Some nf"
        "decode_envelope_any (s_payload c) = Some payload"
        "run_tx (fire_schedule_tx now tid mid c due nf payload) s = (r, s')"
    using assms Some by (auto simp: fire_schedule_def split: option.splits)
  then show thesis
  proof cases
    case bad
    then show thesis by (rule failed)
  next
    case good
    note fc = fire_cond_def [of c due, abs_def, symmetric]
    from good(5) show thesis
    proof (cases rule: run_tx_cases)
      case (err e)
      then show thesis using failed by blast
    next
      case (ok x)
      show thesis
      proof (cases "\<exists>y \<in> set (schedules s). fire_cond c due y")
        case True
        then have "rows_affected (fire_cond c due) (schedules s) \<noteq> 0" by auto
        with ok(2) obtain m where "x = Some m"
          "enqueue_message_tx now mid (fire_message_params c due tid payload now)
            (s\<lparr>schedules := update_where (fire_cond c due) (fired_schedule due nf now) (schedules s)\<rparr>)
            = Inr (m, s')"
          by (auto simp: fire_schedule_tx_def Let_def fc simp del: rows_affected_0
                split: if_splits sum.splits)
        with fired good(1-4) Some ok(1) True show thesis by blast
      next
        case False
        then have "rows_affected (fire_cond c due) (schedules s) = 0" by auto
        with ok have "r = Inr None" "s' = s"
          by (auto simp: fire_schedule_tx_def Let_def fc simp del: rows_affected_0)
        then show thesis using idle False Some by auto
      qed
    qed
  qed
qed

lemma second_millis: "t mod second = 0 \<Longrightarrow> u < t \<Longrightarrow> to_millis u < to_millis t"
proof -
  assume "t mod second = 0" and "u < t"
  then obtain k where t: "t = 1000000000 * k" by (auto simp: second_def elim!: dvdE [OF mod_0_imp_dvd])
  with \<open>u < t\<close> have "u div 1000000 < 1000 * k" by simp
  with t show ?thesis by (simp add: to_millis_def millisecond_def)
qed

lemma advance_whole_second:
  assumes "cron_lives nx due (max due now)" and "advance nx now (nx due) = Some nf"
  shows "now < nf" "due < nf" "nf mod second = 0" "to_millis now < to_millis nf"
proof -
  have d: "due < nx due" "nx due mod second = 0" using cron_livesD [OF assms(1), of due] by simp_all
  note f = advance_from [OF assms(2,1)]
  show "now < nf" by (rule advance_later [OF assms(2)])
  show "due < nf" "nf mod second = 0" using f d by auto
  from this(2) \<open>now < nf\<close> show "to_millis now < to_millis nf" by (rule second_millis)
qed

lemma fire_schedule_returns:
  assumes "cron_live lib now c"
  shows "\<exists>r s'. fire_schedule lib now tid mid c s = Some (r, s')"
proof -
  have "\<exists>nf. advance (nxt zone) now (nxt zone due) = Some nf"
    if "s_next c = Some due" "load_schedule_location lib (s_zone c) = Some zone" "cron_parse lib (s_cron c) = Some nxt"
    for due zone nxt
    using advance_returns [OF cron_liveD [OF assms that], of now "nxt zone due"]
      cron_livesD(1) [OF cron_liveD [OF assms that], of due] by simp
  then show ?thesis
    by (cases "s_next c"; cases "load_schedule_location lib (s_zone c)"; cases "cron_parse lib (s_cron c)";
        cases "decode_envelope_any (s_payload c)")
      (auto simp: fire_schedule_def split: option.split)
qed

text \<open>The message a firing of the row \<open>r\<close> enqueues.\<close>

definition fired_as :: "go_time \<Rightarrow> schedule \<Rightarrow> message \<Rightarrow> bool" where
  "fired_as now r m \<longleftrightarrow>
     m_namespace m = s_namespace r \<and> m_recipient m = s_agent r \<and> m_kind m = ''schedule.fire'' \<and>
     m_status m = Queued \<and> m_attempts m = 0 \<and> m_available m = to_millis now \<and>
     (\<exists>v. decode_envelope_any (s_payload r) = Some v \<and> marshal_envelope ''mailbox_payload'' v = Some (m_payload m)) \<and>
     (\<exists>d. s_next r = Some d \<and> marshal_optional_envelope ''mailbox_metadata''
        (GMap [(''schedule_id'', GStr (s_id r)), (''fired_at'', GStr (rfc3339_nano (from_millis d)))]) = Some (m_metadata m))"

lemma fire_kind_visible: "\<not> blank ''schedule.fire''"
  by code_simp

lemma fired_enqueued:
  assumes "enqueued_as now (fire_message_params (scan_schedule r) (from_millis d) tid v now) m"
    and "decode_envelope_any (s_payload r) = Some v" and "s_next r = Some d"
  shows "fired_as now r m"
  using assms fire_kind_visible
  by (auto simp: enqueued_as_def fired_as_def fire_message_params_def default_string_def)

text \<open>
  A row is due. \<open>due_schedules\<close> lists the due rows, and firing one leaves the others due and this one
  not.
\<close>

definition is_due :: "go_time \<Rightarrow> schedule \<Rightarrow> bool" where
  "is_due now r \<longleftrightarrow> s_enabled r \<and> (case s_next r of None \<Rightarrow> False | Some t \<Rightarrow> t \<le> to_millis now)"

lemma fire_due_row:
  assumes ok: "mailbox_ok s" and live: "cron_live lib now (scan_schedule r)" and r: "r \<in> set (schedules s)" "is_due now r"
    and fire: "fire_schedule lib now tid mid (scan_schedule r) s = Some (Inr x, s')"
  obtains m nf d where "x = Some m" and "s_next r = Some d" and "to_millis now < to_millis nf"
    and "schedules s' = update_where (\<lambda>c. s_key c = s_key r) (fired_schedule (from_millis d) nf now) (schedules s)"
    and "mailbox_ok s'" and "\<exists>row. messages s' = messages s @ [row] \<and> fired_as now r row \<and> m_key row = m_key m"
proof -
  from r(2) obtain d where d: "s_next r = Some d" "s_enabled r" by (auto simp: is_due_def split: option.splits)
  have cond: "fire_cond (scan_schedule r) (from_millis d) c \<longleftrightarrow> s_key c = s_key r" if "c \<in> set (schedules s)" for c
    using schedule_rows.row_unique [OF mailbox_ok_store_ok [OF ok] that r(1)] d
    by (auto simp: fire_cond_def s_key_def)
  from fire show thesis
  proof (cases rule: fire_schedule_cases)
    case (idle)
    from idle(3) [of "from_millis d" r] d r cond [OF r(1)] show thesis
      by (simp add: null_millis_to_time_def)
  next
    case (fired due zone nxt nf payload m)
    from fired(2) d have due: "due = from_millis d" by (simp add: null_millis_to_time_def)
    have upd: "update_where (fire_cond (scan_schedule r) due) f (schedules s) =
        update_where (\<lambda>c. s_key c = s_key r) f (schedules s)" for f
      using cond by (simp add: update_where_def due)
    have "store_ok (s\<lparr>schedules := update_where (fire_cond (scan_schedule r) due) (fired_schedule due nf now) (schedules s)\<rparr>)"
      using ok by (auto intro: update_schedules_ok)
    with ok have ok1: "mailbox_ok
        (s\<lparr>schedules := update_where (fire_cond (scan_schedule r) due) (fired_schedule due nf now) (schedules s)\<rparr>)"
      by (simp add: mailbox_ok_def)
    from enqueue_message_tx_row [OF fired(8)] obtain row where
        "s' = s\<lparr>schedules := update_where (fire_cond (scan_schedule r) due) (fired_schedule due nf now) (schedules s),
                messages := messages s @ [row]\<rparr>"
      and e: "enqueued_as now (fire_message_params (scan_schedule r) due tid payload now) row" "m_key row = m_key m"
      by auto
    moreover from this have "schedules s' = update_where (\<lambda>c. s_key c = s_key r)
        (fired_schedule (from_millis d) nf now) (schedules s)" "messages s' = messages s @ [row]"
      by (simp_all add: upd [unfolded due] due)
    moreover from fired_enqueued [OF e(1) [unfolded due]] fired(6) d(1) have "fired_as now r row" by simp
    moreover from advance_whole_second(4) [OF cron_liveD [OF live fired(2-4)] fired(5)]
    have "to_millis now < to_millis nf" .
    ultimately show thesis using fired(1) d enqueue_message_tx_ok [OF ok1 fired(8)]
      by (intro that [of m d nf]) auto
  qed simp
qed

lemma fire_all_due:
  assumes "mailbox_ok s" and "set rs \<subseteq> set (schedules s)"
    and "distinct (map s_key rs)" and "\<forall>r \<in> set rs. is_due now r \<and> cron_live lib now (scan_schedule r)"
    and "fire_all lib now ids i (map scan_schedule rs) s = Some (Inr ms, s')"
  shows "mailbox_ok s' \<and>
    (\<exists>new. messages s' = messages s @ new \<and> list_all2 (fired_as now) rs new \<and> map m_key ms = map m_key new) \<and>
    (\<forall>x \<in> set (schedules s'). is_due now x \<longrightarrow> x \<in> set (schedules s) \<and> x \<notin> set rs)"
  using assms
proof (induction rs arbitrary: s i ms)
  case (Cons r rs)
  from Cons.prems(5) obtain y s1 ms1 where
    fire: "fire_schedule lib now (ids (2 * i)) (ids (2 * i + 1)) (scan_schedule r) s = Some (Inr y, s1)"
    and rest: "fire_all lib now ids (Suc i) (map scan_schedule rs) s1 = Some (Inr ms1, s')"
    and ms: "ms = (case y of None \<Rightarrow> ms1 | Some m \<Rightarrow> m # ms1)"
    by (auto split: option.splits sum.splits)
  from Cons.prems have r: "r \<in> set (schedules s)" "is_due now r" "cron_live lib now (scan_schedule r)" by auto
  from fire_due_row [OF Cons.prems(1) r(3,1,2) fire] obtain m nf d row where y: "y = Some m"
    and later: "to_millis now < to_millis nf"
    and sch: "schedules s1 = update_where (\<lambda>c. s_key c = s_key r) (fired_schedule (from_millis d) nf now) (schedules s)"
    and ok1: "mailbox_ok s1"
    and row: "messages s1 = messages s @ [row]" "fired_as now r row" "m_key row = m_key m"
    by metis
  have keep: "set rs \<subseteq> set (schedules s1)"
  proof
    fix x assume x: "x \<in> set rs"
    with Cons.prems(2) have "x \<in> set (schedules s)" by auto
    moreover from x have "s_key x \<in> s_key ` set rs" by (rule imageI)
    with Cons.prems(3) have "s_key x \<noteq> s_key r" by auto
    ultimately show "x \<in> set (schedules s1)" by (auto simp: sch set_update_where image_iff intro: bexI [of _ x])
  qed
  have "distinct (map s_key rs)" "\<forall>r \<in> set rs. is_due now r \<and> cron_live lib now (scan_schedule r)"
    using Cons.prems(3,4) by simp_all
  from Cons.IH [OF ok1 keep this rest] obtain new where
    ih: "mailbox_ok s'" "messages s' = messages s1 @ new" "list_all2 (fired_as now) rs new" "map m_key ms1 = map m_key new"
      "\<forall>x \<in> set (schedules s'). is_due now x \<longrightarrow> x \<in> set (schedules s1) \<and> x \<notin> set rs"
    by blast
  have "messages s' = messages s @ row # new \<and> list_all2 (fired_as now) (r # rs) (row # new) \<and>
      map m_key ms = map m_key (row # new)"
    using ih(2-4) row y ms by simp
  moreover have "x \<in> set (schedules s) \<and> x \<noteq> r" if "x \<in> set (schedules s1)" "is_due now x" for x
    using that later by (auto simp: sch set_update_where is_due_def)
  ultimately show ?case using ih(1,5) by auto
qed simp

lemma due_schedules_rows:
  assumes "store_ok s"
  obtains rs where "due_schedules now limit s = map scan_schedule rs"
    and "set rs \<subseteq> {r \<in> set (schedules s). is_due now r}" and "distinct (map s_key rs)"
    and "length (filter (is_due now) (schedules s)) \<le> nat (if limit \<le> 0 then 32 else limit) \<Longrightarrow>
      set rs = {r \<in> set (schedules s). is_due now r} \<and> length rs = length (filter (is_due now) (schedules s))"
    and "length rs \<le> nat (if limit \<le> 0 then 32 else limit)"
proof -
  let ?d = "filter (is_due now) (schedules s)"
  let ?srt = "sort_key (\<lambda>c. (the (s_next c), s_updated c)) ?d"
  let ?n = "nat (if limit \<le> 0 then 32 else limit)"
  from assms have "distinct (map s_key ?d)" by (auto simp: store_ok_def distinct_map_filter)
  then have "distinct (map s_key ?srt)" by (simp add: distinct_map)
  then have "distinct (map s_key (take ?n ?srt))" by (metis distinct_take take_map)
  moreover have "due_schedules now limit s = map scan_schedule (take ?n ?srt)"
    by (simp add: due_schedules_def is_due_def [abs_def] Let_def)
  moreover have "set (take ?n ?srt) \<subseteq> {r \<in> set (schedules s). is_due now r}"
    using set_take_subset [of ?n ?srt] by auto
  ultimately show thesis by (intro that [of "take ?n ?srt"]) auto
qed

lemma due_schedules_all:
  assumes "store_ok s"
    and "length (filter (is_due now) (schedules s)) \<le> nat (if limit \<le> 0 then 32 else limit)"
  obtains rs where "due_schedules now limit s = map scan_schedule rs" and "distinct (map s_key rs)"
    and "set rs = {r \<in> set (schedules s). is_due now r}"
    and "length rs = length (filter (is_due now) (schedules s))"
proof (rule due_schedules_rows [OF assms(1), of now limit])
  fix rs
  assume "due_schedules now limit s = map scan_schedule rs" "distinct (map s_key rs)"
    "length (filter (is_due now) (schedules s)) \<le> nat (if limit \<le> 0 then 32 else limit) \<Longrightarrow>
      set rs = {r \<in> set (schedules s). is_due now r} \<and> length rs = length (filter (is_due now) (schedules s))"
  with assms(2) show thesis by (intro that [of rs]) auto
qed

lemma fire_schedule_ok:
  assumes "mailbox_ok s" and "fire_schedule lib now tid mid c s = Some (r, s')"
  shows "mailbox_ok s'"
  using assms(2)
proof (cases rule: fire_schedule_cases)
  case (fired due zone nxt nf payload m)
  have "store_ok (s\<lparr>schedules := update_where (fire_cond c due) (fired_schedule due nf now) (schedules s)\<rparr>)"
    using assms(1) by (auto intro: update_schedules_ok)
  with assms(1) have "mailbox_ok
      (s\<lparr>schedules := update_where (fire_cond c due) (fired_schedule due nf now) (schedules s)\<rparr>)"
    by (simp add: mailbox_ok_def)
  from enqueue_message_tx_ok [OF this fired(8)] show ?thesis .
qed (use assms(1) in simp_all)

lemma fire_all_ok:
  "mailbox_ok s \<Longrightarrow> fire_all lib now ids i cs s = Some (r, s') \<Longrightarrow> mailbox_ok s'"
proof (induction lib now ids i cs s arbitrary: r rule: fire_all.induct)
  case (2 lib now ids i c cs s)
  from "2.prems"(2) obtain x s1 where
    fire: "fire_schedule lib now (ids (2 * i)) (ids (2 * i + 1)) c s = Some (x, s1)"
    by (auto split: option.splits)
  from fire_schedule_ok [OF "2.prems"(1) fire] have ok1: "mailbox_ok s1" .
  show ?case
  proof (cases x)
    case (Inl e)
    with "2.prems"(2) fire ok1 show ?thesis by simp
  next
    case (Inr m)
    with "2.prems"(2) fire obtain x2 where "fire_all lib now ids (Suc i) cs s1 = Some (x2, s')"
      by (auto split: option.splits sum.splits)
    from "2.IH" [OF fire refl Inr ok1 this] show ?thesis .
  qed
qed simp

lemma insert_schedule_mailbox_ok: "insert_schedule row s = Inr s' \<Longrightarrow> mailbox_ok s \<Longrightarrow> mailbox_ok s'"
  using insert_schedule_ok [of row s s'] by (auto simp: mailbox_ok_def insert_schedule_Inr)

lemma create_schedule_ok:
  "mailbox_ok s \<Longrightarrow> create_schedule lib now gen p s = (r, s') \<Longrightarrow> mailbox_ok s'"
  by (auto simp: create_schedule_def Let_def intro: insert_schedule_mailbox_ok
      split: if_splits option.splits sum.splits)

lemma disable_schedule_ok:
  assumes "mailbox_ok s" and "disable_schedule now ns sid s = (r, s')"
  shows "mailbox_ok s'"
proof -
  have "store_ok (s\<lparr>schedules := update_where (\<lambda>c. s_namespace c = ns \<and> s_id c = sid)
      (\<lambda>c. c\<lparr>s_enabled := False, s_next := None, s_updated := to_millis now\<rparr>) (schedules s)\<rparr>)"
    using assms(1) by (auto intro!: update_schedules_ok simp: key_defs)
  with assms show ?thesis by (auto simp: disable_schedule_def Let_def mailbox_ok_def split: if_splits)
qed

text \<open>A record that has fired does not fire again: the row's next time has moved past it.\<close>

lemma fired_rows:
  assumes "fire_schedule lib now tid mid c s = Some (Inr (Some m), s')" and "cron_live lib now c"
    and "s_next c = Some due" and "x \<in> set (schedules s')"
  shows "\<not> fire_cond c due x"
  using assms(1)
proof (cases rule: fire_schedule_cases)
  case (fired due' zone nxt nf payload m')
  with assms(3) have due: "due' = due" by simp
  from advance_whole_second(2,3) [OF cron_liveD [OF assms(2) fired(2-4)] fired(5)] second_millis [of nf due]
  have "to_millis nf \<noteq> to_millis due" by (simp add: due)
  moreover have "schedules s' = update_where (fire_cond c due) (fired_schedule due nf now) (schedules s)"
    using fired(8) unfolding due by (auto elim!: enqueue_message_tx_Inr)
  ultimately show ?thesis
    using assms(4) by (auto simp: set_update_where fire_cond_def split: if_splits)
qed simp_all

lemma fire_again:
  assumes "fire_schedule lib now tid mid c s = Some (Inr (Some m), s')" and "cron_live lib now c"
    and "fire_schedule lib now' tid' mid' c s' = Some (r, s2)"
  shows "s2 = s' \<and> (\<forall>x. r \<noteq> Inr (Some x))"
  using assms(3)
proof (cases rule: fire_schedule_cases)
  case (fired due zone nxt nf payload m')
  with fired_rows [OF assms(1,2) fired(2)] show ?thesis by blast
qed simp_all

text \<open>A cron expression with no activation after the present time never lets the firing loop end.\<close>

lemma fire_stuck:
  assumes "s_next c = Some due" and "load_schedule_location lib (s_zone c) = Some zone"
    and "cron_parse lib (s_cron c) = Some nxt" and "\<And>u. u \<le> now \<Longrightarrow> nxt zone u \<le> now" and "due \<le> now"
  shows "fire_schedule lib now tid mid c s = None"
  using advance_diverges [of now "nxt zone" "nxt zone due"] assms by (simp add: fire_schedule_def)

lemma fire_all_returns:
  "\<forall>c \<in> set cs. cron_live lib now c \<Longrightarrow> \<exists>r s'. fire_all lib now ids i cs s = Some (r, s')"
proof (induction cs arbitrary: i s)
  case (Cons c cs)
  obtain r s1 where "fire_schedule lib now (ids (2 * i)) (ids (2 * i + 1)) c s = Some (r, s1)"
    using fire_schedule_returns Cons.prems by (metis list.set_intros(1))
  moreover obtain r2 s2 where "fire_all lib now ids (Suc i) cs s1 = Some (r2, s2)"
    using Cons by fastforce
  ultimately show ?case by (cases r; cases r2) simp_all
qed simp

lemma due_schedules_live:
  assumes "\<forall>r \<in> set (schedules s). is_due now r \<longrightarrow> cron_live lib now (scan_schedule r)"
  shows "\<forall>c \<in> set (due_schedules now limit s). cron_live lib now c"
proof -
  have "set (due_schedules now limit s) \<subseteq> scan_schedule ` {r \<in> set (schedules s). is_due now r}"
    by (auto simp: due_schedules_def is_due_def Let_def dest!: in_set_takeD)
  with assms show ?thesis by auto
qed

end
