(* ===== verification/AgentLaws.thy ===== *)
theory AgentLaws
  imports Agents ScheduleLaws
begin

text \<open>
  Lemmas on namespaces and agents: the prompt version an agent points at exists and is its own, the
  operations keep the invariants, and reconciling an agent a second time changes nothing.
\<close>

section \<open>The current prompt version\<close>

text \<open>
  Every agent points at a prompt version of its own, whose identifier is not blank, and versions are
  numbered from one.
\<close>

definition prompts_ok :: "store \<Rightarrow> bool" where
  "prompts_ok s \<longleftrightarrow>
     (\<forall>a \<in> set (agents s). (a_key a, a_prompt_version a) \<in> (\<lambda>r. (p_owner r, p_id r)) ` set (prompts s)) \<and>
     (\<forall>r \<in> set (prompts s). 1 \<le> p_version r)"

definition system_ok :: "store \<Rightarrow> bool" where
  "system_ok s \<longleftrightarrow> mailbox_ok s \<and> prompts_ok s"

lemma system_okD [dest]: "system_ok s \<Longrightarrow> mailbox_ok s" "system_ok s \<Longrightarrow> prompts_ok s"
  by (simp_all add: system_ok_def)

lemma prompts_ok_frame: "prompts s' = prompts s \<Longrightarrow> agents s' = agents s \<Longrightarrow> prompts_ok s \<Longrightarrow> prompts_ok s'"
  by (simp add: prompts_ok_def)

lemma find_agent:
  "store_ok s \<Longrightarrow> a \<in> set (agents s) \<Longrightarrow>
     find (\<lambda>x. a_namespace x = a_namespace a \<and> a_id x = a_id a) (agents s) = Some a"
  by (rule agent_rows.find_row) (simp_all add: a_key_def)

lemma find_prompt:
  "store_ok s \<Longrightarrow> r \<in> set (prompts s) \<Longrightarrow>
     find (\<lambda>x. p_namespace x = p_namespace r \<and> p_id x = p_id r) (prompts s) = Some r"
  by (rule prompt_rows.find_row) (simp_all add: p_key_def)

lemma get_agent_Inr:
  assumes "store_ok s"
  shows "get_agent ns ag s = Inr x \<longleftrightarrow>
    (\<exists>a \<in> set (agents s). a_key a = (ns, ag) \<and> x = scan_runnable_agent s a)"
proof
  assume "get_agent ns ag s = Inr x"
  then obtain a where "find (\<lambda>x. a_namespace x = ns \<and> a_id x = ag) (agents s) = Some a"
    and "x = scan_runnable_agent s a" by (auto simp: get_agent_def split: option.splits)
  then show "\<exists>a \<in> set (agents s). a_key a = (ns, ag) \<and> x = scan_runnable_agent s a"
    by (auto simp: find_Some_iff a_key_def)
next
  assume "\<exists>a \<in> set (agents s). a_key a = (ns, ag) \<and> x = scan_runnable_agent s a"
  then show "get_agent ns ag s = Inr x"
    using find_agent [OF assms] by (auto simp: get_agent_def a_key_def)
qed

lemma get_agent_Inl: "get_agent ns ag s = Inl e \<longleftrightarrow> e = ErrNotFound \<and> (ns, ag) \<notin> a_key ` set (agents s)"
  by (auto simp: get_agent_def a_key_def find_None_iff split: option.splits dest!: find_Some_iff [THEN iffD1])

section \<open>The invariant is kept\<close>

lemma insert_agent_prompt_ok:
  assumes "system_ok s" and "insert_agent a s = Inr s1" and "insert_prompt r s1 = Inr s2"
    and "p_owner r = a_key a" and "p_id r = a_prompt_version a" and "1 \<le> p_version r"
  shows "system_ok s2"
proof -
  from assms(1-3) have "store_ok s2" using insert_agent_ok insert_prompt_ok by blast
  with assms show ?thesis
    by (auto simp: system_ok_def mailbox_ok_def prompts_ok_def insert_agent_Inr insert_prompt_Inr)
qed

lemma create_agent_tx_Inr:
  assumes "create_agent_tx p config schema pid now s = Inr (a, s')"
  obtains row where "row = new_agent to_duration_millis to_millis p config pid now"
    and "a_key row = (ca_namespace p, ca_agent p)" and "a_prompt_version row = pid"
    and "s' = s\<lparr>agents := agents s @ [row], prompts := prompts s @
          [\<lparr>p_namespace = ca_namespace p, p_id = pid, p_agent = ca_agent p, p_version = 1,
            p_prompt = prompt_or_default (ca_prompt p), p_schema = schema, p_created = to_millis now\<rparr>]\<rparr>"
    and "a = \<lparr>ra_record = new_agent id id p config pid now, ra_prompt = prompt_or_default (ca_prompt p)\<rparr>"
  using assms
  by (auto simp: create_agent_tx_def insert_agent_Inr insert_prompt_Inr new_agent_def a_key_def split: sum.splits)

lemma create_agent_tx_ok:
  assumes "system_ok s" and "create_agent_tx p config schema pid now s = Inr (a, s')"
  shows "system_ok s'"
proof -
  from assms(2) obtain s1 where "insert_agent (new_agent to_duration_millis to_millis p config pid now) s = Inr s1"
    and "insert_prompt \<lparr>p_namespace = ca_namespace p, p_id = pid, p_agent = ca_agent p, p_version = 1,
      p_prompt = prompt_or_default (ca_prompt p), p_schema = schema, p_created = to_millis now\<rparr> s1 = Inr s'"
    by (auto simp: create_agent_tx_def split: sum.splits)
  from insert_agent_prompt_ok [OF assms(1) this] show ?thesis
    by (simp add: new_agent_def key_defs)
qed

lemma create_agent_ok:
  "system_ok s \<Longrightarrow> create_agent mkdir now ga gp p s = (r, s') \<Longrightarrow> system_ok s'"
  by (auto simp: create_agent_def elim!: run_tx_cases intro: create_agent_tx_ok
      split: sum.splits option.splits prod.splits)

text \<open>The next version is above every version of the agent.\<close>

lemma fold_max_ge: "m \<le> fold (\<lambda>x m. max (f x) m) rs m \<and> (\<forall>r \<in> set rs. f r \<le> fold (\<lambda>x m. max (f x) m) rs m)"
  for f :: "'a \<Rightarrow> int"
proof (induction rs arbitrary: m)
  case (Cons a rs)
  from Cons.IH [of "max (f a) m"] show ?case by auto
qed simp

lemma next_prompt_version_above:
  "r \<in> set (prompts s) \<Longrightarrow> p_namespace r = ns \<Longrightarrow> p_agent r = ag \<Longrightarrow> p_version r < next_prompt_version ns ag s"
proof -
  assume "r \<in> set (prompts s)" "p_namespace r = ns" "p_agent r = ag"
  then have r: "r \<in> set (filter (\<lambda>r. p_namespace r = ns \<and> p_agent r = ag) (prompts s))" by simp
  then obtain q qs where q: "filter (\<lambda>r. p_namespace r = ns \<and> p_agent r = ag) (prompts s) = q # qs"
    by (cases "filter (\<lambda>r. p_namespace r = ns \<and> p_agent r = ag) (prompts s)") auto
  from r q fold_max_ge [of "p_version q" p_version qs] show ?thesis
    by (auto simp: next_prompt_version_def)
qed

lemma next_prompt_version_pos: "prompts_ok s \<Longrightarrow> 1 \<le> next_prompt_version ns ag s"
proof (cases "filter (\<lambda>r. p_namespace r = ns \<and> p_agent r = ag) (prompts s)")
  case (Cons q qs)
  assume "prompts_ok s"
  moreover from Cons have "q \<in> set (prompts s)" by (metis filter_is_subset list.set_intros(1) subset_code(1))
  moreover have "p_version q \<le> fold (\<lambda>x m. max (p_version x) m) qs (p_version q)"
    using fold_max_ge [of "p_version q" p_version qs] by simp
  ultimately show ?thesis using Cons by (fastforce simp: next_prompt_version_def prompts_ok_def)
qed (simp add: next_prompt_version_def)

definition new_prompt :: "string \<Rightarrow> string \<Rightarrow> string \<Rightarrow> env_text \<Rightarrow> string \<Rightarrow> int \<Rightarrow> int \<Rightarrow> prompt_row" where
  "new_prompt ns ag prompt schema pid version t =
     \<lparr>p_namespace = ns, p_id = pid, p_agent = ag, p_version = version, p_prompt = prompt,
      p_schema = schema, p_created = t\<rparr>"

lemma update_agent_prompt_tx_Inr:
  assumes "update_agent_prompt_tx ns ag prompt schema pid now s = Inr (r, s')"
  shows "(ns, ag) \<in> a_key ` set (agents s)" "(ns, pid) \<notin> p_key ` set (prompts s)"
    "r = new_prompt ns ag prompt schema pid (next_prompt_version ns ag s) now"
    "insert_prompt (new_prompt ns ag prompt schema pid (next_prompt_version ns ag s) (to_millis now)) s =
       Inr (s\<lparr>prompts := prompts s @ [new_prompt ns ag prompt schema pid (next_prompt_version ns ag s) (to_millis now)]\<rparr>)"
    "s' = s\<lparr>prompts := prompts s @ [new_prompt ns ag prompt schema pid (next_prompt_version ns ag s) (to_millis now)],
            agents := update_where (\<lambda>a. a_namespace a = ns \<and> a_id a = ag)
              (\<lambda>a. a\<lparr>a_prompt_version := pid, a_updated := to_millis now\<rparr>) (agents s)\<rparr>"
  using assms
  by (auto simp: update_agent_prompt_tx_def Let_def insert_prompt_Inr new_prompt_def p_owner_def p_key_def
      split: sum.splits if_splits)

lemma update_agent_prompt_tx_ok:
  assumes ok: "system_ok s" and upd: "update_agent_prompt_tx ns ag prompt schema pid now s = Inr (r, s')"
  shows "system_ok s'"
proof -
  note u = update_agent_prompt_tx_Inr [OF upd]
  let ?row = "new_prompt ns ag prompt schema pid (next_prompt_version ns ag s) (to_millis now)"
  from ok u(4) have "store_ok (s\<lparr>prompts := prompts s @ [?row]\<rparr>)" by (auto intro: insert_prompt_ok)
  from update_agents_ok [OF this, of "\<lambda>a. a\<lparr>a_prompt_version := pid, a_updated := to_millis now\<rparr>"
      "\<lambda>a. a_namespace a = ns \<and> a_id a = ag"]
  have "store_ok s'" by (simp add: u(5) a_key_def)
  moreover have "prompts_ok s'"
    using ok next_prompt_version_pos [of s ns ag]
    by (auto simp: system_ok_def prompts_ok_def u(5) set_update_where new_prompt_def p_owner_def a_key_def)
  ultimately show ?thesis using ok by (simp add: system_ok_def mailbox_ok_def u(5))
qed

lemma update_agent_prompt_ok:
  "system_ok s \<Longrightarrow> update_agent_prompt now gp ns ag prompt schema s = (r, s') \<Longrightarrow> system_ok s'"
  by (auto simp: update_agent_prompt_def elim!: run_tx_cases intro: update_agent_prompt_tx_ok
      split: if_splits option.splits)

lemma update_agents_system_ok:
  assumes "system_ok s" and "\<And>a. a_key (f a) = a_key a" and "\<And>a. a_prompt_version (f a) = a_prompt_version a"
  shows "system_ok (s\<lparr>agents := update_where cond f (agents s)\<rparr>)"
proof -
  have "a_namespace (f a) = a_namespace a" for a using assms(2) [of a] by (simp add: a_key_def)
  with assms have "store_ok (s\<lparr>agents := update_where cond f (agents s)\<rparr>)"
    by (auto intro: update_agents_ok)
  with assms show ?thesis
    by (auto simp: system_ok_def mailbox_ok_def prompts_ok_def set_update_where)
qed

lemma agent_columns_simps [simp]:
  "a_key (agent_columns p c now a) = a_key a" "a_prompt_version (agent_columns p c now a) = a_prompt_version a"
  "a_namespace (agent_columns p c now a) = a_namespace a" "a_id (agent_columns p c now a) = a_id a"
  by (simp_all add: agent_columns_def a_key_def)

lemma update_agent_desired_state_ok:
  assumes "system_ok s" and "update_agent_desired_state now ns ag st s = (r, s')"
  shows "system_ok s'"
  using assms update_agents_system_ok [OF assms(1), of "\<lambda>a. a\<lparr>a_desired := st, a_updated := to_millis now\<rparr>"
      "\<lambda>a. a_namespace a = ns \<and> a_id a = ag"]
  by (auto simp: update_agent_desired_state_def Let_def a_key_def split: if_splits)

text \<open>The agents table after the column update of a reconciliation, if it is needed.\<close>

definition reconciled :: "create_agent_params \<Rightarrow> env_text \<Rightarrow> go_time \<Rightarrow> runnable_agent \<Rightarrow> store \<Rightarrow> store" where
  "reconciled q config now old s =
     (if agent_differs q config (ra_record old) then s\<lparr>agents := update_where
        (\<lambda>a. a_namespace a = ca_namespace q \<and> a_id a = ca_agent q) (agent_columns q config now) (agents s)\<rparr>
      else s)"

definition prompt_stale :: "create_agent_params \<Rightarrow> env_text \<Rightarrow> runnable_agent \<Rightarrow> store \<Rightarrow> bool" where
  "prompt_stale q schema old s \<longleftrightarrow>
     ra_prompt old \<noteq> prompt_or_default (ca_prompt q) \<or>
     current_action_schema (ca_namespace q) (a_prompt_version (ra_record old)) s \<noteq> schema"

lemma put_agent_existing:
  assumes "normalize_create_agent_params mkdir ga p = Inr (q, config)"
    and "marshal_optional_envelope ''agent_action_schema'' (ca_schema q) = Some schema"
    and "get_agent (ca_namespace q) (ca_agent q) s = Inr old"
  shows "put_agent mkdir now ga gp p s =
    (let s1 = reconciled q config now old s;
         st = prompt_stale q schema old s1
     in case (if st then map_prod (map_sum id Some) id (update_agent_prompt now gp (ca_namespace q)
                (ca_agent q) (prompt_or_default (ca_prompt q)) (ca_schema q) s1)
              else (Inr None, s1)) of
          (Inl e, s2) \<Rightarrow> (Inl e, s2)
        | (Inr _, s2) \<Rightarrow>
            (case get_agent (ca_namespace q) (ca_agent q) s2 of
               Inl e \<Rightarrow> (Inl e, s2)
             | Inr a \<Rightarrow> (Inr \<lparr>put_value = a, put_created = False,
                 put_updated = agent_differs q config (ra_record old) \<or> st\<rparr>, s2)))"
  by (simp only: put_agent_def assms sum.case option.case prod.case prompt_stale_def reconciled_def Let_def)

lemma put_agent_cases:
  assumes "put_agent mkdir now ga gp p s = (r, s')"
  obtains (err) e where "r = Inl e" "s' = s"
    | (created) q config where "normalize_create_agent_params mkdir ga p = Inr (q, config)"
      "get_agent (ca_namespace q) (ca_agent q) s = Inl ErrNotFound"
      "create_agent mkdir now ga gp q s = (map_sum id put_value r, s')"
    | (existing) q config schema old where "normalize_create_agent_params mkdir ga p = Inr (q, config)"
      "marshal_optional_envelope ''agent_action_schema'' (ca_schema q) = Some schema"
      "get_agent (ca_namespace q) (ca_agent q) s = Inr old"
      "\<not> prompt_stale q schema old (reconciled q config now old s) \<and> s' = reconciled q config now old s \<or>
       (\<exists>u. update_agent_prompt now gp (ca_namespace q) (ca_agent q) (prompt_or_default (ca_prompt q))
             (ca_schema q) (reconciled q config now old s) = (u, s') \<and> (\<forall>x. r = Inr x \<longrightarrow> (\<exists>v. u = Inr v)))"
proof -
  consider (bad) e where "r = Inl e" "s' = s"
    | (good) q config schema where "normalize_create_agent_params mkdir ga p = Inr (q, config)"
      "marshal_optional_envelope ''agent_action_schema'' (ca_schema q) = Some schema"
    using assms by (auto simp: put_agent_def split: sum.splits option.splits)
  then show thesis
  proof cases
    case good
    show thesis
    proof (cases "get_agent (ca_namespace q) (ca_agent q) s")
      case (Inl e)
      then have "e = ErrNotFound" by (simp add: get_agent_Inl)
      with Inl assms good have "create_agent mkdir now ga gp q s = (map_sum id put_value r, s')"
        by (cases "create_agent mkdir now ga gp q s") (auto simp: put_agent_def split: sum.splits)
      with Inl good(1) \<open>e = ErrNotFound\<close> show thesis by (intro created) simp_all
    next
      case (Inr old)
      obtain u s2 where u: "update_agent_prompt now gp (ca_namespace q) (ca_agent q)
          (prompt_or_default (ca_prompt q)) (ca_schema q) (reconciled q config now old s) = (u, s2)" by fastforce
      from assms have "\<not> prompt_stale q schema old (reconciled q config now old s) \<and> s' = reconciled q config now old s \<or>
          s' = s2 \<and> (\<forall>x. r = Inr x \<longrightarrow> (\<exists>v. u = Inr v))"
        unfolding put_agent_existing [OF good Inr] Let_def u
        by (cases u) (auto split: sum.splits if_splits)
      with u show thesis by (intro existing [OF good Inr]) auto
    qed
  qed (rule err)
qed

lemma put_agent_ok:
  assumes ok: "system_ok s" and put: "put_agent mkdir now ga gp p s = (r, s')"
  shows "system_ok s'"
  using put
proof (cases rule: put_agent_cases)
  case (existing q config schema old)
  from ok have "system_ok (reconciled q config now old s)"
    unfolding reconciled_def by (auto intro: update_agents_system_ok)
  with existing(4) show ?thesis by (auto intro: update_agent_prompt_ok)
qed (use ok in \<open>auto intro: create_agent_ok\<close>)

lemma delete_agents_columns:
  fixes s :: store and cond :: "agent_row \<Rightarrow> bool"
  defines "gone \<equiv> a_key ` {a \<in> set (agents s). cond a}"
  shows "set (agents (delete_agents cond s)) = {a \<in> set (agents s). \<not> cond a}"
    and "set (prompts (delete_agents cond s)) = {r \<in> set (prompts s). p_owner r \<notin> gone}"
    and "set (messages (delete_agents cond s)) = {m \<in> set (messages s). m_agent m \<notin> gone}"
    and "set (runs (delete_agents cond s)) = {r \<in> set (runs s). r_agent_key r \<notin> gone \<and>
           r_message_key r \<in> m_key ` {m \<in> set (messages s). m_agent m \<notin> gone}}"
    and "set (schedules (delete_agents cond s)) = {c \<in> set (schedules s). s_owner c \<notin> gone}"
  by (simp_all add: delete_agents_def Let_def gone_def)

lemma delete_agents_message_ok:
  assumes ok: "message_ok (runs s) m" and m: "m \<in> set (messages s)"
    and kept: "m_agent m \<notin> a_key ` {a \<in> set (agents s). cond a}"
  shows "message_ok (runs (delete_agents cond s)) m"
proof (cases "m_status m = Leased")
  case True
  with ok obtain x where x: "x \<in> set (runs s)" "run_cols x = ((m_namespace m, m_run m), m_id m, m_recipient m)"
    by (auto simp: message_ok_def)
  then have "r_agent_key x = m_agent m" "r_message_key x = m_key m"
    by (simp_all add: run_cols_def key_defs)
  with x(1) m kept have "x \<in> set (runs (delete_agents cond s))"
    by (simp add: delete_agents_columns)
  with x(2) True ok show ?thesis by (simp add: message_ok_def image_iff) metis
qed (use ok in \<open>simp add: message_ok_def\<close>)

lemma delete_agents_system_ok:
  assumes ok: "system_ok s" and cond: "\<And>a b. a_key a = a_key b \<Longrightarrow> cond a = cond b"
  shows "system_ok (delete_agents cond s)"
proof -
  from ok have sok: "store_ok s" by auto
  from ok have "message_ok (runs s) m" if "m \<in> set (messages s)" for m
    using that by (simp add: system_ok_def mailbox_ok_def)
  then have "mailbox_ok (delete_agents cond s)"
    using delete_agents_ok [OF sok] delete_agents_message_ok
    by (simp add: mailbox_ok_def delete_agents_columns)
  moreover have "prompts_ok (delete_agents cond s)"
  proof -
    have "(a_key a, a_prompt_version a) \<in> (\<lambda>r. (p_owner r, p_id r)) ` set (prompts (delete_agents cond s))"
      if "a \<in> set (agents s)" "\<not> cond a" for a
    proof -
      from that(2) cond have "a_key a \<notin> a_key ` {a \<in> set (agents s). cond a}" by blast
      moreover from ok that(1) obtain r where "r \<in> set (prompts s)" "p_owner r = a_key a" "p_id r = a_prompt_version a"
        by (auto simp: system_ok_def prompts_ok_def)
      ultimately show ?thesis by (intro image_eqI [of _ _ r]) (simp_all add: delete_agents_columns)
    qed
    with ok show ?thesis by (simp add: system_ok_def prompts_ok_def delete_agents_columns)
  qed
  ultimately show ?thesis by (simp add: system_ok_def)
qed

lemma delete_agent_ok:
  assumes "system_ok s" and "delete_agent ns ag s = (r, s')"
  shows "system_ok s'"
proof -
  have "system_ok (delete_agents (\<lambda>a. a_namespace a = ns \<and> a_id a = ag) s)"
    by (rule delete_agents_system_ok [OF assms(1)]) (simp add: a_key_def)
  with assms show ?thesis by (simp add: delete_agent_def Let_def split: if_splits)
qed

lemma filter_schedules_ok: "store_ok s \<Longrightarrow> store_ok (s\<lparr>schedules := filter P (schedules s)\<rparr>)"
  by (simp add: store_ok_def distinct_map_filter image_subset_iff)

lemma delete_schedules_ok:
  assumes "system_ok s" and "delete_schedules_by_agent ns ag s = (n, s')"
  shows "system_ok s'"
proof -
  from assms(1) have "store_ok s" by auto
  from filter_schedules_ok [OF this, of "\<lambda>c. \<not> (s_namespace c = ns \<and> s_agent c = ag)"] assms show ?thesis
    by (simp add: delete_schedules_by_agent_def Let_def system_ok_def mailbox_ok_def)
      (auto simp: prompts_ok_def)
qed

lemma create_namespace_ok: "system_ok s \<Longrightarrow> create_namespace now g p s = (r, s') \<Longrightarrow> system_ok s'"
proof -
  have "system_ok s2" if "insert_namespace row s = Inr s2" "system_ok s" for row s2
    using that insert_namespace_ok [OF that(1)]
    by (auto simp: system_ok_def mailbox_ok_def insert_namespace_Inr intro: prompts_ok_frame [of _ s])
  then show "system_ok s \<Longrightarrow> create_namespace now g p s = (r, s') \<Longrightarrow> system_ok s'"
    by (auto simp: create_namespace_def Let_def split: option.splits sum.splits if_splits)
qed

lemma update_namespaces_system_ok:
  assumes "system_ok s" and "\<And>r. n_key (f r) = n_key r"
  shows "system_ok (s\<lparr>namespaces := update_where cond f (namespaces s)\<rparr>)"
proof -
  from assms have "store_ok (s\<lparr>namespaces := update_where cond f (namespaces s)\<rparr>)"
    by (auto intro: update_namespaces_ok)
  with assms(1) show ?thesis
    by (auto simp: system_ok_def mailbox_ok_def intro: prompts_ok_frame [of _ s])
qed

lemma put_namespace_ok:
  assumes "system_ok s" and "put_namespace now g p s = (r, s')"
  shows "system_ok s'"
proof -
  have "system_ok (s\<lparr>namespaces := update_where c (\<lambda>r. r\<lparr>n_name := nm, n_limits := l, n_updated := t\<rparr>)
      (namespaces s)\<rparr>)" for c nm l t
    by (rule update_namespaces_system_ok [OF assms(1)]) (simp add: n_key_def)
  with assms show ?thesis
    by (auto simp: put_namespace_def Let_def dest: create_namespace_ok
        split: option.splits sum.splits if_splits prod.splits)
qed

section \<open>Reconciling twice\<close>

text \<open>The durations of the parameters are whole milliseconds, as the columns are.\<close>

definition whole_millis :: "create_agent_params \<Rightarrow> bool" where
  "whole_millis p \<longleftrightarrow>
     (\<forall>d \<in> {default_duration (ca_step_timeout p) (5 * minute), default_duration (ca_lease_duration p) (5 * minute),
            default_duration (ca_retry_delay p) (30 * second)}.
        from_duration_millis (to_duration_millis d) = d)"

lemma normalize_Inr:
  assumes "normalize_create_agent_params mkdir ga p = Inr (q, config)"
  shows "\<not> blank (ca_namespace q)" "\<not> blank ga \<Longrightarrow> \<not> blank (ca_agent q)" "ca_role q \<noteq> []" "ca_desired q \<noteq> []"
    "\<not> blank (ca_provider q)" "whole_millis p = whole_millis q"
    "\<not> blank (ca_agent q) \<Longrightarrow> normalize_create_agent_params mkdir ga' q = Inr (q, config)"
    "\<not> blank (ca_agent p) \<Longrightarrow> ca_agent q = ca_agent p"
    "\<not> blank (ca_agent p) \<Longrightarrow> normalize_create_agent_params mkdir ga' p = Inr (q, config)"
proof -
  have op: "\<not> blank ''openai''" by code_simp
  from assms have q: "q = p\<lparr>ca_agent := default_string (ca_agent p) ga,
      ca_role := (if ca_role p = [] then role_worker else ca_role p),
      ca_desired := (if ca_desired p = [] then state_running else ca_desired p),
      ca_provider := default_string (ca_provider p) ''openai''\<rparr>"
    and ns: "\<not> blank (ca_namespace p)" and rt: "\<not> blank (ca_root p)"
    by (auto simp: normalize_create_agent_params_def Let_def split: if_splits option.splits)
  show "\<not> blank (ca_namespace q)" "\<not> blank ga \<Longrightarrow> \<not> blank (ca_agent q)" "ca_role q \<noteq> []" "ca_desired q \<noteq> []"
    "\<not> blank (ca_provider q)" "whole_millis p = whole_millis q" "\<not> blank (ca_agent p) \<Longrightarrow> ca_agent q = ca_agent p"
    using ns op by (auto simp: q default_string_def role_worker_def state_running_def whole_millis_def)
  with assms ns rt show "\<not> blank (ca_agent q) \<Longrightarrow> normalize_create_agent_params mkdir ga' q = Inr (q, config)"
    by (auto simp: normalize_create_agent_params_def Let_def q default_string_def role_worker_def
        state_running_def split: if_splits option.splits)
  show "\<not> blank (ca_agent p) \<Longrightarrow> normalize_create_agent_params mkdir ga' p = Inr (q, config)"
  proof -
    assume "\<not> blank (ca_agent p)"
    then have "default_string (ca_agent p) g = ca_agent p" for g by (simp add: default_string_def)
    with assms show ?thesis by (simp only: normalize_create_agent_params_def)
  qed
qed

lemma new_agent_settled:
  assumes "whole_millis q" and "ca_role q \<noteq> []" and "ca_desired q \<noteq> []"
  shows "\<not> agent_differs q config
    (ra_record (scan_runnable_agent s (new_agent to_duration_millis to_millis q config pid now)))"
  using assms
  by (simp add: scan_runnable_agent_def agent_differs_def new_agent_def whole_millis_def)
    (simp add: default_string_def blank_def)

lemma agent_columns_settled:
  "whole_millis q \<Longrightarrow>
   \<not> agent_differs q config (ra_record (scan_runnable_agent s (agent_columns q config now a)))"
  by (simp add: scan_runnable_agent_def agent_differs_def agent_columns_def whole_millis_def)

lemma put_agent_settled:
  assumes "normalize_create_agent_params mkdir ga p = Inr (q, config)"
    and "marshal_optional_envelope ''agent_action_schema'' (ca_schema q) = Some schema"
    and "get_agent (ca_namespace q) (ca_agent q) s = Inr old"
    and "\<not> agent_differs q config (ra_record old)" and "\<not> prompt_stale q schema old s"
  shows "put_agent mkdir now ga gp p s = (Inr \<lparr>put_value = old, put_created = False, put_updated = False\<rparr>, s)"
  using assms by (simp add: put_agent_existing [OF assms(1-3)] reconciled_def Let_def)

text \<open>A row whose prompt version is the given row shows its prompt and schema.\<close>

lemma shows_prompt:
  assumes "store_ok s" and "a \<in> set (agents s)" and "r \<in> set (prompts s)"
    and "p_namespace r = a_namespace a" and "p_id r = a_prompt_version a" and "\<not> blank (p_id r)"
    and "a_namespace a = ca_namespace q" and "p_prompt r = prompt_or_default (ca_prompt q)" and "p_schema r = schema"
  shows "ra_prompt (scan_runnable_agent s a) = p_prompt r" and "\<not> prompt_stale q schema (scan_runnable_agent s a) s"
proof -
  from find_prompt [OF assms(1,3)] assms(4,5)
  have f: "find (\<lambda>x. p_namespace x = a_namespace a \<and> p_id x = a_prompt_version a) (prompts s) = Some r" by simp
  then show "ra_prompt (scan_runnable_agent s a) = p_prompt r" by (simp add: scan_runnable_agent_def)
  with f assms show "\<not> prompt_stale q schema (scan_runnable_agent s a) s"
    by (simp add: prompt_stale_def current_action_schema_def) (simp add: scan_runnable_agent_def)
qed

lemma put_agent_settled_row:
  assumes ok: "system_ok s" and norm: "normalize_create_agent_params mkdir ga p = Inr (q, config)"
    and schema: "marshal_optional_envelope ''agent_action_schema'' (ca_schema q) = Some schema"
    and a: "a \<in> set (agents s)" "a_key a = (ca_namespace q, ca_agent q)"
    and same: "\<not> agent_differs q config (ra_record (scan_runnable_agent s a))"
      "\<not> prompt_stale q schema (scan_runnable_agent s a) s"
  shows "\<exists>x. put_agent mkdir now ga gp p s = (Inr \<lparr>put_value = x, put_created = False, put_updated = False\<rparr>, s)"
proof -
  from ok a have "get_agent (ca_namespace q) (ca_agent q) s = Inr (scan_runnable_agent s a)"
    using get_agent_Inr [OF mailbox_ok_store_ok [OF system_okD(1) [OF ok]]] by auto
  from put_agent_settled [OF norm schema this same] show ?thesis by blast
qed

lemma new_prompt_simps [simp]:
  "p_namespace (new_prompt ns ag pr sch pid v t) = ns" "p_id (new_prompt ns ag pr sch pid v t) = pid"
  "p_prompt (new_prompt ns ag pr sch pid v t) = pr" "p_schema (new_prompt ns ag pr sch pid v t) = sch"
  "p_agent (new_prompt ns ag pr sch pid v t) = ag" "p_version (new_prompt ns ag pr sch pid v t) = v"
  by (simp_all add: new_prompt_def)

lemma prompt_or_default_idem [simp]: "prompt_or_default (prompt_or_default p) = prompt_or_default p"
  "trim_space (prompt_or_default p) = prompt_or_default p"
proof -
  have "trim_space default_prompt = default_prompt" by code_simp
  then show "trim_space (prompt_or_default p) = prompt_or_default p" by (simp add: prompt_or_default_def)
  then show "prompt_or_default (prompt_or_default p) = prompt_or_default p"
    by (metis prompt_or_default_def)
qed

lemma put_agent_again:
  assumes ok: "system_ok s" and put: "put_agent mkdir now ga gp p s = (Inr x, s')"
    and whole: "whole_millis p" and ids: "\<not> blank (ca_agent p)" "\<not> blank gp"
  shows "\<exists>x. put_agent mkdir now' ga' gp' p s' = (Inr \<lparr>put_value = x, put_created = False, put_updated = False\<rparr>, s')"
proof -
  from put_agent_ok [OF ok put] have ok': "system_ok s'" .
  then have sok': "store_ok s'" by auto
  from put show ?thesis
  proof (cases rule: put_agent_cases)
    case (created q config)
    note n = normalize_Inr [OF created(1)]
    from n(9) [OF ids(1)] have norm: "normalize_create_agent_params mkdir ga' p = Inr (q, config)" .
    from n(8) ids(1) have "normalize_create_agent_params mkdir ga q = Inr (q, config)" by (intro n(7)) simp
    with created(3) obtain schema where schema: "marshal_optional_envelope ''agent_action_schema'' (ca_schema q) = Some schema"
      and "create_agent_tx q config schema gp now s = Inr (put_value x, s')"
      by (auto simp: create_agent_def run_tx_Inr split: option.splits)
    from create_agent_tx_Inr [OF this(2)] obtain row where row: "row = new_agent to_duration_millis to_millis q config gp now"
      and key: "a_key row = (ca_namespace q, ca_agent q)" "a_prompt_version row = gp"
      and s': "s' = s\<lparr>agents := agents s @ [row], prompts := prompts s @
          [\<lparr>p_namespace = ca_namespace q, p_id = gp, p_agent = ca_agent q, p_version = 1,
            p_prompt = prompt_or_default (ca_prompt q), p_schema = schema, p_created = to_millis now\<rparr>]\<rparr>"
      by blast
    from whole n have "\<not> agent_differs q config (ra_record (scan_runnable_agent s' row))"
      unfolding row by (intro new_agent_settled) auto
    moreover have "\<not> prompt_stale q schema (scan_runnable_agent s' row) s'"
      by (rule shows_prompt(2) [OF sok', where r = "last (prompts s')"])
        (use key ids(2) in \<open>auto simp: s' a_key_def\<close>)
    moreover have "row \<in> set (agents s')" by (simp add: s')
    ultimately show ?thesis using put_agent_settled_row [OF ok' norm schema _ key(1)] by blast
  next
    case (existing q config schema old)
    note n = normalize_Inr [OF existing(1)]
    from n(9) [OF ids(1)] have norm: "normalize_create_agent_params mkdir ga' p = Inr (q, config)" .
    let ?s1 = "reconciled q config now old s"
    let ?c = "\<lambda>a. a_namespace a = ca_namespace q \<and> a_id a = ca_agent q"
    from existing(3) obtain a where a: "a \<in> set (agents s)" "a_key a = (ca_namespace q, ca_agent q)"
      and old: "old = scan_runnable_agent s a"
      using get_agent_Inr [OF mailbox_ok_store_ok [OF system_okD(1) [OF ok]]] by auto
    define b where "b = (if agent_differs q config (ra_record old) then agent_columns q config now a else a)"
    from a have b: "b \<in> set (agents ?s1)" "a_key b = (ca_namespace q, ca_agent q)" "a_prompt_version b = a_prompt_version a"
      by (auto simp: b_def reconciled_def set_update_where image_iff a_key_def intro: bexI [of _ a])
    have same: "\<not> agent_differs q config (ra_record (scan_runnable_agent t b))" for t
      using agent_columns_settled [of q config t now a] whole n(6) old
      by (auto simp: b_def) (simp_all add: scan_runnable_agent_def agent_differs_def)
    have pr: "prompts (reconciled q config now y s) = prompts s" for y by (simp add: reconciled_def)
    from existing(4) show ?thesis
    proof (elim disjE exE conjE)
      assume st: "\<not> prompt_stale q schema old ?s1" and s': "s' = ?s1"
      from b(3) have "ra_prompt (scan_runnable_agent ?s1 b) = ra_prompt old"
        "a_prompt_version (ra_record (scan_runnable_agent ?s1 b)) = a_prompt_version (ra_record old)"
        using a(2) b(2) by (auto simp: scan_runnable_agent_def pr old a_key_def)
      with st have "\<not> prompt_stale q schema (scan_runnable_agent s' b) s'" by (simp add: prompt_stale_def s')
      with put_agent_settled_row [OF ok' norm existing(2) _ b(2)] same b(1) s' show ?thesis by blast
    next
      fix u
      assume "update_agent_prompt now gp (ca_namespace q) (ca_agent q) (prompt_or_default (ca_prompt q))
          (ca_schema q) ?s1 = (u, s')" and "\<forall>y. Inr x = Inr y \<longrightarrow> (\<exists>v. u = Inr v)"
      then obtain v where "update_agent_prompt_tx (ca_namespace q) (ca_agent q) (prompt_or_default (ca_prompt q))
          schema gp now ?s1 = Inr (v, s')"
        using existing(2) by (auto simp: update_agent_prompt_def run_tx_Inr split: if_splits)
      note u = update_agent_prompt_tx_Inr [OF this]
      let ?d = "b\<lparr>a_prompt_version := gp, a_updated := to_millis now\<rparr>"
      from b have d: "?d \<in> set (agents s')" "a_key ?d = (ca_namespace q, ca_agent q)"
        by (auto simp: u(5) set_update_where image_iff a_key_def intro: bexI [of _ b])
      have "\<not> prompt_stale q schema (scan_runnable_agent s' ?d) s'"
        by (rule shows_prompt(2) [OF sok' d(1), where r = "last (prompts s')"])
          (use d ids(2) in \<open>auto simp: u(5) a_key_def\<close>)
      moreover have "\<not> agent_differs q config (ra_record (scan_runnable_agent s' ?d))"
        using same [of s'] by (simp add: scan_runnable_agent_def agent_differs_def)
      ultimately show ?thesis using put_agent_settled_row [OF ok' norm existing(2) d] by blast
    qed
  qed simp
qed

text \<open>What a new prompt version changes for readers of the agent.\<close>

lemma update_prompt_effect:
  assumes ok: "system_ok s" and upd: "update_agent_prompt now gp ns ag prompt schema s = (Inr r, s')"
  shows "p_version r = next_prompt_version ns ag s" and "length (prompts s') = length (prompts s) + 1"
    and "\<exists>a. get_agent ns ag s' = Inr a \<and> ra_prompt a = trim_space prompt \<and> a_prompt_version (ra_record a) = gp"
    and "set (prompts s) \<subseteq> set (prompts s')"
proof -
  from upd obtain sch where tx: "update_agent_prompt_tx ns ag (trim_space prompt) sch gp now s = Inr (r, s')"
    by (auto simp: update_agent_prompt_def elim!: run_tx_cases split: if_splits option.splits)
  note e = update_agent_prompt_tx_Inr [OF tx]
  have ok': "store_ok s'" using update_agent_prompt_tx_ok [OF ok tx] by auto
  show "p_version r = next_prompt_version ns ag s" by (simp add: e(3))
  show "length (prompts s') = length (prompts s) + 1" "set (prompts s) \<subseteq> set (prompts s')" by (auto simp: e(5))
  from e(1) obtain a where a: "a \<in> set (agents s)" "a_key a = (ns, ag)" by auto
  let ?a = "a\<lparr>a_prompt_version := gp, a_updated := to_millis now\<rparr>"
  have a': "?a \<in> set (agents s')"
    using a by (auto simp: e(5) set_update_where a_key_def image_iff intro!: bexI [of _ a])
  have "find (\<lambda>x. p_namespace x = ns \<and> p_id x = gp) (prompts s') =
      Some (new_prompt ns ag (trim_space prompt) sch gp (next_prompt_version ns ag s) (to_millis now))"
    using find_prompt [OF ok', of "new_prompt ns ag (trim_space prompt) sch gp (next_prompt_version ns ag s) (to_millis now)"]
    by (simp add: e(5))
  with a' a(2) show "\<exists>a. get_agent ns ag s' = Inr a \<and> ra_prompt a = trim_space prompt \<and> a_prompt_version (ra_record a) = gp"
    unfolding get_agent_Inr [OF ok']
    by (intro exI [of _ "scan_runnable_agent s' ?a"]) (auto simp: scan_runnable_agent_def a_key_def intro!: bexI [of _ ?a])
qed

lemma delete_agent_effect:
  assumes "delete_agent ns ag s = (Inr (), s')"
  shows "(ns, ag) \<notin> a_key ` set (agents s')"
    and "set (messages s') = {m \<in> set (messages s). m_agent m \<noteq> (ns, ag)}"
    and "set (schedules s') = {c \<in> set (schedules s). s_owner c \<noteq> (ns, ag)}"
    and "set (prompts s') = {r \<in> set (prompts s). p_owner r \<noteq> (ns, ag)}"
    and "\<forall>r \<in> set (runs s'). r_agent_key r \<noteq> (ns, ag)"
proof -
  from assms have s': "s' = delete_agents (\<lambda>a. a_namespace a = ns \<and> a_id a = ag) s"
    and "rows_affected (\<lambda>a. a_namespace a = ns \<and> a_id a = ag) (agents s) \<noteq> 0"
    by (auto simp: delete_agent_def Let_def split: if_splits)
  then have gone: "a_key ` {a \<in> set (agents s). a_namespace a = ns \<and> a_id a = ag} = {(ns, ag)}"
    by (auto simp: a_key_def rows_affected_def filter_empty_conv image_iff)
  note cols = delete_agents_columns [of "\<lambda>a. a_namespace a = ns \<and> a_id a = ag" s, folded s', unfolded gone]
  show "(ns, ag) \<notin> a_key ` set (agents s')" by (auto simp: cols(1) a_key_def)
  show "set (messages s') = {m \<in> set (messages s). m_agent m \<noteq> (ns, ag)}"
    "set (schedules s') = {c \<in> set (schedules s). s_owner c \<noteq> (ns, ag)}"
    "set (prompts s') = {r \<in> set (prompts s). p_owner r \<noteq> (ns, ag)}"
    "\<forall>r \<in> set (runs s'). r_agent_key r \<noteq> (ns, ag)"
    by (auto simp: cols(2-5))
qed

end
