(* ===== verification/StoreSystem.thy ===== *)
theory StoreSystem
  imports AgentLaws
begin

text \<open>
  The store as a state machine: every exported operation of \<open>pkg/server/store\<close> that writes is a rule
  of one step relation, for any arguments, clock readings and generated identifiers. Lemmas about all
  histories (the invariants, the exclusion a lease gives, what an attempt count counts) are by
  induction on it.
\<close>

section \<open>Steps\<close>

text \<open>What an observer sees of a step: claims with their result, completions and deletions.\<close>

datatype store_event =
    Claimed go_time "(message \<times> run_row) option"
  | Settled "string \<times> string"
  | Deleted "string \<times> string"
  | Other

inductive store_step ::
    "cron_lib \<Rightarrow> (string \<Rightarrow> bool) \<Rightarrow> store_event \<Rightarrow> store \<Rightarrow> store \<Rightarrow> bool"
  for lib :: cron_lib and mkdir :: "string \<Rightarrow> bool" where
  step_create_namespace: "create_namespace now g cn s = (rn, s') \<Longrightarrow> store_step lib mkdir Other s s'"
| step_put_namespace: "put_namespace now g cn s = (rpn, s') \<Longrightarrow> store_step lib mkdir Other s s'"
| step_create_agent: "create_agent mkdir now g g2 ca s = (ra, s') \<Longrightarrow> store_step lib mkdir Other s s'"
| step_put_agent: "put_agent mkdir now g g2 ca s = (rpa, s') \<Longrightarrow> store_step lib mkdir Other s s'"
| step_update_prompt: "update_agent_prompt now g ns ag pr sch s = (rp, s') \<Longrightarrow> store_step lib mkdir Other s s'"
| step_update_state: "update_agent_desired_state now ns ag st s = (ru, s') \<Longrightarrow> store_step lib mkdir Other s s'"
| step_delete_agent: "delete_agent ns ag s = (ru, s') \<Longrightarrow> store_step lib mkdir (Deleted (ns, ag)) s s'"
| step_delete_schedules: "delete_schedules_by_agent ns ag s = (n, s') \<Longrightarrow> store_step lib mkdir Other s s'"
| step_create_schedule: "create_schedule lib now g cs s = (rc, s') \<Longrightarrow> store_step lib mkdir Other s s'"
| step_disable_schedule: "disable_schedule now ns sid s = (ru, s') \<Longrightarrow> store_step lib mkdir Other s s'"
| step_fire: "fire_once lib now ids limit s = Some (rf, s') \<Longrightarrow> store_step lib mkdir Other s s'"
| step_enqueue: "enqueue_message now g cp s = (rm, s') \<Longrightarrow> store_step lib mkdir Other s s'"
| step_claim: "claim_next_message cl clock ids s = (rc2, s') \<Longrightarrow>
    store_step lib mkdir (Claimed (clock 0) (case rc2 of Inl e \<Rightarrow> None | Inr c \<Rightarrow> Some c)) s s'"
| step_record: "record_step t s = (ru, s') \<Longrightarrow> store_step lib mkdir Other s s'"
| step_complete: "complete_run now ids co s = (ru, s') \<Longrightarrow>
    store_step lib mkdir (Settled (co_namespace co, co_message co)) s s'"

definition reachable_store :: "cron_lib \<Rightarrow> (string \<Rightarrow> bool) \<Rightarrow> store \<Rightarrow> bool" where
  "reachable_store lib mkdir s \<longleftrightarrow> (\<exists>owner es. path (store_step lib mkdir) es (empty_store owner) s)"

section \<open>The invariant of all histories\<close>

lemma system_ok_frame:
  "system_ok s \<Longrightarrow> mailbox_ok s' \<Longrightarrow> prompts s' = prompts s \<Longrightarrow> agents s' = agents s \<Longrightarrow> system_ok s'"
  by (auto simp: system_ok_def intro: prompts_ok_frame [of _ s])

text \<open>The operations on messages, runs and schedules leave agents and prompt versions alone.\<close>

lemma enqueue_tx_agents: "enqueue_message_tx now g p s = Inr (m, s') \<Longrightarrow> prompts s' = prompts s \<and> agents s' = agents s"
  by (auto elim!: enqueue_message_tx_Inr)

lemma enqueue_agents: "enqueue_message now g p s = (r, s') \<Longrightarrow> prompts s' = prompts s \<and> agents s' = agents s"
  by (auto simp: enqueue_message_def elim!: run_tx_cases dest: enqueue_tx_agents split: if_splits)

lemma outbox_agents: "enqueue_outbox now ids i ps s = Inr s' \<Longrightarrow> prompts s' = prompts s \<and> agents s' = agents s"
  by (induction now ids i ps s rule: enqueue_outbox.induct) (auto split: sum.splits dest: enqueue_tx_agents)

lemma claim_agents:
  assumes "store_ok s" and "claim_next_message p clock ids s = (r, s')"
  shows "prompts s' = prompts s \<and> agents s' = agents s"
  using assms by (cases rule: claim_next_message_cases) (auto simp: claimed_store_def)

lemma record_agents: "record_step t s = (r, s') \<Longrightarrow> prompts s' = prompts s \<and> agents s' = agents s"
  by (auto simp: record_step_def insert_step_Inr split: if_splits sum.splits)

lemma complete_agents:
  assumes "complete_run now ids p s = (r, s')"
  shows "prompts s' = prompts s \<and> agents s' = agents s"
  using assms by (cases rule: complete_run_cases) (auto dest: outbox_agents simp: settled_store_def)

lemma create_schedule_agents:
  "create_schedule lib now g p s = (r, s') \<Longrightarrow>
     prompts s' = prompts s \<and> agents s' = agents s \<and> messages s' = messages s \<and> runs s' = runs s"
  by (auto simp: create_schedule_def Let_def insert_schedule_Inr split: if_splits option.splits sum.splits)

lemma disable_schedule_agents:
  "disable_schedule now ns sid s = (r, s') \<Longrightarrow>
     prompts s' = prompts s \<and> agents s' = agents s \<and> messages s' = messages s \<and> runs s' = runs s"
  by (auto simp: disable_schedule_def Let_def split: if_splits)

lemma fire_agents:
  assumes "fire_schedule lib now tid mid c s = Some (r, s')"
  shows "prompts s' = prompts s \<and> agents s' = agents s"
  using assms by (cases rule: fire_schedule_cases) (auto dest: enqueue_tx_agents)

text \<open>What holds between the states of each firing, and is reflexive and transitive, holds for a poll.\<close>

lemma fire_all_rel:
  assumes step: "\<And>tid mid c s r s'. fire_schedule lib now tid mid c s = Some (r, s') \<Longrightarrow> R s s'"
    and refl: "\<And>s. R s s" and trans: "\<And>a b c. R a b \<Longrightarrow> R b c \<Longrightarrow> R a c"
  shows "fire_all lib now ids i cs s = Some (r, s') \<Longrightarrow> R s s'"
proof (induction cs arbitrary: i s r)
  case (Cons c cs)
  from Cons.prems obtain x s1 where
    fire: "fire_schedule lib now (ids (2 * i)) (ids (2 * i + 1)) c s = Some (x, s1)"
    by (auto split: option.splits)
  show ?case
  proof (cases x)
    case (Inl e)
    with Cons.prems fire step [OF fire] show ?thesis by simp
  next
    case (Inr m)
    with Cons.prems fire obtain x2 where "fire_all lib now ids (Suc i) cs s1 = Some (x2, s')"
      by (auto split: option.splits sum.splits)
    from Cons.IH [OF this] step [OF fire] show ?thesis by (rule trans [rotated])
  qed
qed (simp add: refl)

lemma fire_all_agents:
  "fire_all lib now ids i cs s = Some (r, s') \<Longrightarrow> prompts s' = prompts s \<and> agents s' = agents s"
  by (rule fire_all_rel [where R = "\<lambda>s s'. prompts s' = prompts s \<and> agents s' = agents s"])
    (simp_all add: fire_agents)

lemma fire_once_all: "fire_once lib now ids n s = fire_all lib now ids 0 (due_schedules now (if n \<le> 0 then 32 else n) s) s"
  by (simp add: fire_once_def fire_due_schedules_def)

lemma step_system_ok:
  assumes "store_step lib mkdir e s s'" and "system_ok s"
  shows "system_ok s'"
  using assms
proof (induction rule: store_step.induct)
  case (step_claim cl clock ids s rc2 s')
  then have "store_ok s" "mailbox_ok s" by auto
  with step_claim show ?case
    by (metis claim_agents claim_next_message_ok system_ok_frame)
next
  case (step_fire now ids limit s rf s')
  then have "mailbox_ok s'" by (auto simp: fire_once_all intro: fire_all_ok)
  with step_fire fire_all_agents show ?case by (metis fire_once_all system_ok_frame)
next
  case (step_create_schedule now g cs s rc s')
  then have "mailbox_ok s'" by (auto intro: create_schedule_ok)
  with step_create_schedule show ?case by (metis create_schedule_agents system_ok_frame)
next
  case (step_disable_schedule now ns sid s ru s')
  then have "mailbox_ok s'" by (auto intro: disable_schedule_ok)
  with step_disable_schedule show ?case by (metis disable_schedule_agents system_ok_frame)
next
  case (step_enqueue now g cp s rm s')
  then have "mailbox_ok s'" by (auto intro: enqueue_message_ok)
  with step_enqueue show ?case by (metis enqueue_agents system_ok_frame)
next
  case (step_record t s ru s')
  then have "mailbox_ok s'" by (auto intro: record_step_ok)
  with step_record show ?case by (metis record_agents system_ok_frame)
next
  case (step_complete now ids co s ru s')
  then have "mailbox_ok s'" by (auto intro: complete_run_ok)
  with step_complete show ?case by (metis complete_agents system_ok_frame)
qed (auto intro: create_namespace_ok put_namespace_ok create_agent_ok put_agent_ok update_agent_prompt_ok
      update_agent_desired_state_ok delete_agent_ok delete_schedules_ok)

interpretation store_sys: invariant_system "store_step lib mkdir" system_ok for lib mkdir
  by unfold_locales (rule step_system_ok)

lemma empty_system_ok [simp]: "system_ok (empty_store owner)"
  by (simp add: system_ok_def mailbox_ok_def prompts_ok_def) (simp add: empty_store_def)

lemma reachable_system_ok: "reachable_store lib mkdir s \<Longrightarrow> system_ok s"
  by (auto simp: reachable_store_def intro: store_sys.path_inv)

section \<open>Operations that leave messages and runs alone\<close>

lemma create_namespace_frame: "create_namespace now g p s = (r, s') \<Longrightarrow> messages s' = messages s \<and> runs s' = runs s"
  by (auto simp: create_namespace_def Let_def insert_namespace_Inr split: option.splits sum.splits if_splits)

lemma put_namespace_frame: "put_namespace now g p s = (r, s') \<Longrightarrow> messages s' = messages s \<and> runs s' = runs s"
  by (auto simp: put_namespace_def Let_def dest: create_namespace_frame
      split: option.splits sum.splits if_splits prod.splits)

lemma create_agent_frame: "create_agent mkdir now ga gp p s = (r, s') \<Longrightarrow> messages s' = messages s \<and> runs s' = runs s"
  by (auto simp: create_agent_def elim!: run_tx_cases create_agent_tx_Inr split: sum.splits option.splits prod.splits)

lemma update_prompt_frame:
  "update_agent_prompt now gp ns ag pr sch s = (r, s') \<Longrightarrow> messages s' = messages s \<and> runs s' = runs s"
  by (auto simp: update_agent_prompt_def elim!: run_tx_cases dest: update_agent_prompt_tx_Inr(5)
      split: if_splits option.splits)

lemma update_state_frame:
  "update_agent_desired_state now ns ag st s = (r, s') \<Longrightarrow> messages s' = messages s \<and> runs s' = runs s"
  by (auto simp: update_agent_desired_state_def Let_def split: if_splits)

lemma put_agent_frame:
  assumes "put_agent mkdir now ga gp p s = (r, s')"
  shows "messages s' = messages s \<and> runs s' = runs s"
proof -
  have rec: "messages (reconciled q c t old s) = messages s \<and> runs (reconciled q c t old s) = runs s" for q c t old
    by (simp add: reconciled_def)
  from assms show ?thesis
  proof (cases rule: put_agent_cases)
    case (existing q config schema old)
    with rec [of q config now old] show ?thesis
      by (elim disjE exE conjE) (auto dest: update_prompt_frame)
  qed (auto dest: create_agent_frame)
qed

lemma delete_schedules_frame:
  "delete_schedules_by_agent ns ag s = (n, s') \<Longrightarrow> messages s' = messages s \<and> runs s' = runs s"
  by (auto simp: delete_schedules_by_agent_def Let_def)

section \<open>Operations that only append queued messages\<close>

definition appends :: "store \<Rightarrow> store \<Rightarrow> bool" where
  "appends s s' \<longleftrightarrow> runs s' = runs s \<and>
     (\<exists>new. messages s' = messages s @ new \<and> (\<forall>m \<in> set new. m_status m = Queued \<and> m_attempts m = 0))"

lemma appends_refl: "messages s' = messages s \<and> runs s' = runs s \<Longrightarrow> appends s s'"
  by (simp add: appends_def)

lemma appends_trans: "appends a b \<Longrightarrow> appends b c \<Longrightarrow> appends a c"
  unfolding appends_def by (metis append.assoc UnE set_append)

lemma appends_mem: "appends s s' \<Longrightarrow> set (messages s) \<subseteq> set (messages s')"
  by (auto simp: appends_def)

lemma enqueue_tx_appends: "enqueue_message_tx now g p s = Inr (m, s') \<Longrightarrow> appends s s'"
  by (erule enqueue_message_tx_Inr) (simp add: appends_def new_message_def)

lemma enqueue_appends: "enqueue_message now g p s = (r, s') \<Longrightarrow> appends s s'"
  by (auto simp: enqueue_message_def appends_refl elim!: run_tx_cases dest: enqueue_tx_appends split: if_splits)

lemma outbox_appends: "enqueue_outbox now ids i ps s = Inr s' \<Longrightarrow> appends s s'"
proof (induction now ids i ps s rule: enqueue_outbox.induct)
  case (2 now ids i p ps s)
  from "2.prems" obtain m s1 where enq: "enqueue_message_tx now (ids i) p s = Inr (m, s1)"
    and rest: "enqueue_outbox now ids (Suc i) ps s1 = Inr s'"
    by (auto split: sum.splits)
  from enqueue_tx_appends [OF enq] "2.IH" [OF enq refl rest] show ?case by (rule appends_trans)
qed (simp add: appends_refl)

lemma fire_appends:
  assumes "fire_schedule lib now tid mid c s = Some (r, s')"
  shows "appends s s'"
  using assms
proof (cases rule: fire_schedule_cases)
  case (fired due zone nxt nf payload m)
  from enqueue_tx_appends [OF fired(8)] show ?thesis by (simp add: appends_def)
qed (simp_all add: appends_refl)

lemma fire_once_appends: "fire_once lib now ids n s = Some (r, s') \<Longrightarrow> appends s s'"
  unfolding fire_once_all
  by (rule fire_all_rel [where R = appends]) (auto intro: fire_appends appends_refl appends_trans)

section \<open>A lease excludes everybody else\<close>

text \<open>
  The events that leave the leased row \<open>m\<close> alone while its lease lasts: claims before the expiry,
  completions of other messages and deletions of other agents.
\<close>

fun spares :: "message \<Rightarrow> int \<Rightarrow> store_event \<Rightarrow> bool" where
  "spares m expiry (Claimed t c) \<longleftrightarrow> to_millis t < expiry"
| "spares m expiry (Settled k) \<longleftrightarrow> k \<noteq> m_key m"
| "spares m expiry (Deleted k) \<longleftrightarrow> k \<noteq> m_agent m"
| "spares m expiry Other \<longleftrightarrow> True"

lemma step_keeps_leased:
  assumes "store_step lib mkdir e s s'" and "system_ok s" and "m \<in> set (messages s)"
    and "m_status m = Leased" and "m_lease_expires m = Some expiry" and "spares m expiry e"
  shows "m \<in> set (messages s')"
  using assms
proof (induction rule: store_step.induct)
  case (step_claim cl clock ids s rc2 s')
  then have "store_ok s" "\<not> lease_free (to_millis (clock 0)) m" by (auto simp: leased_not_free)
  with step_claim show ?case by (metis claim_next_message_frame)
next
  case (step_complete now ids co s ru s')
  then show ?case by (auto intro: complete_run_frame)
next
  case (step_delete_agent ns ag s ru s')
  then have "m \<in> set (messages (delete_agents (\<lambda>a. a_namespace a = ns \<and> a_id a = ag) s))"
    by (auto simp: delete_agents_columns a_key_def)
  with step_delete_agent show ?case by (auto simp: delete_agent_def Let_def split: if_splits)
next
  case (step_fire now ids limit s rf s')
  with appends_mem [OF fire_once_appends] show ?case by blast
next
  case (step_enqueue now g cp s rm s')
  with appends_mem [OF enqueue_appends] show ?case by blast
next
  case (step_record t s ru s')
  then show ?case using record_step_frame by metis
qed (metis create_namespace_frame put_namespace_frame create_agent_frame put_agent_frame update_prompt_frame
      update_state_frame delete_schedules_frame create_schedule_agents disable_schedule_agents)+

text \<open>A row under a lease that runs until the given time.\<close>

definition under_lease :: "message \<times> int \<Rightarrow> store \<Rightarrow> bool" where
  "under_lease x s \<longleftrightarrow>
     fst x \<in> set (messages s) \<and> m_status (fst x) = Leased \<and> m_lease_expires (fst x) = Some (snd x)"

interpretation lease: stable_system "store_step lib mkdir" system_ok under_lease "\<lambda>x. spares (fst x) (snd x)"
  for lib mkdir
  by unfold_locales (auto simp: under_lease_def intro: step_keeps_leased)

lemma claim_other_message:
  assumes "store_step lib mkdir (Claimed t (Some (m', r'))) s s'" and "system_ok s"
    and "m \<in> set (messages s)" and "m_status m = Leased" and "m_lease_expires m = Some expiry"
    and "to_millis t < expiry"
  shows "m_key m' \<noteq> m_key m"
  using assms(1)
proof (cases rule: store_step.cases)
  case (step_claim cl clock ids rc2)
  then have eq: "claim_next_message cl clock ids s = (Inr (m', r'), s')" "t = clock 0"
    by (simp_all split: sum.splits)
  from assms(2) have sok: "store_ok s" by auto
  from sok eq(1) show ?thesis
  proof (cases rule: claim_next_message_cases)
    case (claimed row prompt)
    then have key: "m_key m' = m_key row" and free: "lease_free (to_millis t) row"
      by (simp_all add: m_key_def claimable_def eq(2))
    show ?thesis
    proof
      assume "m_key m' = m_key m"
      then have "m = row" using key message_rows.row_unique [OF sok assms(3) claimed(3)] by simp
      with free leased_not_free [OF assms(4-6)] show False by simp
    qed
  qed simp
qed

section \<open>What the attempt count counts\<close>

text \<open>
  The attempt count of a message is the number of runs opened for it, and a run is for the recipient
  of its message.
\<close>

definition runs_of :: "store \<Rightarrow> string \<times> string \<Rightarrow> nat" where
  "runs_of s k = length (filter (\<lambda>r. r_message_key r = k) (runs s))"

definition history_ok :: "store \<Rightarrow> bool" where
  "history_ok s \<longleftrightarrow>
     (\<forall>m \<in> set (messages s). m_attempts m = int (runs_of s (m_key m))) \<and>
     (\<forall>r \<in> set (runs s). (r_message_key r, r_agent_key r) \<in> (\<lambda>m. (m_key m, m_agent m)) ` set (messages s))"

lemma history_ok_frame: "messages s' = messages s \<and> runs s' = runs s \<Longrightarrow> history_ok s \<Longrightarrow> history_ok s'"
  by (simp add: history_ok_def runs_of_def)

lemma history_ok_appends:
  assumes "history_ok s" and "appends s s'" and "store_ok s'"
  shows "history_ok s'"
proof -
  from assms(2) obtain new where new: "messages s' = messages s @ new" "runs s' = runs s"
    "\<forall>m \<in> set new. m_attempts m = 0" by (auto simp: appends_def)
  have "r_message_key r \<noteq> m_key m" if "m \<in> set new" "r \<in> set (runs s)" for m r
  proof -
    from assms(1) that(2) have "r_message_key r \<in> m_key ` set (messages s)" by (auto simp: history_ok_def)
    moreover from store_ok_distinct(5) [OF assms(3)] that(1) new(1) have "m_key m \<notin> m_key ` set (messages s)"
      by auto
    ultimately show ?thesis by auto
  qed
  then have "runs_of s (m_key m) = 0" if "m \<in> set new" for m
    using that by (auto simp: runs_of_def filter_empty_conv)
  with assms(1) new show ?thesis by (auto simp: history_ok_def runs_of_def)
qed

lemma history_ok_claimed:
  assumes "history_ok s" and "store_ok s" and row: "row \<in> set (messages s)"
    and cl: "claimable (cl_namespace p) (cl_agent p) t row"
  shows "history_ok (claimed_store p now rid prompt row s)"
proof -
  let ?s = "claimed_store p now rid prompt row s"
  let ?run = "new_run p rid (m_id row) prompt (to_millis now)"
  from cl have keys: "r_message_key ?run = m_key row" "r_agent_key ?run = m_agent row"
    by (auto simp: claimable_def key_defs new_run_def)
  have cnt: "runs_of ?s k = runs_of s k + (if k = m_key row then 1 else 0)" for k
    using keys by (auto simp: claimed_store_def runs_of_def)
  have "m_attempts m = int (runs_of ?s (m_key m))" if "m \<in> set (messages ?s)" for m
    using that assms(1) unfolding cnt
    by (auto simp: claimed_store_def set_update_where history_ok_def)
  moreover have "(\<lambda>m. (m_key m, m_agent m)) ` set (messages ?s) = (\<lambda>m. (m_key m, m_agent m)) ` set (messages s)"
    by (simp add: claimed_store_def)
  ultimately show ?thesis
    using assms(1) keys row by (auto simp: history_ok_def claimed_store_def)
qed

lemma history_ok_settled:
  assumes "history_ok s"
  shows "history_ok (settled_store now p v s)"
proof -
  let ?s = "settled_store now p v s"
  have "runs_of ?s k = runs_of s k" for k
    by (simp add: runs_of_def settled_store_def update_where_def filter_map o_def if_distrib cong: if_cong)
  moreover have "(\<lambda>m. (m_key m, m_agent m)) ` set (messages ?s) = (\<lambda>m. (m_key m, m_agent m)) ` set (messages s)"
    "(\<lambda>r. (r_message_key r, r_agent_key r)) ` set (runs ?s) = (\<lambda>r. (r_message_key r, r_agent_key r)) ` set (runs s)"
    by (simp_all add: settled_store_def)
  moreover have "m_attempts m = int (runs_of s (m_key m))" if "m \<in> set (messages ?s)" for m
    using that assms by (auto simp: settled_store_def set_update_where history_ok_def)
  ultimately show ?thesis using assms unfolding history_ok_def by (metis (no_types, lifting) image_eqI imageE)
qed

lemma history_ok_deleted:
  assumes ok: "history_ok s" and sok: "store_ok s"
  shows "history_ok (delete_agents cond s)"
proof -
  let ?gone = "a_key ` {a \<in> set (agents s). cond a}"
  let ?kept = "{m \<in> set (messages s). m_agent m \<notin> ?gone}"
  let ?s = "delete_agents cond s"
  have runs: "runs ?s = filter (\<lambda>r. r_agent_key r \<notin> ?gone \<and> r_message_key r \<in> m_key ` ?kept) (runs s)"
    by (simp add: delete_agents_def Let_def)
  have msg: "\<exists>m \<in> set (messages s). r_message_key r = m_key m \<and> r_agent_key r = m_agent m"
    if "r \<in> set (runs s)" for r
    using ok that by (auto simp: history_ok_def)
  have "(r_message_key r, r_agent_key r) \<in> (\<lambda>m. (m_key m, m_agent m)) ` ?kept"
    if r: "r \<in> set (runs ?s)" for r
  proof -
    from r have "r \<in> set (runs s)" by (simp add: runs)
    from msg [OF this] obtain m where "m \<in> set (messages s)" "r_message_key r = m_key m" "r_agent_key r = m_agent m"
      by blast
    with r show ?thesis by (intro image_eqI [of _ _ m]) (simp_all add: runs)
  qed
  moreover have "m_attempts m = int (runs_of ?s (m_key m))" if m: "m \<in> ?kept" for m
  proof -
    have "r_agent_key r \<notin> ?gone \<and> r_message_key r \<in> m_key ` ?kept"
      if r: "r \<in> set (runs s)" "r_message_key r = m_key m" for r
    proof -
      from msg [OF r(1)] obtain m' where m': "m' \<in> set (messages s)" "r_message_key r = m_key m'" "r_agent_key r = m_agent m'"
        by blast
      from message_rows.row_unique [OF sok m'(1)] m r(2) m'(2) have "m' = m" by simp
      with m m' show ?thesis by simp
    qed
    then have "filter (\<lambda>r. r_message_key r = m_key m) (runs ?s) = filter (\<lambda>r. r_message_key r = m_key m) (runs s)"
      unfolding runs filter_filter by (intro filter_cong) auto
    with ok m show ?thesis by (simp add: history_ok_def runs_of_def)
  qed
  ultimately show ?thesis by (simp add: history_ok_def delete_agents_columns(3))
qed

lemma step_history_ok:
  assumes "store_step lib mkdir e s s'" and "system_ok s" and "history_ok s"
  shows "history_ok s'"
proof -
  from step_system_ok [OF assms(1,2)] have sok: "store_ok s'" by auto
  from assms sok show ?thesis
  proof (induction rule: store_step.induct)
    case (step_claim cl clock ids s rc2 s')
    then have "store_ok s" by auto
    from this step_claim.hyps show ?case
      by (cases rule: claim_next_message_cases) (use step_claim.prems \<open>store_ok s\<close> in \<open>auto intro: history_ok_claimed\<close>)
  next
    case (step_complete now ids co s ru s')
    from step_complete.hyps show ?case
    proof (cases rule: complete_run_cases)
      case (settled body)
      from history_ok_appends [OF history_ok_settled [OF step_complete.prems(2)] outbox_appends [OF settled(8)]]
        step_complete.prems show ?thesis by blast
    qed (use step_complete.prems in simp)
  next
    case (step_delete_agent ns ag s ru s')
    then show ?case
      using history_ok_deleted [of s "\<lambda>a. a_namespace a = ns \<and> a_id a = ag"] mailbox_ok_store_ok [of s]
      by (auto simp: delete_agent_def Let_def split: if_splits)
  next
    case (step_fire now ids limit s rf s')
    then show ?case using history_ok_appends fire_once_appends by blast
  next
    case (step_enqueue now g cp s rm s')
    then show ?case using history_ok_appends enqueue_appends by blast
  next
    case (step_record t s ru s')
    then show ?case using record_step_frame history_ok_frame by metis
  qed (metis history_ok_frame create_namespace_frame put_namespace_frame create_agent_frame put_agent_frame
      update_prompt_frame update_state_frame delete_schedules_frame create_schedule_agents disable_schedule_agents)+
qed

interpretation history: invariant_system "store_step lib mkdir" "\<lambda>s. system_ok s \<and> history_ok s" for lib mkdir
  by unfold_locales (auto intro: step_system_ok step_history_ok)

lemma reachable_history_ok: "reachable_store lib mkdir s \<Longrightarrow> history_ok s"
proof -
  have "history_ok (empty_store owner)" for owner by (simp add: history_ok_def empty_store_def)
  then show "reachable_store lib mkdir s \<Longrightarrow> ?thesis"
    using history.path_inv by (auto simp: reachable_store_def)
qed

end
