(* ===== verification/DispatchLaws.thy ===== *)
theory DispatchLaws
  imports Dispatch StoreSystem
begin

text \<open>
  Lemmas on the path of a message through queue, agent and persister: the trigger of a claim leads
  back to its message and run unless the sender says otherwise, a failed result retries until the
  attempts are used up, and every handler keeps the invariant of the store.
\<close>

section \<open>The trigger of a claim\<close>

lemma claimed_payload:
  assumes "store_ok s" and "claim_next_message p clock ids s = (Inr (m, r), s')"
  obtains v where "decode_envelope_any (m_payload m) = Some v"
  using assms
proof (cases rule: claim_next_message_cases)
  case (claimed row prompt)
  then show thesis using that by (auto simp: render_run_trigger_prompt_def split: option.splits)
qed simp

lemma claim_trigger_Inr:
  assumes "store_ok s" and "claim_next_message p clock ids s = (Inr (m, r), s')"
  obtains tg where "claim_trigger q m r = Inr tg"
    and "tg_metadata tg = Some (server_metadata q m r ++ sender_metadata (m_metadata m))"
    and "tg_id tg = m_id m"
  using assms
proof (cases rule: claim_next_message_cases)
  case (claimed row prompt)
  from assms obtain v where "decode_envelope_any (m_payload m) = Some v" by (rule claimed_payload)
  with claimed show thesis by (intro that) (auto simp: claim_trigger_def new_run_def)
qed simp

text \<open>The keys the server sets, and a sender that sets none of them.\<close>

definition server_keys :: "string set" where
  "server_keys = {md_namespace, md_agent, md_message, md_thread, md_run, md_sender, md_attempts, md_max_attempts}"

definition honest :: "env_text \<Rightarrow> bool" where
  "honest text \<longleftrightarrow> (\<forall>k \<in> server_keys. sender_metadata text k = None)"

lemma honest_lookup:
  "honest text \<Longrightarrow> k \<in> server_keys \<Longrightarrow> (server_metadata q m r ++ sender_metadata text) k = server_metadata q m r k"
  by (simp add: honest_def map_add_def)

lemma server_keys_in:
  "md_namespace \<in> server_keys" "md_agent \<in> server_keys" "md_message \<in> server_keys" "md_thread \<in> server_keys"
  "md_run \<in> server_keys" "md_sender \<in> server_keys" "md_attempts \<in> server_keys" "md_max_attempts \<in> server_keys"
  by (simp_all add: server_keys_def)

lemma server_metadata_values:
  "server_metadata q m r md_namespace = Some (GStr (q_namespace q))"
  "server_metadata q m r md_agent = Some (GStr (q_agent q))"
  "server_metadata q m r md_message = Some (GStr (m_id m))"
  "server_metadata q m r md_thread = Some (GStr (m_thread m))"
  "server_metadata q m r md_run = Some (GStr (r_id r))"
  "server_metadata q m r md_attempts = Some (GInt (m_attempts m))"
  "server_metadata q m r md_max_attempts = Some (GInt (m_max_attempts m))"
  "server_metadata q m r md_sender = (if m_sender m = [] then None else Some (GStr (m_sender m)))"
  by (simp_all add: server_metadata_def md_defs Let_def)

lemma honest_metadata:
  fixes q :: message_queue and r :: run_row
  assumes "honest (m_metadata m)"
  defines "md \<equiv> server_metadata q m r ++ sender_metadata (m_metadata m)"
  shows "metadata_string md md_namespace = q_namespace q" "metadata_string md md_agent = q_agent q"
    "metadata_string md md_message = m_id m" "metadata_string md md_thread = m_thread m"
    "metadata_string md md_run = r_id r" "metadata_string md md_sender = m_sender m"
    "metadata_int md md_attempts = m_attempts m" "metadata_int md md_max_attempts = m_max_attempts m"
  using honest_lookup [OF assms(1)] server_keys_in
  by (simp_all add: md_def metadata_string_def metadata_int_def server_metadata_values)

text \<open>The context a trigger of an honest sender leads back to.\<close>

definition claim_context :: "message_queue \<Rightarrow> message \<Rightarrow> run_row \<Rightarrow> trigger_context" where
  "claim_context q m r =
     \<lparr>tc_namespace = q_namespace q, tc_agent = q_agent q, tc_message = m_id m, tc_thread = m_thread m,
      tc_run = r_id r, tc_sender = m_sender m\<rparr>"

lemma honest_context:
  assumes "honest (m_metadata m)" and "claim_trigger q m r = Inr tg"
    and "q_namespace q \<noteq> []" "q_agent q \<noteq> []" "m_id m \<noteq> []" "r_id r \<noteq> []"
  shows "trigger_context_from_metadata (tg_metadata tg) = Inr (claim_context q m r)"
    and "settle_failure p now res (the (tg_metadata tg)) =
      (if rs_status res = Finished then (None, [])
       else if 0 < m_max_attempts m \<and> m_max_attempts m \<le> m_attempts m
       then (None, ''message exhausted retries after result status '' @ result_status_text (rs_status res))
       else (Some (now + (if rp_retry_delay p \<le> 0 then 30 * second else rp_retry_delay p)), []))"
proof -
  from assms(2) have tg: "tg_metadata tg = Some (server_metadata q m r ++ sender_metadata (m_metadata m))"
    by (auto simp: claim_trigger_def split: option.splits)
  note h = honest_metadata [OF assms(1), of q r]
  show "trigger_context_from_metadata (tg_metadata tg) = Inr (claim_context q m r)"
    using assms(3-) by (simp add: trigger_context_from_metadata_def tg h claim_context_def)
  show "settle_failure p now res (the (tg_metadata tg)) =
      (if rs_status res = Finished then (None, [])
       else if 0 < m_max_attempts m \<and> m_max_attempts m \<le> m_attempts m
       then (None, ''message exhausted retries after result status '' @ result_status_text (rs_status res))
       else (Some (now + (if rp_retry_delay p \<le> 0 then 30 * second else rp_retry_delay p)), []))"
    by (simp add: settle_failure_def tg h)
qed

section \<open>Handlers\<close>

lemma handle_result_cases:
  assumes "handle_result p now now' ids res s = (r, s')"
  obtains (refused) e where "r = Inl e" "s' = s"
    | (settles) ctx outbox where "trigger_context_from_metadata (tg_metadata (rs_trigger res)) = Inr ctx"
      "extract_outbox (rs_value res) ctx = Inr outbox \<or> rs_status res \<noteq> Finished \<and> outbox = []"
      "outbox \<noteq> [] \<longrightarrow> rs_status res = Finished \<and> rp_allow_message_send p"
      "complete_run now' ids (complete_params_of ctx res
         (settle_failure p now res (the (tg_metadata (rs_trigger res)))) outbox) s = (Inr (), s')" "r = Inr ()"
proof (cases "trigger_context_from_metadata (tg_metadata (rs_trigger res))")
  case (Inl e)
  with assms have "r = Inl e" "s' = s" by (simp_all add: handle_result_def)
  then show thesis by (rule refused)
next
  case ctx: (Inr ctx)
  show thesis
  proof (cases "extract_outbox (rs_value res) ctx")
    case (Inl e)
    with assms ctx have "r = Inl e" "s' = s" by (simp_all add: handle_result_def)
    then show thesis by (rule refused)
  next
    case (Inr extracted)
    let ?outbox = "if rs_status res \<noteq> Finished then [] else extracted"
    let ?c = "complete_params_of ctx res (settle_failure p now res (the (tg_metadata (rs_trigger res)))) ?outbox"
    show thesis
    proof (cases "?outbox \<noteq> [] \<and> \<not> rp_allow_message_send p")
      case True
      with assms ctx Inr have "r = Inl OutboxDenied" "s' = s"
        by (simp_all add: handle_result_def Let_def split: if_splits)
      then show thesis by (rule refused)
    next
      case False
      with assms ctx Inr have c: "map_prod (map_sum StoreError id) id (complete_run now' ids ?c s) = (r, s')"
        by (simp only: handle_result_def sum.case Let_def if_False)
      obtain y s2 where y: "complete_run now' ids ?c s = (y, s2)" by fastforce
      show thesis
      proof (cases y)
        case (Inl e)
        with y c have "r = Inl (StoreError e)" "s2 = s'" by auto
        moreover from y Inl have "s2 = s" by (cases rule: complete_run_cases) auto
        ultimately show thesis using refused by simp
      next
        case (Inr u)
        with y c have "complete_run now' ids ?c s = (Inr (), s')" "r = Inr ()" by auto
        with False ctx \<open>extract_outbox (rs_value res) ctx = Inr extracted\<close> show thesis
          by (intro settles [of ctx ?outbox]) auto
      qed
    qed
  qed
qed

lemma handle_step_system_ok:
  assumes "system_ok s" and "handle_step tg st s = (r, s')"
  shows "system_ok s'"
proof -
  from assms(2) consider "s' = s" | u t where "record_step t s = (u, s')"
    by (auto simp: handle_step_def map_prod_def split: sum.splits prod.splits)
  then show ?thesis
  proof cases
    case 2
    from step_system_ok [OF step_record [OF 2] assms(1)] show ?thesis .
  qed (simp add: assms(1))
qed

lemma handle_result_system_ok:
  assumes "system_ok s" and "handle_result p now now' ids res s = (r, s')"
  shows "system_ok s'"
  using assms(2)
proof (cases rule: handle_result_cases)
  case (settles ctx outbox)
  from step_system_ok [OF step_complete [OF settles(4)] assms(1)] show ?thesis .
qed (simp add: assms(1))

lemma queue_next_system_ok:
  assumes "\<And>i t. system_ok t \<Longrightarrow> system_ok (world i t)"
  shows "system_ok s \<Longrightarrow> queue_next q clock ids world i n s = (r, s') \<Longrightarrow> system_ok s'"
proof (induction n arbitrary: i s)
  case (Suc n)
  obtain c s1 where c: "claim_next_message (queue_claim_params q) (clock i) (ids i) s = (c, s1)" by fastforce
  from step_system_ok [OF step_claim [OF c] Suc.prems(1)] have ok1: "system_ok s1" .
  with Suc c assms show ?case by (auto split: sum.splits if_splits)
qed simp

text \<open>What a completion does to the tables: the message settled, the outbox behind the rows that were there.\<close>

lemma complete_run_tables:
  assumes "complete_run now ids p s = (Inr (), s')"
  obtains body new where "messages s' = update_where (\<lambda>m. m_key m = (co_namespace p, co_message p)) (settled_message p now) (messages s) @ new"
    and "list_all2 (enqueued_as now) (co_outbox p) new"
    and "\<forall>q \<in> set (co_outbox p). (cp_namespace q, cp_recipient q) \<in> a_key ` set (agents s)"
    and "runs s' = update_where (\<lambda>r. r_key r = (co_namespace p, co_run p)) (finished_run p body now) (runs s)"
    and "(co_namespace p, co_run p) \<in> r_key ` set (runs s)"
  using assms
proof (cases rule: complete_run_cases)
  case (settled body)
  from enqueue_outbox_rows [OF settled(8)] obtain new where
    new: "messages s' = messages (settled_store now p body s) @ new" "list_all2 (enqueued_as now) (co_outbox p) new"
      "runs s' = runs (settled_store now p body s)" by blast
  moreover from enqueue_outbox_recipients [OF settled(8)]
  have "\<forall>q \<in> set (co_outbox p). (cp_namespace q, cp_recipient q) \<in> a_key ` set (agents s)"
    by (simp add: settled_store_def)
  ultimately show thesis
    using settled(6) by (intro that [of new body]) (simp_all add: settled_store_def m_key_def r_key_def)
qed simp

lemma settled_keys:
  "map m_key (update_where P (settled_message p now) ms) = map m_key ms"
  by (simp add: update_where_def)

lemma complete_run_settles:
  assumes "complete_run now ids p s = (Inr (), s')" and "row \<in> set (messages s)"
    and "m_key row = (co_namespace p, co_message p)"
  shows "settled_message p now row \<in> set (messages s')"
  using assms(1)
proof (rule complete_run_tables)
  fix new
  assume "messages s' = update_where (\<lambda>m. m_key m = (co_namespace p, co_message p)) (settled_message p now) (messages s) @ new"
  then show ?thesis using assms(2,3) by (auto simp: set_update_where image_iff intro: bexI [of _ row])
qed

lemma complete_run_run:
  assumes "complete_run now ids p s = (Inr (), s')"
  shows "\<exists>r \<in> set (runs s'). r_key r = (co_namespace p, co_run p) \<and> r_status r = co_status p"
  using assms
proof (rule complete_run_tables)
  fix body
  assume s': "runs s' = update_where (\<lambda>r. r_key r = (co_namespace p, co_run p)) (finished_run p body now) (runs s)"
    and "(co_namespace p, co_run p) \<in> r_key ` set (runs s)"
  then obtain r where r: "r \<in> set (runs s)" "r_key r = (co_namespace p, co_run p)" by auto
  then have f: "finished_run p body now r \<in> set (runs s')"
    unfolding s' by (auto simp: update_where_def image_iff intro!: bexI [of _ r])
  with r show ?thesis by (intro bexI [OF _ f]) (auto simp: finished_run_def r_key_def)
qed

lemma complete_run_runs:
  assumes "co_namespace p \<noteq> []" "co_run p \<noteq> []" "co_message p \<noteq> []" and "co_outbox p = []"
    and "marshal_optional_envelope ''run_value'' (co_value p) = Some body"
    and "(co_namespace p, co_run p) \<in> r_key ` set (runs s)"
    and "(co_namespace p, co_message p) \<in> m_key ` set (messages s)"
  shows "complete_run now ids p s = (Inr (), settled_store now p body s)"
proof -
  have "complete_run_tx now ids p body s = Inr ((), settled_store now p body s)"
    using assms(4,6,7) by (simp add: complete_run_tx_Inr)
  with assms(1-3,5) show ?thesis by (simp add: complete_run_def run_tx_def)
qed

lemma context_nonempty:
  "trigger_context_from_metadata md = Inr ctx \<Longrightarrow>
     tc_namespace ctx \<noteq> [] \<and> tc_agent ctx \<noteq> [] \<and> tc_message ctx \<noteq> [] \<and> tc_run ctx \<noteq> []"
  by (auto simp: trigger_context_from_metadata_def Let_def split: option.splits if_splits)

lemma complete_params_of_simps [simp]:
  "co_namespace (complete_params_of ctx res f ob) = tc_namespace ctx"
  "co_run (complete_params_of ctx res f ob) = tc_run ctx"
  "co_message (complete_params_of ctx res f ob) = tc_message ctx"
  "co_value (complete_params_of ctx res f ob) = rs_value res"
  "co_outbox (complete_params_of ctx res f ob) = ob"
  "co_retry_at (complete_params_of ctx res f ob) = fst f"
  "co_dead_reason (complete_params_of ctx res f ob) = snd f"
  "co_finished (complete_params_of ctx res f ob) = rs_finished res"
  by (simp_all add: complete_params_of_def)

text \<open>A value whose outbox can be read can be stored.\<close>

lemma extract_outbox_marshals:
  "extract_outbox v ctx = Inr ob \<Longrightarrow> \<exists>body. marshal_optional_envelope ''run_value'' v = Some body"
  by (auto simp: extract_outbox_def marshal_optional_envelope_def marshal_envelope_def split: option.splits if_splits)

lemma handle_failure:
  assumes ctx: "trigger_context_from_metadata (tg_metadata (rs_trigger res)) = Inr ctx"
    and row: "row \<in> set (messages s)" "m_key row = (tc_namespace ctx, tc_message ctx)"
    and run: "(tc_namespace ctx, tc_run ctx) \<in> r_key ` set (runs s)"
    and res: "rs_status res \<noteq> Finished" "extract_outbox (rs_value res) ctx = Inr ob"
  obtains s' where "handle_result p now now' ids res s = (Inr (), s')"
    and "length (messages s') = length (messages s)"
    and "settled_message (complete_params_of ctx res
           (settle_failure p now res (the (tg_metadata (rs_trigger res)))) []) now' row \<in> set (messages s')"
proof -
  let ?c = "complete_params_of ctx res (settle_failure p now res (the (tg_metadata (rs_trigger res)))) []"
  from extract_outbox_marshals [OF res(2)] obtain body where
    body: "marshal_optional_envelope ''run_value'' (rs_value res) = Some body" ..
  from row have "(tc_namespace ctx, tc_message ctx) \<in> m_key ` set (messages s)" by force
  with context_nonempty [OF ctx] run body have c: "complete_run now' ids ?c s = (Inr (), settled_store now' ?c body s)"
    by (intro complete_run_runs) simp_all
  have "handle_result p now now' ids res s = (Inr (), settled_store now' ?c body s)"
    using ctx res c by (simp add: handle_result_def)
  moreover have "length (messages (settled_store now' ?c body s)) = length (messages s)"
    by (simp add: settled_store_def update_where_def)
  moreover from complete_run_settles [OF c row(1)] row(2)
  have "settled_message ?c now' row \<in> set (messages (settled_store now' ?c body s))" by simp
  ultimately show thesis by (rule that)
qed

text \<open>The outbox of a result always speaks for the agent that produced it.\<close>

lemma those_all: "those (map f xs) = Some ys \<Longrightarrow> y \<in> set ys \<Longrightarrow> \<exists>x \<in> set xs. f x = Some y"
  by (induction xs arbitrary: ys) (auto split: option.splits)

lemma default_kind_visible: "trim_space ''agent.message'' \<noteq> []"
  by code_simp

lemma outbox_params_sender:
  "outbox_params ctx om = Some q \<Longrightarrow>
     cp_namespace q = tc_namespace ctx \<and> cp_sender q = tc_agent ctx \<and> cp_recipient q \<noteq> [] \<and> cp_kind q \<noteq> []"
  using default_kind_visible by (auto simp: outbox_params_def split: if_splits option.splits)

lemma extract_outbox_sender:
  assumes "extract_outbox v ctx = Inr qs" and "q \<in> set qs"
  shows "cp_namespace q = tc_namespace ctx \<and> cp_sender q = tc_agent ctx \<and> cp_recipient q \<noteq> [] \<and> cp_kind q \<noteq> []"
proof (cases "qs = []")
  case False
  with assms(1) obtain os where "those (map (outbox_params ctx) os) = Some qs"
    by (auto simp: extract_outbox_def split: if_splits option.splits)
  from those_all [OF this assms(2)] show ?thesis using outbox_params_sender by blast
qed (use assms(2) in simp)

text \<open>The rows a handled result adds.\<close>

lemma list_all2_right: "list_all2 P xs ys \<Longrightarrow> y \<in> set ys \<Longrightarrow> \<exists>x \<in> set xs. P x y"
  by (induction rule: list_all2_induct) auto

lemma handle_result_adds:
  assumes ctx: "trigger_context_from_metadata (tg_metadata (rs_trigger res)) = Inr ctx"
    and h: "handle_result p now now' ids res s = (Inr (), s')"
  shows "\<exists>old new. messages s' = old @ new \<and> map m_key old = map m_key (messages s) \<and>
    (new \<noteq> [] \<longrightarrow> rs_status res = Finished \<and> rp_allow_message_send p) \<and>
    (\<forall>x \<in> set new. m_namespace x = tc_namespace ctx \<and> m_sender x = tc_agent ctx \<and> m_status x = Queued \<and>
       m_recipient x \<noteq> [] \<and> (m_namespace x, m_recipient x) \<in> a_key ` set (agents s))"
  using h
proof (cases rule: handle_result_cases)
  case (settles ctx' outbox)
  with ctx have "ctx' = ctx" by simp
  note c = settles(4) [unfolded this]
  have q: "cp_namespace q = tc_namespace ctx \<and> cp_sender q = tc_agent ctx \<and> cp_recipient q \<noteq> []" if "q \<in> set outbox" for q
    using settles(2) that extract_outbox_sender unfolding \<open>ctx' = ctx\<close> by fastforce
  from c show ?thesis
  proof (rule complete_run_tables)
    fix new
    let ?c = "complete_params_of ctx res (settle_failure p now res (the (tg_metadata (rs_trigger res)))) outbox"
    assume s': "messages s' = update_where (\<lambda>m. m_key m = (co_namespace ?c, co_message ?c)) (settled_message ?c now') (messages s) @ new"
      and new: "list_all2 (enqueued_as now') (co_outbox ?c) new"
      and r: "\<forall>q \<in> set (co_outbox ?c). (cp_namespace q, cp_recipient q) \<in> a_key ` set (agents s)"
    have "new \<noteq> [] \<longrightarrow> rs_status res = Finished \<and> rp_allow_message_send p"
      using settles(3) new by auto
    moreover have "m_namespace x = tc_namespace ctx \<and> m_sender x = tc_agent ctx \<and> m_status x = Queued \<and>
       m_recipient x \<noteq> [] \<and> (m_namespace x, m_recipient x) \<in> a_key ` set (agents s)" if "x \<in> set new" for x
    proof -
      from list_all2_right [OF new that] obtain x0 where x0: "x0 \<in> set outbox" "enqueued_as now' x0 x" by auto
      with q [OF x0(1)] r show ?thesis by (auto simp: enqueued_as_def)
    qed
    ultimately show ?thesis using s' settled_keys by blast
  qed
qed simp

end
