(* ===== verification/AgentLoop.thy ===== *)
theory AgentLoop
  imports AgentTypes Mailbox
begin

text \<open>
  The agent loop (\<open>agent.go\<close>, \<open>tool_runtime.go\<close>, \<open>session.go\<close>, \<open>step_replay.go\<close> of \<open>pkg/agent\<close>): a trigger
  is handled by asking the driver for a decision, running the tool it names as one step, and asking
  again, until it finishes, fails or runs out of steps. What the loop calls but does not own is a
  \<open>runtime\<close> over a world \<open>'w\<close> that every call may change: the driver, the tool handlers, the step
  handler, the clock, the shell's working directory and the context. The messages of a request are
  rendered from its fields and the agent's fixed configuration, so a driver is a function of those.
\<close>

section \<open>Errors\<close>

text \<open>What \<open>errors.Is\<close> and \<open>errors.As\<close> see of an error.\<close>

record go_error =
  ge_text :: string
  ge_canceled :: bool
  ge_deadline :: bool
  ge_timeout :: bool
  ge_exit :: "int option"
  ge_coreutils :: bool
  ge_path :: bool

definition plain_error :: "string \<Rightarrow> go_error" where
  "plain_error t =
     \<lparr>ge_text = t, ge_canceled = False, ge_deadline = False, ge_timeout = False, ge_exit = None,
      ge_coreutils = False, ge_path = False\<rparr>"

definition interrupted :: "go_error \<Rightarrow> bool" where
  "interrupted e \<longleftrightarrow> ge_canceled e \<or> ge_deadline e"

section \<open>Requests\<close>

record conversation_turn =
  ct_user :: prompt_text
  ct_answer :: "gval option"
  ct_steps :: "agent_step list"

record request_context =
  rc_turns :: "conversation_turn list"
  rc_replay :: "string \<rightharpoonup> string"
  rc_provider :: string
  rc_started :: go_time

record request =
  rq_trigger :: trigger
  rq_step :: nat
  rq_cwd :: string
  rq_turns :: "conversation_turn list"
  rq_current :: "agent_step list"
  rq_steps :: "agent_step list"
  rq_replay :: "string \<rightharpoonup> string"
  rq_provider :: string
  rq_started :: go_time

definition step_call_id :: "agent_step \<Rightarrow> string" where
  "step_call_id st = ''step_'' @ int_str (st_index st)"

definition with_replay :: "string \<Rightarrow> string \<Rightarrow> request_context \<Rightarrow> request_context" where
  "with_replay call_id data c =
     (if trim_space call_id = [] \<or> trim_space data = [] then c
      else c\<lparr>rc_replay := (rc_replay c)(trim_space call_id \<mapsto> trim_space data)\<rparr>)"

definition with_provider :: "string \<Rightarrow> request_context \<Rightarrow> request_context" where
  "with_provider state c = (if trim_space state = [] then c else c\<lparr>rc_provider := trim_space state\<rparr>)"

definition with_started :: "go_time \<Rightarrow> request_context \<Rightarrow> request_context" where
  "with_started t c = (if t = zero_time then c else c\<lparr>rc_started := t\<rparr>)"

definition build_request ::
    "trigger \<Rightarrow> nat \<Rightarrow> string \<Rightarrow> agent_step list \<Rightarrow> request_context \<Rightarrow> request option" where
  "build_request tg n cwd current c =
     (case render_trigger_prompt (tg_payload tg) of
        None \<Rightarrow> None
      | Some _ \<Rightarrow> Some \<lparr>rq_trigger = tg, rq_step = n, rq_cwd = cwd, rq_turns = rc_turns c,
                       rq_current = current, rq_steps = concat (map ct_steps (rc_turns c)) @ current,
                       rq_replay = rc_replay c, rq_provider = trim_space (rc_provider c),
                       rq_started = rc_started c\<rparr>)"

section \<open>The runtime\<close>

record 'w runtime =
  rt_ctx :: "'w \<Rightarrow> string option"
  rt_clock :: "'w \<Rightarrow> go_time"
  rt_dir :: "'w \<Rightarrow> string"
  rt_reset :: "'w \<Rightarrow> 'w"
  rt_driver :: "request \<Rightarrow> 'w \<Rightarrow> (go_error + decision) \<times> 'w"
  rt_tool :: "string \<rightharpoonup> (trigger \<Rightarrow> agent_step \<Rightarrow> tool_action \<Rightarrow> 'w \<Rightarrow> go_error option \<times> agent_step \<times> 'w)"
  rt_on_step :: "(trigger \<Rightarrow> agent_step \<Rightarrow> 'w \<Rightarrow> string option \<times> 'w) option"
  rt_spill :: "trigger \<Rightarrow> 'w \<Rightarrow> string option \<times> 'w"
  rt_max_steps :: nat

definition max_driver_retries :: nat where "max_driver_retries = 3"

definition should_retry :: "go_error \<Rightarrow> bool" where
  "should_retry e \<longleftrightarrow> ge_deadline e \<or> ge_timeout e"

text \<open>The driver is asked again after a timeout, \<open>left\<close> more times.\<close>

fun next_decision :: "'w runtime \<Rightarrow> request \<Rightarrow> nat \<Rightarrow> 'w \<Rightarrow> (go_error + decision) \<times> 'w" where
  "next_decision rt rq left w =
     (case rt_driver rt rq w of
        (Inr d, w') \<Rightarrow> (Inr d, w')
      | (Inl e, w') \<Rightarrow>
          if rt_ctx rt w' \<noteq> None \<or> \<not> should_retry e then (Inl e, w')
          else case left of 0 \<Rightarrow> (Inl e, w') | Suc n \<Rightarrow> next_decision rt rq n w')"

definition validate_decision :: "decision \<Rightarrow> bool" where
  "validate_decision d =
     (case (d_tool d, d_finish d) of
        (Some t, None) \<Rightarrow>
          \<not> (trim_space (ta_name t) = []) \<and> \<not> (trim_space (ta_input t) = [] \<and> ta_kind t = tool_kind_custom)
      | (None, Some _) \<Rightarrow> True
      | _ \<Rightarrow> False)"

definition classify_run_result :: "agent_step \<Rightarrow> go_error option \<Rightarrow> agent_step \<times> go_error option" where
  "classify_run_result st err =
     (case err of
        None \<Rightarrow> (st\<lparr>st_status := StepOK\<rparr>, None)
      | Some e \<Rightarrow>
          if interrupted e then (st\<lparr>st_status := StepFatalError, st_error := ge_text e\<rparr>, Some e)
          else case ge_exit e of
            Some n \<Rightarrow> (st\<lparr>st_status := StepExitStatus, st_exit := n, st_error := ge_text e\<rparr>, None)
          | None \<Rightarrow>
              if ge_coreutils e \<or> ge_path e
              then (st\<lparr>st_status := StepExitStatus, st_exit := 1, st_error := ge_text e\<rparr>, None)
              else (st\<lparr>st_status := StepFatalError, st_error := ge_text e\<rparr>, Some e))"

section \<open>One step\<close>

definition new_step :: "nat \<Rightarrow> decision \<Rightarrow> tool_action \<Rightarrow> string \<Rightarrow> go_time \<Rightarrow> agent_step" where
  "new_step index d t cwd now =
     \<lparr>st_index = int index, st_type = ''tool'', st_thought = d_thought d, st_action = ta_name t,
      st_tool_kind = ta_kind t, st_input = ta_input t, st_output = [], st_output_truncated = False,
      st_output_files = [], st_output_bytes = 0, st_output_compacted = False, st_shell = [],
      st_cached_tokens = d_cached_tokens d, st_cwd_before = cwd, st_cwd_after = cwd,
      st_stdout = [], st_stderr = [], st_stdout_truncated = False, st_stderr_truncated = False,
      st_stdout_file = None, st_stderr_file = None, st_stdout_bytes = 0, st_stderr_bytes = 0,
      st_started = now, st_finished = zero_time, st_duration = 0, st_status = StepUnset,
      st_exit = 0, st_error = []\<rparr>"

text \<open>
  \<open>runToolStep\<close> returns its local step by value, so what its deferred function writes to that variable
  afterwards (the finishing time and the duration) is not part of the result.
\<close>

definition run_tool_step ::
    "'w runtime \<Rightarrow> trigger \<Rightarrow> nat \<Rightarrow> decision \<Rightarrow> tool_action \<Rightarrow> 'w \<Rightarrow> agent_step \<times> go_error option \<times> 'w" where
  "run_tool_step rt tg index d t w =
     (let st = new_step index d t (rt_dir rt w) (rt_clock rt w)
      in case rt_tool rt (ta_name t) of
           None \<Rightarrow> (st\<lparr>st_status := StepPolicyError, st_error := ''tool is not implemented''\<rparr>, None, w)
         | Some invoke \<Rightarrow>
        (case invoke tg st t w of
           (Some e, st', w') \<Rightarrow> (st'\<lparr>st_status := StepFatalError, st_error := ge_text e\<rparr>, Some e, w')
         | (None, st', w') \<Rightarrow>
             if st_status st' = StepFatalError
             then let st'' = (if trim_space (st_error st') = [] then st'\<lparr>st_error := ''tool step failed''\<rparr> else st')
                  in (st'', Some (plain_error (st_error st'')), w')
             else if st_status st' = StepUnset then (st'\<lparr>st_status := StepOK\<rparr>, None, w')
             else (st', None, w')))"

section \<open>One turn\<close>

record run_state =
  ru_started :: go_time
  ru_tokens :: int
  ru_steps :: "agent_step list"
  ru_context :: request_context

definition finish_result ::
    "'w runtime \<Rightarrow> trigger \<Rightarrow> run_state \<Rightarrow> result_status \<Rightarrow> string \<Rightarrow> string \<Rightarrow> gval \<Rightarrow> 'w \<Rightarrow> agent_result" where
  "finish_result rt tg ru status err thought v w =
     \<lparr>rs_trigger = tg, rs_started = ru_started ru, rs_finished = rt_clock rt w,
      rs_duration = rt_clock rt w - ru_started ru, rs_status = status, rs_cwd = rt_dir rt w,
      rs_cached_tokens = ru_tokens ru, rs_thought = thought, rs_value = v, rs_steps = ru_steps ru,
      rs_error = err, rs_replay = rc_replay (ru_context ru),
      rs_provider = trim_space (rc_provider (ru_context ru))\<rparr>"

text \<open>A turn that ends without a value.\<close>

definition fail_run ::
    "'w runtime \<Rightarrow> trigger \<Rightarrow> run_state \<Rightarrow> result_status \<Rightarrow> string \<Rightarrow> string option \<Rightarrow> 'w \<Rightarrow>
     agent_result \<times> string option \<times> 'w" where
  "fail_run rt tg ru status text err w = (finish_result rt tg ru status text [] GNil w, err, w)"

text \<open>The context is done and the error says so.\<close>

definition canceled_by :: "'w runtime \<Rightarrow> go_error \<Rightarrow> 'w \<Rightarrow> string option" where
  "canceled_by rt e w = (if interrupted e then rt_ctx rt w else None)"

text \<open>
  One pass of the loop, after the check of the context: the turn ends with \<open>Inl\<close>, or goes on in a new
  state with \<open>Inr\<close>.
\<close>

definition turn_pass ::
    "'w runtime \<Rightarrow> trigger \<Rightarrow> nat \<Rightarrow> nat \<Rightarrow> run_state \<Rightarrow> 'w \<Rightarrow>
     (agent_result \<times> string option \<times> 'w) + (run_state \<times> 'w)" where
  "turn_pass rt tg base n ru w =
     (case build_request tg n (rt_dir rt w) (ru_steps ru) (ru_context ru) of
        None \<Rightarrow> Inl (fail_run rt tg ru DriverError ''could not render trigger payload'' None w)
      | Some rq \<Rightarrow>
     (case next_decision rt rq max_driver_retries w of
        (Inl e, w1) \<Rightarrow>
          (case canceled_by rt e w1 of
             Some c \<Rightarrow> Inl (fail_run rt tg ru Canceled c (Some c) w1)
           | None \<Rightarrow> Inl (fail_run rt tg ru DriverError (ge_text e) None w1))
      | (Inr d, w1) \<Rightarrow>
     (let ru1 = ru\<lparr>ru_context := with_provider (d_provider d) (ru_context ru),
                   ru_tokens := ru_tokens ru + d_cached_tokens d\<rparr>
      in if \<not> validate_decision d
         then Inl (fail_run rt tg ru1 DriverError ''invalid decision'' None w1)
         else case (d_finish d, d_tool d) of
             (Some v, _) \<Rightarrow> Inl (finish_result rt tg ru1 Finished [] (trim_space (d_thought d)) v w1, None, w1)
           | (None, None) \<Rightarrow> Inl (fail_run rt tg ru1 DriverError ''invalid decision'' None w1)
           | (None, Some t) \<Rightarrow>
          (case run_tool_step rt tg (base + length (ru_steps ru1)) d t w1 of
             (st, run_err, w2) \<Rightarrow>
          (let ru2 = ru1\<lparr>ru_steps := ru_steps ru1 @ [st],
                         ru_context := with_replay (step_call_id st) (d_replay d) (ru_context ru1)\<rparr>
           in case (case rt_on_step rt of None \<Rightarrow> (None, w2) | Some h \<Rightarrow> h tg st w2) of
                (Some step_err, w3) \<Rightarrow> Inl (fail_run rt tg ru2 FatalError step_err (Some step_err) w3)
              | (None, w3) \<Rightarrow>
             (case run_err of
                None \<Rightarrow> Inr (ru2, w3)
              | Some e \<Rightarrow>
                  (case canceled_by rt e w3 of
                     Some c \<Rightarrow> Inl (fail_run rt tg ru2 Canceled c (Some c) w3)
                   | None \<Rightarrow> Inl (fail_run rt tg ru2 FatalError (ge_text e) None w3))))))))"

text \<open>The loop: \<open>left\<close> passes remain, and the pass is number \<open>n\<close>.\<close>

fun turn_loop ::
    "'w runtime \<Rightarrow> trigger \<Rightarrow> nat \<Rightarrow> nat \<Rightarrow> nat \<Rightarrow> run_state \<Rightarrow> 'w \<Rightarrow> agent_result \<times> string option \<times> 'w" where
  "turn_loop rt tg base n 0 ru w =
     fail_run rt tg ru MaxSteps (''agent reached max steps ('' @ nat_str (rt_max_steps rt) @ '')'') None w"
| "turn_loop rt tg base n (Suc left) ru w =
     (case rt_ctx rt w of
        Some c \<Rightarrow> fail_run rt tg ru Canceled c (Some c) w
      | None \<Rightarrow>
     (case turn_pass rt tg base n ru w of
        Inl r \<Rightarrow> r
      | Inr (ru', w') \<Rightarrow> turn_loop rt tg base (Suc n) left ru' w'))"

definition run_turn ::
    "'w runtime \<Rightarrow> trigger \<Rightarrow> nat \<Rightarrow> bool \<Rightarrow> request_context \<Rightarrow> 'w \<Rightarrow> agent_result \<times> string option \<times> 'w" where
  "run_turn rt tg next_index reset c w =
     (let started = rt_clock rt w;
          ru = \<lparr>ru_started = started, ru_tokens = 0, ru_steps = [], ru_context = with_started started c\<rparr>
      in case rt_spill rt tg w of
           (Some e, w1) \<Rightarrow> fail_run rt tg ru FatalError e (Some e) w1
         | (None, w1) \<Rightarrow>
             turn_loop rt tg (if next_index = 0 then 1 else next_index) 1 (rt_max_steps rt) ru
               (if reset then rt_reset rt w1 else w1))"

definition empty_context :: request_context where
  "empty_context = \<lparr>rc_turns = [], rc_replay = Map.empty, rc_provider = [], rc_started = zero_time\<rparr>"

definition handle_trigger ::
    "'w runtime \<Rightarrow> bool \<Rightarrow> trigger \<Rightarrow> 'w \<Rightarrow> agent_result \<times> string option \<times> 'w" where
  "handle_trigger rt preserve tg w = run_turn rt tg 1 (\<not> preserve) empty_context w"

section \<open>Serving a queue\<close>

text \<open>
  \<open>Serve\<close> handles triggers one after the other and returns at the first error, of the queue, the turn
  or the result handler; \<open>n\<close> bounds the triggers it is observed for.
\<close>

fun serve ::
    "'w runtime \<Rightarrow> bool \<Rightarrow> ('w \<Rightarrow> (string + trigger) \<times> 'w) \<Rightarrow> (agent_result \<Rightarrow> 'w \<Rightarrow> string option \<times> 'w) \<Rightarrow>
     nat \<Rightarrow> 'w \<Rightarrow> string option \<times> 'w" where
  "serve rt preserve queue on_result 0 w = (None, w)"
| "serve rt preserve queue on_result (Suc n) w =
     (case queue w of
        (Inl e, w1) \<Rightarrow> (Some (case rt_ctx rt w1 of Some c \<Rightarrow> c | None \<Rightarrow> e), w1)
      | (Inr tg, w1) \<Rightarrow>
     (case handle_trigger rt preserve tg w1 of
        (res, Some e, w2) \<Rightarrow> (Some e, w2)
      | (res, None, w2) \<Rightarrow>
     (case on_result res w2 of
        (Some e, w3) \<Rightarrow> (Some e, w3)
      | (None, w3) \<Rightarrow> serve rt preserve queue on_result n w3)))"

section \<open>Sessions\<close>

record session =
  se_turns :: "conversation_turn list"
  se_replay :: "string \<rightharpoonup> string"
  se_provider :: string
  se_next :: nat

definition new_session :: session where
  "new_session = \<lparr>se_turns = [], se_replay = Map.empty, se_provider = [], se_next = 1\<rparr>"

definition session_steps :: "session \<Rightarrow> agent_step list" where
  "session_steps se = concat (map ct_steps (se_turns se))"

definition run_trigger ::
    "'w runtime \<Rightarrow> bool \<Rightarrow> (agent_result \<Rightarrow> 'w \<Rightarrow> string option \<times> 'w) \<Rightarrow> trigger \<Rightarrow> session \<Rightarrow> 'w \<Rightarrow>
     (string + agent_result) \<times> session \<times> 'w" where
  "run_trigger rt preserve on_result tg se w =
     (case render_trigger_prompt (tg_payload tg) of
        None \<Rightarrow> (Inl ''could not render trigger payload'', se, w)
      | Some prompt \<Rightarrow>
     (case run_turn rt tg (se_next se) (\<not> preserve)
             (with_provider (se_provider se) \<lparr>rc_turns = se_turns se, rc_replay = se_replay se,
               rc_provider = [], rc_started = zero_time\<rparr>) w of
        (res, err, w1) \<Rightarrow>
     (let se' = \<lparr>se_turns = se_turns se @ [\<lparr>ct_user = prompt,
                   ct_answer = (if rs_status res = Finished then Some (rs_value res) else None),
                   ct_steps = rs_steps res\<rparr>],
                 se_replay = rs_replay res, se_provider = trim_space (rs_provider res),
                 se_next = se_next se + length (rs_steps res)\<rparr>
      in case err of
           Some e \<Rightarrow> (Inl e, se', w1)
         | None \<Rightarrow>
        (case on_result res w1 of
           (Some e, w2) \<Rightarrow> (Inl e, se', w2)
         | (None, w2) \<Rightarrow> (Inr res, se', w2)))))"

end
