(* ===== verification/AgentLoopLaws.thy ===== *)
theory AgentLoopLaws
  imports AgentLoop
begin

text \<open>
  Lemmas on the agent loop: how many decisions and steps a turn takes, how steps are numbered across
  the turns of a session, which outcomes come with an error, and what a recorded step holds.
\<close>

section \<open>What tools are expected to leave alone\<close>

text \<open>
  A tool handler fills in the step it is given; these properties say which fields it does not touch.
\<close>

definition tools_keep :: "(agent_step \<Rightarrow> 'a) \<Rightarrow> 'w runtime \<Rightarrow> bool" where
  "tools_keep f rt \<longleftrightarrow>
     (\<forall>name invoke tg st t w e st' w'.
        rt_tool rt name = Some invoke \<longrightarrow> invoke tg st t w = (e, st', w') \<longrightarrow> f st' = f st)"

lemma tools_keepD: "tools_keep f rt \<Longrightarrow> rt_tool rt name = Some invoke \<Longrightarrow> invoke tg st t w = (e, st', w') \<Longrightarrow> f st' = f st"
  unfolding tools_keep_def by blast

text \<open>Fields that \<open>runToolStep\<close> itself does not set after the call.\<close>

definition outcome_free :: "(agent_step \<Rightarrow> 'a) \<Rightarrow> bool" where
  "outcome_free f \<longleftrightarrow> (\<forall>st x y. f (st\<lparr>st_status := x, st_error := y\<rparr>) = f st)"

lemma outcome_free_simps:
  assumes "outcome_free f"
  shows "f (st\<lparr>st_status := x\<rparr>) = f st" "f (st\<lparr>st_error := y\<rparr>) = f st"
    "f (st\<lparr>st_status := x, st_error := y\<rparr>) = f st"
proof -
  have upd: "f (st\<lparr>st_status := x, st_error := y\<rparr>) = f st" for st x y
    using assms by (simp add: outcome_free_def)
  show "f (st\<lparr>st_status := x, st_error := y\<rparr>) = f st" by (rule upd)
  show "f (st\<lparr>st_status := x\<rparr>) = f st" using upd [where st = st and x = x and y = "st_error st"] by simp
  show "f (st\<lparr>st_error := y\<rparr>) = f st" using upd [where st = st and x = "st_status st" and y = y] by simp
qed

lemma run_tool_step_keeps:
  assumes "tools_keep f rt" and "outcome_free f" and "run_tool_step rt tg i d t w = (st, e, w')"
  shows "f st = f (new_step i d t (rt_dir rt w) (rt_clock rt w))"
proof (cases "rt_tool rt (ta_name t)")
  case None
  with assms(3) show ?thesis by (auto simp: run_tool_step_def Let_def outcome_free_simps [OF assms(2)])
next
  case (Some invoke)
  obtain e1 st1 w1 where inv: "invoke tg (new_step i d t (rt_dir rt w) (rt_clock rt w)) t w = (e1, st1, w1)"
    by (metis prod_cases3)
  from tools_keepD [OF assms(1) Some inv] assms(3) Some inv show ?thesis
    by (auto simp: run_tool_step_def Let_def outcome_free_simps [OF assms(2)] split: option.splits if_splits)
qed

lemma outcome_free_fields: "outcome_free st_index" "outcome_free st_finished" "outcome_free st_duration"
  by (simp_all add: outcome_free_def)

section \<open>One pass\<close>

text \<open>
  A pass that goes on has run one step; a pass that ends has run at most one, and a finished turn
  none in its last pass.
\<close>

lemma turn_pass_Inr:
  assumes "turn_pass rt tg base n ru w = Inr (ru', w')"
  obtains d t st e w1 w2 where "run_tool_step rt tg (base + length (ru_steps ru)) d t w1 = (st, e, w2)"
    and "ru_steps ru' = ru_steps ru @ [st]" and "ru_started ru' = ru_started ru"
  using assms
  by (auto simp: turn_pass_def Let_def split: option.splits sum.splits prod.splits if_splits)

lemma turn_pass_Inl:
  assumes "turn_pass rt tg base n ru w = Inl (res, err, w')"
  obtains (same) "rs_steps res = ru_steps ru" "rs_status res \<noteq> MaxSteps" "rs_status res = Finished \<longrightarrow> err = None"
      "err \<noteq> None \<longrightarrow> rs_status res \<in> {Canceled, FatalError}"
    | (one) d t st e w1 w2 where "run_tool_step rt tg (base + length (ru_steps ru)) d t w1 = (st, e, w2)"
      "rs_steps res = ru_steps ru @ [st]" "rs_status res \<in> {Canceled, FatalError}"
  using assms
  by (auto simp: turn_pass_def Let_def fail_run_def finish_result_def
      split: option.splits sum.splits prod.splits if_splits)

section \<open>The loop\<close>

lemma turn_loop_shape:
  assumes "turn_loop rt tg base n left ru w = (res, err, w')"
  shows "length (rs_steps res) \<le> length (ru_steps ru) + left \<and>
    (rs_status res = MaxSteps \<longrightarrow> length (rs_steps res) = length (ru_steps ru) + left) \<and>
    (rs_status res = Finished \<longrightarrow> length (rs_steps res) < length (ru_steps ru) + left \<and> err = None) \<and>
    (err \<noteq> None \<longrightarrow> rs_status res \<in> {Canceled, FatalError})"
  using assms
proof (induction left arbitrary: n ru w)
  case 0
  then show ?case by (auto simp: fail_run_def finish_result_def)
next
  case (Suc left)
  show ?case
  proof (cases "rt_ctx rt w")
    case (Some c)
    with Suc.prems show ?thesis by (auto simp: fail_run_def finish_result_def)
  next
    case None
    show ?thesis
    proof (cases "turn_pass rt tg base n ru w")
      case (Inl r)
      with None Suc.prems have pass: "turn_pass rt tg base n ru w = Inl (res, err, w')" by simp
      from pass show ?thesis by (cases rule: turn_pass_Inl) auto
    next
      case (Inr x)
      then obtain ru1 w1 where pass: "turn_pass rt tg base n ru w = Inr (ru1, w1)" by (cases x) auto
      with None Suc.prems have "turn_loop rt tg base (Suc n) left ru1 w1 = (res, err, w')" by simp
      from Suc.IH [OF this] turn_pass_Inr [OF pass] show ?thesis by (metis add_Suc_right add_Suc length_append_singleton)
    qed
  qed
qed

lemma turn_loop_all_steps:
  assumes keep: "\<And>d t w1 st e w2 k. run_tool_step rt tg (base + k) d t w1 = (st, e, w2) \<Longrightarrow> P k st"
  shows "turn_loop rt tg base n left ru w = (res, err, w') \<Longrightarrow>
    (\<forall>k < length (ru_steps ru). P k (ru_steps ru ! k)) \<Longrightarrow>
    (\<forall>k < length (rs_steps res). P k (rs_steps res ! k))"
proof (induction left arbitrary: n ru w)
  case 0
  then show ?case by (auto simp: fail_run_def finish_result_def)
next
  case (Suc left)
  have snoc: "\<forall>k < length (xs @ [st]). P k ((xs @ [st]) ! k)"
    if "\<forall>k < length xs. P k (xs ! k)" "P (length xs) st" for xs st
    using that by (auto simp: nth_append less_Suc_eq)
  show ?case
  proof (cases "rt_ctx rt w")
    case (Some c)
    with Suc.prems show ?thesis by (auto simp: fail_run_def finish_result_def)
  next
    case None
    show ?thesis
    proof (cases "turn_pass rt tg base n ru w")
      case (Inl r)
      with None Suc.prems(1) have pass: "turn_pass rt tg base n ru w = Inl (res, err, w')" by simp
      from pass show ?thesis
      proof (cases rule: turn_pass_Inl)
        case (one d t st e w1 w2)
        from snoc [OF Suc.prems(2) keep [OF one(1)]] show ?thesis unfolding one(2) .
      qed (use Suc.prems(2) in \<open>simp only:\<close>)
    next
      case (Inr x)
      then obtain ru1 w1 where pass: "turn_pass rt tg base n ru w = Inr (ru1, w1)" by (cases x) auto
      with None Suc.prems(1) have loop: "turn_loop rt tg base (Suc n) left ru1 w1 = (res, err, w')" by simp
      obtain d t st e w2 w3 where
        st: "run_tool_step rt tg (base + length (ru_steps ru)) d t w2 = (st, e, w3)"
        and ru1: "ru_steps ru1 = ru_steps ru @ [st]"
        by (rule turn_pass_Inr [OF pass]) (rule that)
      from snoc [OF Suc.prems(2) keep [OF st]] have "\<forall>k < length (ru_steps ru1). P k (ru_steps ru1 ! k)"
        unfolding ru1 .
      from Suc.IH [OF loop this] show ?thesis .
    qed
  qed
qed

lemma run_turn_cases:
  assumes "run_turn rt tg next_index reset c w = (res, err, w')"
  obtains (spill) e where "rs_steps res = []" "rs_status res = FatalError" "err = Some e"
    | (looped) ru w1 where "ru_steps ru = []"
      "turn_loop rt tg (if next_index = 0 then 1 else next_index) 1 (rt_max_steps rt) ru w1 = (res, err, w')"
proof -
  obtain x w1 where sp: "rt_spill rt tg w = (x, w1)" by fastforce
  show thesis
  proof (cases x)
    case None
    with assms sp show thesis
      by (intro looped [of "\<lparr>ru_started = rt_clock rt w, ru_tokens = 0, ru_steps = [],
             ru_context = with_started (rt_clock rt w) c\<rparr>" "if reset then rt_reset rt w1 else w1"])
        (simp_all add: run_turn_def Let_def)
  next
    case (Some e)
    with assms sp show thesis
      by (intro spill [of e]) (auto simp: run_turn_def Let_def fail_run_def finish_result_def)
  qed
qed

lemma run_turn_steps:
  assumes "run_turn rt tg next_index reset c w = (res, err, w')"
    and "\<And>d t w1 st e w2 k. run_tool_step rt tg ((if next_index = 0 then 1 else next_index) + k) d t w1 = (st, e, w2) \<Longrightarrow> P k st"
  shows "\<forall>k < length (rs_steps res). P k (rs_steps res ! k)"
  using assms(1)
proof (cases rule: run_turn_cases)
  case (looped ru w1)
  from turn_loop_all_steps [OF assms(2) looped(2)] looped(1) show ?thesis by simp
qed simp

text \<open>Steps are numbered from the index the turn was given.\<close>

lemma run_turn_indices:
  assumes "run_turn rt tg next_index reset c w = (res, err, w')" and "tools_keep st_index rt"
    and "0 < next_index"
  shows "map st_index (rs_steps res) = map int [next_index ..< next_index + length (rs_steps res)]"
proof -
  have "\<forall>k < length (rs_steps res). st_index (rs_steps res ! k) = int (next_index + k)"
  proof (rule run_turn_steps [OF assms(1)])
    fix d t w1 st e w2 k
    assume "run_tool_step rt tg ((if next_index = 0 then 1 else next_index) + k) d t w1 = (st, e, w2)"
    from run_tool_step_keeps [OF assms(2) outcome_free_fields(1) this] assms(3)
    show "st_index st = int (next_index + k)" by (simp add: new_step_def)
  qed
  then show ?thesis by (intro nth_equalityI) auto
qed

section \<open>Sessions\<close>

definition session_ok :: "session \<Rightarrow> bool" where
  "session_ok se \<longleftrightarrow> 0 < se_next se \<and> map st_index (session_steps se) = map int [1 ..< se_next se]"

lemma new_session_ok: "session_ok new_session"
  by (simp add: session_ok_def new_session_def session_steps_def)

lemma run_trigger_ok:
  assumes "session_ok se" and "tools_keep st_index rt" and "run_trigger rt preserve h tg se w = (r, se', w')"
  shows "session_ok se'"
proof (cases "render_trigger_prompt (tg_payload tg)")
  case None
  with assms show ?thesis by (simp add: run_trigger_def)
next
  case (Some prompt)
  obtain res err w1 where turn: "run_turn rt tg (se_next se) (\<not> preserve)
      (with_provider (se_provider se) \<lparr>rc_turns = se_turns se, rc_replay = se_replay se,
         rc_provider = [], rc_started = zero_time\<rparr>) w = (res, err, w1)"
    by (metis prod_cases3)
  from assms(1) have pos: "0 < se_next se" by (simp add: session_ok_def)
  from assms(3) Some turn have "session_steps se' = session_steps se @ rs_steps res"
    "se_next se' = se_next se + length (rs_steps res)"
    by (auto simp: run_trigger_def Let_def session_steps_def split: option.splits prod.splits)
  moreover from pos have "[1 ..< se_next se + n] = [1 ..< se_next se] @ [se_next se ..< se_next se + n]" for n
    by (intro upt_add_eq_append) simp
  ultimately show ?thesis using run_turn_indices [OF turn assms(2) pos] assms(1) pos
    by (simp add: session_ok_def del: One_nat_def)
qed

lemma session_call_ids:
  assumes "session_ok se"
  shows "distinct (map step_call_id (session_steps se))"
proof -
  have inj: "inj_on (\<lambda>i. ''step_'' @ int_str i) {i. 0 \<le> i}"
    by (rule inj_onI) (auto simp: int_str_def nat_str_inj)
  have "set (map st_index (session_steps se)) \<subseteq> {i. 0 \<le> i}" "distinct (map st_index (session_steps se))"
    using assms by (auto simp: session_ok_def distinct_map)
  then have "distinct (map (\<lambda>i. ''step_'' @ int_str i) (map st_index (session_steps se)))"
    using inj by (metis distinct_map inj_on_subset)
  then show ?thesis by (simp add: step_call_id_def [abs_def] o_def)
qed

section \<open>Asking the driver\<close>

text \<open>A runtime whose world also counts the calls of the driver.\<close>

definition count_driver :: "('w \<Rightarrow> string option) \<Rightarrow> (request \<Rightarrow> 'w \<Rightarrow> (go_error + decision) \<times> 'w) \<Rightarrow>
    ('w \<times> nat) runtime \<Rightarrow> ('w \<times> nat) runtime" where
  "count_driver ctx drv rt =
     rt\<lparr>rt_ctx := (\<lambda>w. ctx (fst w)),
        rt_driver := (\<lambda>rq w. case drv rq (fst w) of (r, w') \<Rightarrow> (r, (w', Suc (snd w))))\<rparr>"

lemma next_decision_calls:
  "next_decision (count_driver ctx drv rt) rq left (w, k) = (r, (w', k')) \<Longrightarrow> k < k' \<and> k' \<le> k + left + 1"
proof (induction left arbitrary: w k)
  case 0
  then show ?case by (auto simp: count_driver_def split: prod.splits sum.splits if_splits)
next
  case (Suc left)
  obtain r1 w1 where drv: "drv rq w = (r1, w1)" by fastforce
  show ?case
  proof (cases "\<exists>e. r1 = Inl e \<and> ctx w1 = None \<and> should_retry e")
    case True
    with Suc.prems drv have "next_decision (count_driver ctx drv rt) rq left (w1, Suc k) = (r, (w', k'))"
      by (auto simp: count_driver_def)
    from Suc.IH [OF this] show ?thesis by simp
  next
    case False
    with Suc.prems drv have "k' = Suc k"
      by (cases r1) (auto simp: count_driver_def split: if_splits)
    then show ?thesis by simp
  qed
qed

text \<open>A session handles a list of triggers, whatever each of them returns.\<close>

fun run_session ::
    "'w runtime \<Rightarrow> bool \<Rightarrow> (agent_result \<Rightarrow> 'w \<Rightarrow> string option \<times> 'w) \<Rightarrow> trigger list \<Rightarrow> session \<Rightarrow> 'w \<Rightarrow>
     session \<times> 'w" where
  "run_session rt preserve h [] se w = (se, w)"
| "run_session rt preserve h (tg # tgs) se w =
     (case run_trigger rt preserve h tg se w of (_, se', w') \<Rightarrow> run_session rt preserve h tgs se' w')"

lemma run_session_ok:
  assumes "tools_keep st_index rt"
  shows "session_ok se \<Longrightarrow> session_ok (fst (run_session rt preserve h tgs se w))"
proof (induction tgs arbitrary: se w)
  case (Cons tg tgs)
  obtain r se' w' where "run_trigger rt preserve h tg se w = (r, se', w')" by (metis prod_cases3)
  with run_trigger_ok [OF Cons.prems assms this] Cons.IH show ?case by simp
qed simp

lemma run_turn_shape:
  assumes "run_turn rt tg next_index reset c w = (res, err, w')"
  shows "length (rs_steps res) \<le> rt_max_steps rt"
    and "rs_status res = MaxSteps \<Longrightarrow> length (rs_steps res) = rt_max_steps rt"
    and "rs_status res = Finished \<Longrightarrow> err = None"
    and "err \<noteq> None \<Longrightarrow> rs_status res \<in> {Canceled, FatalError}"
  using assms
  by (cases rule: run_turn_cases; auto dest!: turn_loop_shape)+

end
