(* ===== verification/Patch.thy ===== *)
theory Patch
  imports Prelude
begin

text \<open>
  The \<open>apply_patch\<close> tool (\<open>pkg/tools/applypatch/applypatch.go\<close>): a patch text is parsed into file
  operations, and the hunks of an update are located in the lines of a file and spliced in. The
  parser's index into the lines is the list of lines that remain.
\<close>

section \<open>Lines\<close>

text \<open>\<open>strings.Split\<close> and \<open>strings.Join\<close> with a one-byte separator.\<close>

fun split_char :: "char \<Rightarrow> string \<Rightarrow> string list" where
  "split_char c [] = [[]]"
| "split_char c (x # xs) =
     (if x = c then [] # split_char c xs
      else case split_char c xs of [] \<Rightarrow> [[x]] | l # ls \<Rightarrow> (x # l) # ls)"

fun join_char :: "char \<Rightarrow> string list \<Rightarrow> string" where
  "join_char c [] = []"
| "join_char c [l] = l"
| "join_char c (l # l2 # ls) = l @ c # join_char c (l2 # ls)"

definition newline :: char where "newline = CHR 0x0A"

definition scanner_lines :: "string \<Rightarrow> string list" where
  "scanner_lines text =
     (if text = [] then [] else if trim_space text = [] then []
      else split_char newline (trim_space text))"

definition split_preserving_line_structure :: "string \<Rightarrow> string list" where
  "split_preserving_line_structure text =
     (if text = [] then []
      else let ls = split_char newline text
           in if ls \<noteq> [] \<and> last ls = [] then butlast ls else ls)"

section \<open>Patches\<close>

record patch_hunk =
  h_header :: string
  h_lines :: "(char \<times> string) list"

datatype patch_op =
    AddFile string "string list"
  | UpdateFile string "patch_hunk list"

datatype patch_error =
    PatchEmpty
  | PatchNoBegin
  | PatchAfterEnd
  | PatchUnexpectedLine string
  | PatchNoEnd
  | AddNoPath
  | AddBadLine string
  | AddNoLines
  | UpdateNoPath
  | UpdateNoHeader string
  | HunkEmptyLine
  | HunkBadLine string
  | HunkNoLines

definition begin_patch :: string where "begin_patch = ''*** Begin Patch''"
definition end_patch :: string where "end_patch = ''*** End Patch''"
definition add_file :: string where "add_file = ''*** Add File: ''"
definition update_file :: string where "update_file = ''*** Update File: ''"
definition end_of_file :: string where "end_of_file = ''*** End of File''"
definition stars :: string where "stars = ''*** ''"
definition hunk_mark :: string where "hunk_mark = ''@@''"

fun parse_add_lines :: "string list \<Rightarrow> patch_error + (string list \<times> string list)" where
  "parse_add_lines [] = Inr ([], [])"
| "parse_add_lines (l # ls) =
     (if has_prefix l stars then Inr ([], l # ls)
      else if \<not> has_prefix l ''+'' then Inl (AddBadLine l)
      else case parse_add_lines ls of
          Inl e \<Rightarrow> Inl e
        | Inr (ts, rest) \<Rightarrow> Inr (drop 1 l # ts, rest))"

definition parse_add_file_op :: "string \<Rightarrow> string list \<Rightarrow> patch_error + (patch_op \<times> string list)" where
  "parse_add_file_op l ls =
     (let path = trim_space (trim_prefix l add_file)
      in if path = [] then Inl AddNoPath
         else case parse_add_lines ls of
             Inl e \<Rightarrow> Inl e
           | Inr (ts, rest) \<Rightarrow> if ts = [] then Inl AddNoLines else Inr (AddFile path ts, rest))"

fun parse_hunk_lines :: "string list \<Rightarrow> patch_error + ((char \<times> string) list \<times> string list)" where
  "parse_hunk_lines [] = Inr ([], [])"
| "parse_hunk_lines (l # ls) =
     (if l = end_of_file then Inr ([], ls)
      else if has_prefix l hunk_mark \<or> has_prefix l stars then Inr ([], l # ls)
      else case l of
          [] \<Rightarrow> Inl HunkEmptyLine
        | k # t \<Rightarrow>
            if k \<noteq> CHR '' '' \<and> k \<noteq> CHR ''+'' \<and> k \<noteq> CHR ''-'' then Inl (HunkBadLine l)
            else case parse_hunk_lines ls of
                Inl e \<Rightarrow> Inl e
              | Inr (hs, rest) \<Rightarrow> Inr ((k, t) # hs, rest))"

lemma parse_add_lines_length: "parse_add_lines ls = Inr (ts, rest) \<Longrightarrow> length rest \<le> length ls"
  by (induction ls arbitrary: ts) (auto split: if_splits sum.splits)

lemma parse_hunk_lines_length: "parse_hunk_lines ls = Inr (ts, rest) \<Longrightarrow> length rest \<le> length ls"
  by (induction ls arbitrary: ts) (auto split: if_splits sum.splits list.splits)

function parse_hunks :: "string list \<Rightarrow> patch_error + (patch_hunk list \<times> string list)" where
  "parse_hunks [] = Inr ([], [])"
| "parse_hunks (l # ls) =
     (if has_prefix l stars then Inr ([], l # ls)
      else if \<not> has_prefix l hunk_mark then Inl (UpdateNoHeader l)
      else case parse_hunk_lines ls of
          Inl e \<Rightarrow> Inl e
        | Inr (hs, rest) \<Rightarrow>
            if hs = [] then Inl HunkNoLines
            else case parse_hunks rest of
                Inl e \<Rightarrow> Inl e
              | Inr (hunks, rest') \<Rightarrow>
                  Inr (\<lparr>h_header = trim_space (trim_prefix l hunk_mark), h_lines = hs\<rparr> # hunks, rest'))"
  by pat_completeness auto
termination
  by (relation "measure length") (auto dest!: parse_hunk_lines_length)

definition parse_update_file_op :: "string \<Rightarrow> string list \<Rightarrow> patch_error + (patch_op \<times> string list)" where
  "parse_update_file_op l ls =
     (let path = trim_space (trim_prefix l update_file)
      in if path = [] then Inl UpdateNoPath
         else case parse_hunks ls of
             Inl e \<Rightarrow> Inl e
           | Inr (hunks, rest) \<Rightarrow> Inr (UpdateFile path hunks, rest))"

lemma parse_hunks_length: "parse_hunks ls = Inr (hs, rest) \<Longrightarrow> length rest \<le> length ls"
proof (induction ls arbitrary: hs rule: parse_hunks.induct)
  case (2 l ls)
  show ?case
  proof (cases "has_prefix l stars")
    case False
    with 2(2) obtain hl ls' hunks where hl: "parse_hunk_lines ls = Inr (hl, ls')" "hl \<noteq> []"
      and mark: "has_prefix l hunk_mark" and hunks: "parse_hunks ls' = Inr (hunks, rest)"
      by (auto split: if_splits sum.splits prod.splits)
    from 2(1)[OF False _ hl(1) refl hl(2) hunks] mark have "length rest \<le> length ls'" by simp
    with parse_hunk_lines_length[OF hl(1)] show ?thesis by simp
  qed (use 2(2) in simp)
qed simp

lemma parse_op_length:
  "parse_add_file_op l ls = Inr (x, rest) \<Longrightarrow> length rest \<le> length ls"
  "parse_update_file_op l ls = Inr (x, rest) \<Longrightarrow> length rest \<le> length ls"
  by (auto simp: parse_add_file_op_def parse_update_file_op_def Let_def
      dest: parse_add_lines_length parse_hunks_length split: if_splits sum.splits)

function parse_ops :: "string list \<Rightarrow> patch_error + patch_op list" where
  "parse_ops [] = Inl PatchNoEnd"
| "parse_ops (l # ls) =
     (if l = end_patch then (if ls \<noteq> [] then Inl PatchAfterEnd else Inr [])
      else if has_prefix l add_file then
        (case parse_add_file_op l ls of
           Inl e \<Rightarrow> Inl e
         | Inr (x, rest) \<Rightarrow> map_sum id (\<lambda>xs. x # xs) (parse_ops rest))
      else if has_prefix l update_file then
        (case parse_update_file_op l ls of
           Inl e \<Rightarrow> Inl e
         | Inr (x, rest) \<Rightarrow> map_sum id (\<lambda>xs. x # xs) (parse_ops rest))
      else Inl (PatchUnexpectedLine l))"
  by pat_completeness auto
termination
  by (relation "measure length") (auto dest!: parse_op_length)

definition parse_apply_patch :: "string \<Rightarrow> patch_error + patch_op list" where
  "parse_apply_patch input =
     (case scanner_lines (trim_space input) of
        [] \<Rightarrow> Inl PatchEmpty
      | l # ls \<Rightarrow> if l \<noteq> begin_patch then Inl PatchNoBegin else parse_ops ls)"

section \<open>Hunks\<close>

definition patch_hunk_old :: "patch_hunk \<Rightarrow> string list" where
  "patch_hunk_old h = map snd (filter (\<lambda>x. fst x \<noteq> CHR ''+'') (h_lines h))"

definition patch_hunk_new :: "patch_hunk \<Rightarrow> string list" where
  "patch_hunk_new h = map snd (filter (\<lambda>x. fst x \<noteq> CHR ''-'') (h_lines h))"

definition find_patch_match :: "string list \<Rightarrow> string list \<Rightarrow> nat \<Rightarrow> nat option" where
  "find_patch_match ls target start =
     (if target = [] then Some (if start > length ls then length ls else start)
      else find (\<lambda>i. take (length target) (drop i ls) = target) [start ..< length ls + 1 - length target])"

definition splice_lines :: "string list \<Rightarrow> nat \<Rightarrow> nat \<Rightarrow> string list \<Rightarrow> string list" where
  "splice_lines ls start stop replacement = take start ls @ replacement @ drop stop ls"

fun apply_hunks_from :: "nat \<Rightarrow> string list \<Rightarrow> patch_hunk list \<Rightarrow> string list option" where
  "apply_hunks_from cursor ls [] = Some ls"
| "apply_hunks_from cursor ls (h # hs) =
     (let old_lines = patch_hunk_old h; new_lines = patch_hunk_new h
      in case (case find_patch_match ls old_lines cursor of
                 Some i \<Rightarrow> Some i
               | None \<Rightarrow> find_patch_match ls old_lines 0) of
           None \<Rightarrow> None
         | Some i \<Rightarrow>
             apply_hunks_from (i + length new_lines)
               (splice_lines ls i (i + length old_lines) new_lines) hs)"

definition apply_patch_hunks :: "string list \<Rightarrow> patch_hunk list \<Rightarrow> string list option" where
  "apply_patch_hunks ls hunks = apply_hunks_from 0 ls hunks"

section \<open>Files\<close>

text \<open>The content an add writes, and the content an update writes over the original.\<close>

definition add_content :: "string list \<Rightarrow> string" where
  "add_content ls = join_char newline ls @ (if ls \<noteq> [] then [newline] else [])"

definition updated_content :: "string \<Rightarrow> patch_hunk list \<Rightarrow> string option" where
  "updated_content original hunks =
     (case apply_patch_hunks (split_preserving_line_structure original) hunks of
        None \<Rightarrow> None
      | Some updated \<Rightarrow>
          Some (join_char newline updated @
                (if has_suffix original [newline] \<and> updated \<noteq> [] then [newline] else [])))"

end
