(* ===== verification/PatchLaws.thy ===== *)
theory PatchLaws
  imports Patch
begin

text \<open>
  Lemmas on patches: a rendered patch parses back to itself, and applying hunks replaces, for each
  hunk, one occurrence of its old lines by its new ones.
\<close>

section \<open>Lines\<close>

lemma split_char_nonempty [simp]: "split_char c s \<noteq> []"
  by (induction s) (auto split: list.splits)

lemma split_char_append:
  "c \<notin> set l \<Longrightarrow> split_char c (l @ c # s) = l # split_char c s"
  by (induction l) auto

lemma split_char_single: "c \<notin> set l \<Longrightarrow> split_char c l = [l]"
  by (induction l) auto

lemma split_join:
  "ls \<noteq> [] \<Longrightarrow> \<forall>l \<in> set ls. c \<notin> set l \<Longrightarrow> split_char c (join_char c ls) = ls"
  by (induction ls rule: join_char.induct) (auto simp: split_char_append split_char_single)

lemma join_split: "join_char c (split_char c s) = s"
proof (induction s)
  case (Cons x s)
  obtain l ls where sp: "split_char c s = l # ls" by (cases "split_char c s") auto
  with Cons show ?case by (cases ls) auto
qed simp

lemma split_char_lines: "l \<in> set (split_char c s) \<Longrightarrow> c \<notin> set l"
  by (induction s arbitrary: l) (auto split: if_splits list.splits)

lemma split_preserving_join:
  assumes "\<forall>l \<in> set ls. newline \<notin> set l" and "ls \<noteq> []"
  shows "split_preserving_line_structure (join_char newline ls @ [newline]) = ls"
proof -
  have e: "join_char newline ls @ [newline] = join_char newline (ls @ [[]])"
    using assms(2) by (induction ls rule: join_char.induct) auto
  have "split_char newline (join_char newline ls @ [newline]) = ls @ [[]]"
    unfolding e using assms(1) by (intro split_join) auto
  then show ?thesis by (simp add: split_preserving_line_structure_def Let_def)
qed

section \<open>Texts that trimming leaves alone\<close>

text \<open>A printable ASCII character ends no white space and begins none.\<close>

definition visible :: "char \<Rightarrow> bool" where
  "visible c \<longleftrightarrow> (\<forall>p \<in> set go_spaces. hd p \<noteq> c \<and> last p \<noteq> c)"

lemma trim_space_visible:
  assumes "s \<noteq> []" and "visible (hd s)" and "visible (last s)"
  shows "trim_space s = s"
proof -
  have no: "\<not> has_prefix s p" if "p \<in> set go_spaces" "p \<noteq> []" for p
  proof
    assume "has_prefix s p"
    then have "hd p = hd s" using that(2) by (metis has_prefixD hd_append2)
    with assms(2) that(1) show False by (auto simp: visible_def)
  qed
  then have l: "trim_left s = s" unfolding trim_left_def by (intro strip_pre_fixed)
  have no2: "\<not> has_prefix (rev s) p" if "p \<in> set (map rev go_spaces)" "p \<noteq> []" for p
  proof
    assume "has_prefix (rev s) p"
    then have "hd p = hd (rev s)" using that(2) by (metis has_prefixD hd_append2)
    with assms(1) that have "last (rev p) = last s" "rev p \<in> set go_spaces"
      by (auto simp: hd_rev last_rev)
    with assms(3) show False by (auto simp: visible_def)
  qed
  then have "trim_right s = s" unfolding trim_right_def by (subst strip_pre_fixed) auto
  with l show ?thesis by (simp add: trim_space_def)
qed

lemma visible_star_h: "visible (CHR ''*'')" "visible (CHR ''h'')"
  by (simp_all add: visible_def go_spaces_def)

section \<open>Rendering\<close>

definition render_hunk :: "patch_hunk \<Rightarrow> string list" where
  "render_hunk h =
     (hunk_mark @ (if h_header h = [] then [] else '' '' @ h_header h)) # map (\<lambda>(k, t). k # t) (h_lines h)"

fun render_op :: "patch_op \<Rightarrow> string list" where
  "render_op (AddFile p ls) = (add_file @ p) # map ((#) CHR ''+'') ls"
| "render_op (UpdateFile p hs) = (update_file @ p) # concat (map render_hunk hs)"

definition render_patch :: "patch_op list \<Rightarrow> string" where
  "render_patch xs = join_char newline (begin_patch # concat (map render_op xs) @ [end_patch])"

definition trimmed :: "string \<Rightarrow> bool" where
  "trimmed s \<longleftrightarrow> trim_space s = s \<and> newline \<notin> set s"

definition hunk_wf :: "patch_hunk \<Rightarrow> bool" where
  "hunk_wf h \<longleftrightarrow> h_lines h \<noteq> [] \<and> trimmed (h_header h) \<and> trim_space ('' '' @ h_header h) = h_header h \<and>
     (\<forall>(k, t) \<in> set (h_lines h). k \<in> {CHR '' '', CHR ''+'', CHR ''-''} \<and> newline \<notin> set t)"

fun op_wf :: "patch_op \<Rightarrow> bool" where
  "op_wf (AddFile p ls) \<longleftrightarrow> p \<noteq> [] \<and> trimmed p \<and> ls \<noteq> [] \<and> (\<forall>l \<in> set ls. newline \<notin> set l)"
| "op_wf (UpdateFile p hs) \<longleftrightarrow> p \<noteq> [] \<and> trimmed p \<and> (\<forall>h \<in> set hs. hunk_wf h)"

text \<open>A line at which the lines of an operation end.\<close>

definition op_end :: "string list \<Rightarrow> bool" where
  "op_end rest \<longleftrightarrow> (case rest of [] \<Rightarrow> False | l # _ \<Rightarrow> has_prefix l stars \<and> l \<noteq> end_of_file)"

lemma prefix_marks [simp]:
  "has_prefix (add_file @ p) stars" "has_prefix (update_file @ p) stars" "has_prefix end_patch stars"
  "\<not> has_prefix (update_file @ p) add_file" "\<not> has_prefix (''+'' @ l) stars" "\<not> has_prefix (CHR ''+'' # l) stars"
  "has_prefix (CHR ''+'' # l) ''+''" "add_file @ p \<noteq> end_patch" "update_file @ p \<noteq> end_patch"
  "add_file @ p \<noteq> end_of_file" "update_file @ p \<noteq> end_of_file" "end_patch \<noteq> end_of_file"
  "has_prefix (hunk_mark @ x) hunk_mark" "\<not> has_prefix (hunk_mark @ x) stars" "hunk_mark @ x \<noteq> end_of_file"
  by (simp_all add: has_prefix_def add_file_def update_file_def stars_def end_patch_def end_of_file_def hunk_mark_def)

lemma parse_add_lines_render:
  "op_end rest \<Longrightarrow> parse_add_lines (map ((#) CHR ''+'') ls @ rest) = Inr (ls, rest)"
  by (induction ls) (auto simp: op_end_def split: list.splits)

lemma parse_hunk_lines_render:
  assumes "\<forall>(k, t) \<in> set hs. k \<in> {CHR '' '', CHR ''+'', CHR ''-''}"
    and "op_end rest \<or> (\<exists>x r. rest = (hunk_mark @ x) # r)"
  shows "parse_hunk_lines (map (\<lambda>(k, t). k # t) hs @ rest) = Inr (hs, rest)"
  using assms(1)
proof (induction hs)
  case Nil
  from assms(2) show ?case
  proof
    assume "\<exists>x r. rest = (hunk_mark @ x) # r"
    then obtain x r where "rest = (hunk_mark @ x) # r" by blast
    then show ?thesis by (simp add: parse_hunk_lines.simps(2))
  qed (auto simp: op_end_def split: list.splits)
next
  case (Cons x hs)
  obtain k t where x: "x = (k, t)" by (cases x)
  with Cons.prems have k: "k = CHR '' '' \<or> k = CHR ''+'' \<or> k = CHR ''-''" by simp
  then have "\<not> has_prefix (k # t) stars" "\<not> has_prefix (k # t) hunk_mark" "k # t \<noteq> end_of_file"
    by (auto simp: has_prefix_def stars_def hunk_mark_def end_of_file_def)
  with Cons x k show ?case by auto
qed

lemma parse_hunks_render:
  assumes "op_end rest"
  shows "\<forall>h \<in> set hs. hunk_wf h \<Longrightarrow> parse_hunks (concat (map render_hunk hs) @ rest) = Inr (hs, rest)"
proof (induction hs)
  case Nil
  from assms show ?case by (cases rest) (auto simp: op_end_def)
next
  case (Cons h hs)
  let ?tail = "concat (map render_hunk hs) @ rest"
  have "op_end ?tail \<or> (\<exists>x r. ?tail = (hunk_mark @ x) # r)"
    using assms by (cases hs) (auto simp: render_hunk_def)
  with Cons.prems have lines: "parse_hunk_lines (map (\<lambda>(k, t). k # t) (h_lines h) @ ?tail) = Inr (h_lines h, ?tail)"
    by (intro parse_hunk_lines_render) (auto simp: hunk_wf_def)
  from Cons.prems have wf: "hunk_wf h" "h_lines h \<noteq> []" by (auto simp: hunk_wf_def)
  have head: "trim_space (if h_header h = [] then [] else '' '' @ h_header h) = h_header h"
    using wf(1) by (simp add: hunk_wf_def)
  have "parse_hunks (concat (map render_hunk (h # hs)) @ rest) =
      parse_hunks ((hunk_mark @ (if h_header h = [] then [] else '' '' @ h_header h)) #
        (map (\<lambda>(k, t). k # t) (h_lines h) @ ?tail))"
    by (simp add: render_hunk_def)
  also have "\<dots> = Inr (\<lparr>h_header = trim_space (if h_header h = [] then [] else '' '' @ h_header h), h_lines = h_lines h\<rparr> # hs, rest)"
    using Cons.IH Cons.prems wf(2) by (simp add: lines del: append_assoc)
  also have "\<dots> = Inr (h # hs, rest)" by (simp only: head) simp
  finally show ?case .
qed

lemma parse_ops_render:
  "\<forall>x \<in> set xs. op_wf x \<Longrightarrow> parse_ops (concat (map render_op xs) @ [end_patch]) = Inr xs"
proof (induction xs)
  case (Cons x xs)
  let ?tail = "concat (map render_op xs) @ [end_patch]"
  have tail: "op_end ?tail"
  proof (cases xs)
    case (Cons a list)
    then show ?thesis by (cases a) (simp_all add: op_end_def)
  qed (simp add: op_end_def)
  show ?case
  proof (cases x)
    case (AddFile p ls)
    with Cons.prems have "parse_add_file_op (add_file @ p) (map ((#) CHR ''+'') ls @ ?tail) = Inr (x, ?tail)"
      using parse_add_lines_render [OF tail, of ls] by (simp add: parse_add_file_op_def Let_def trimmed_def)
    with Cons AddFile show ?thesis by simp
  next
    case (UpdateFile p hs)
    with Cons.prems have "parse_update_file_op (update_file @ p) (concat (map render_hunk hs) @ ?tail) = Inr (x, ?tail)"
      using parse_hunks_render [OF tail, of hs] by (simp add: parse_update_file_op_def Let_def trimmed_def)
    with Cons UpdateFile show ?thesis by simp
  qed
qed simp

lemma mark_no_newline [simp]:
  "newline \<notin> set add_file" "newline \<notin> set update_file" "newline \<notin> set hunk_mark"
  "newline \<noteq> CHR '' ''" "newline \<noteq> CHR ''+''" "newline \<noteq> CHR ''-''"
  by (simp_all add: add_file_def update_file_def hunk_mark_def newline_def)

lemma render_hunk_no_newline:
  assumes "hunk_wf h" and "l \<in> set (render_hunk h)"
  shows "newline \<notin> set l"
  using assms(2) unfolding render_hunk_def set_simps(2)
proof
  assume "l = hunk_mark @ (if h_header h = [] then [] else '' '' @ h_header h)"
  with assms(1) show ?thesis by (simp add: hunk_wf_def trimmed_def)
next
  assume "l \<in> set (map (\<lambda>(k, t). k # t) (h_lines h))"
  then obtain k t where "(k, t) \<in> set (h_lines h)" "l = k # t" by auto
  with assms(1) show ?thesis by (auto simp: hunk_wf_def)
qed

lemma render_no_newline:
  assumes "op_wf x" and "l \<in> set (render_op x)"
  shows "newline \<notin> set l"
proof (cases x)
  case (AddFile p ls)
  with assms show ?thesis by (auto simp: trimmed_def)
next
  case (UpdateFile p hs)
  with assms(2) consider "l = update_file @ p" | h where "h \<in> set hs" "l \<in> set (render_hunk h)" by auto
  then show ?thesis using assms(1) UpdateFile render_hunk_no_newline by cases (auto simp: trimmed_def)
qed

lemma parse_render:
  assumes "\<forall>x \<in> set xs. op_wf x"
  shows "parse_apply_patch (render_patch xs) = Inr xs"
proof -
  let ?ls = "begin_patch # concat (map render_op xs) @ [end_patch]"
  have nl: "\<forall>l \<in> set ?ls. newline \<notin> set l"
    using assms render_no_newline by (auto simp: begin_patch_def end_patch_def newline_def)
  have last: "last (join_char c (l # ls @ [z])) = last z" if "z \<noteq> []" for c l ls z
  proof (induction ls arbitrary: l)
    case (Cons a ls)
    have "join_char c (a # ls @ [z]) \<noteq> []" using that by (cases ls) auto
    with Cons show ?case by simp
  qed (use that in simp)
  have hd: "hd (render_patch xs) = CHR ''*''" "render_patch xs \<noteq> []"
    by (cases "concat (map render_op xs) @ [end_patch]"; simp add: render_patch_def begin_patch_def)+
  have "last (render_patch xs) = CHR ''h''"
    using last [of end_patch newline begin_patch "concat (map render_op xs)"]
    by (simp add: render_patch_def end_patch_def)
  with hd visible_star_h have t: "trim_space (render_patch xs) = render_patch xs"
    by (intro trim_space_visible) simp_all
  have "split_char newline (render_patch xs) = ?ls"
    unfolding render_patch_def by (rule split_join) (use nl in auto)
  with t hd(2) parse_ops_render [OF assms] show ?thesis
    by (simp add: parse_apply_patch_def scanner_lines_def)
qed

section \<open>Applying hunks\<close>

lemma find_patch_match_sound:
  assumes "find_patch_match ls target start = Some i"
  shows "i + length target \<le> length ls \<and> take (length target) (drop i ls) = target"
proof (cases "target = []")
  case True
  with assms show ?thesis by (auto simp: find_patch_match_def split: if_splits)
next
  case False
  with assms have "i \<in> set [start ..< length ls + 1 - length target]" "take (length target) (drop i ls) = target"
    by (auto simp: find_patch_match_def find_Some_iff)
  then show ?thesis by auto
qed

lemma find_patch_match_complete:
  assumes "take (length target) (drop i ls) = target" and "i + length target \<le> length ls"
  shows "\<exists>j. find_patch_match ls target 0 = Some j \<and> j \<le> i"
proof (cases "target = []")
  case False
  have ne: "find_patch_match ls target 0 \<noteq> None"
    using False assms by (auto simp: find_patch_match_def find_None_iff intro!: exI [of _ i])
  then obtain j where j: "find_patch_match ls target 0 = Some j" by auto
  with False obtain k where k: "k < length [0 ..< length ls + 1 - length target]" "j = [0 ..< length ls + 1 - length target] ! k"
    "\<forall>m < k. take (length target) (drop ([0 ..< length ls + 1 - length target] ! m) ls) \<noteq> target"
    by (auto simp: find_patch_match_def find_Some_iff)
  then have "j = k" by simp
  moreover have "\<not> i < k" using k assms(1) by auto
  ultimately show ?thesis using j by auto
qed (simp add: find_patch_match_def)

text \<open>Each hunk replaces one occurrence of its old lines.\<close>

inductive hunks_replaced :: "string list \<Rightarrow> patch_hunk list \<Rightarrow> string list \<Rightarrow> bool" where
  replaced_Nil: "hunks_replaced ls [] ls"
| replaced_Cons: "hunks_replaced (pre @ patch_hunk_new h @ post) hs ls' \<Longrightarrow>
    hunks_replaced (pre @ patch_hunk_old h @ post) (h # hs) ls'"

inductive_simps hunks_replaced_Nil [simp]: "hunks_replaced ls [] ls'"

lemma take_drop_split:
  "i + length t \<le> length ls \<Longrightarrow> take (length t) (drop i ls) = t \<Longrightarrow> ls = take i ls @ t @ drop (i + length t) ls"
  by (metis append_take_drop_id add.commute drop_drop)

lemma apply_hunks_sound:
  "apply_hunks_from cursor ls hs = Some ls' \<Longrightarrow> hunks_replaced ls hs ls'"
proof (induction hs arbitrary: cursor ls)
  case (Cons h hs)
  from Cons.prems obtain i start where m: "find_patch_match ls (patch_hunk_old h) start = Some i"
    and rest: "apply_hunks_from (i + length (patch_hunk_new h))
      (splice_lines ls i (i + length (patch_hunk_old h)) (patch_hunk_new h)) hs = Some ls'"
    by (auto simp: Let_def split: option.splits)
  from find_patch_match_sound [OF m] have
    ls: "ls = take i ls @ patch_hunk_old h @ drop (i + length (patch_hunk_old h)) ls"
    by (intro take_drop_split) auto
  from Cons.IH [OF rest] have
    "hunks_replaced (take i ls @ patch_hunk_new h @ drop (i + length (patch_hunk_old h)) ls) hs ls'"
    by (simp add: splice_lines_def)
  then have "hunks_replaced (take i ls @ patch_hunk_old h @ drop (i + length (patch_hunk_old h)) ls) (h # hs) ls'"
    by (rule replaced_Cons)
  with ls show ?case by simp
qed (simp add: replaced_Nil)

lemma apply_one_hunk_complete:
  assumes "ls = pre @ patch_hunk_old h @ post"
  shows "\<exists>ls'. apply_patch_hunks ls [h] = Some ls'"
proof -
  have "\<exists>j. find_patch_match ls (patch_hunk_old h) 0 = Some j \<and> j \<le> length pre"
    by (rule find_patch_match_complete) (simp_all add: assms)
  then show ?thesis by (auto simp: apply_patch_hunks_def Let_def)
qed

end
