(* ===== verification/Samples.thy ===== *)
theory Samples
  imports DispatchLaws AgentLoopLaws PatchLaws
begin

text \<open>
  A small history of one namespace, used to evaluate the operations: an agent, three messages to it, a
  schedule, and a worker that claims the first message. Every state is computed by the operations.
\<close>

definition sample_clock :: "nat \<Rightarrow> go_time" where
  "sample_clock n = 1700000000 * second + int n * second"

definition sample_ids :: "string \<Rightarrow> nat \<Rightarrow> string" where
  "sample_ids kind n = kind @ ''-'' @ nat_str n"

text \<open>A cron expression that fires every minute, in every zone.\<close>

definition sample_cron :: cron_lib where
  "sample_cron =
     \<lparr>cron_parse = (\<lambda>expr. if expr = ''* * * * *'' then Some (\<lambda>_ t. (t div minute + 1) * minute) else None),
      zone_known = (\<lambda>z. z = ''UTC'')\<rparr>"

definition sample_namespace :: create_namespace_params where
  "sample_namespace = \<lparr>cn_id = ''ops'', cn_name = ''Operations'', cn_limits = GNil\<rparr>"

definition sample_agent :: create_agent_params where
  "sample_agent =
     \<lparr>ca_namespace = ''ops'', ca_agent = ''scout'', ca_name = ''Scout'', ca_role = [], ca_desired = [],
      ca_root = ''/srv/scout'', ca_provider = [], ca_model = ''gpt-5'', ca_base_url = [], ca_preserve = False,
      ca_max_steps = 0, ca_step_timeout = 0, ca_max_output = 0, ca_lease_duration = 0, ca_retry_delay = 0,
      ca_max_attempts = 0, ca_config = GNil, ca_prompt = ''Watch the logs.'', ca_schema = GNil\<rparr>"

definition sample_message :: "gval \<Rightarrow> create_message_params" where
  "sample_message v =
     \<lparr>cp_namespace = ''ops'', cp_message = [], cp_thread = [], cp_sender = [], cp_recipient = ''scout'',
      cp_kind = [], cp_payload = v, cp_metadata = GNil, cp_available = zero_time, cp_max_attempts = 2\<rparr>"

definition sample_schedule :: create_schedule_params where
  "sample_schedule =
     \<lparr>cs_namespace = ''ops'', cs_schedule = ''tick'', cs_agent = ''scout'', cs_cron = ''* * * * *'', cs_zone = [],
      cs_payload = GStr ''tick'', cs_enabled = True\<rparr>"

definition sample_queue :: message_queue where
  "sample_queue =
     \<lparr>q_namespace = ''ops'', q_agent = ''scout'', q_lease_owner = ''worker-1'', q_lease_duration = 60 * second,
      q_system_prompt = ''Watch the logs.''\<rparr>"

text \<open>\<open>os.MkdirAll\<close> succeeds for every path.\<close>

definition sample_mkdir :: "string \<Rightarrow> bool" where "sample_mkdir p = True"

definition sample_step :: "nat \<Rightarrow> store \<Rightarrow> store" where
  "sample_step n s =
     (if n = 0 then snd (create_namespace (sample_clock 0) ''ns'' sample_namespace s)
      else if n = 1 then snd (create_agent sample_mkdir (sample_clock 1) ''a'' ''prompt-1'' sample_agent s)
      else if n = 2 then snd (enqueue_message (sample_clock 2) ''msg-1'' (sample_message (GStr ''look'')) s)
      else if n = 3 then snd (enqueue_message (sample_clock 3) ''msg-2'' (sample_message (GStr ''wait'')) s)
      else snd (create_schedule sample_cron (sample_clock 4) ''s'' sample_schedule s))"

definition sample_store :: store where
  "sample_store =
     sample_step 4 (sample_step 3 (sample_step 2 (sample_step 1 (sample_step 0 (empty_store ''server'')))))"

text \<open>The rows the five operations leave; later evaluations start from them.\<close>

lemma sample_store_code [code]:
  "sample_store =
  \<lparr>namespaces =
    [\<lparr>n_id = ''ops'', n_name = ''Operations'', n_limits = NoText,
        n_created = 1700000000000, n_updated = 1700000000000\<rparr>],
    agents =
      [\<lparr>a_namespace = ''ops'', a_id = ''scout'', a_name = ''Scout'',
          a_role = ''worker'', a_desired = ''running'',
          a_root = ''/srv/scout'', a_provider = ''openai'',
          a_model = ''gpt-5'', a_base_url = [], a_preserve = False,
          a_max_steps = 32, a_step_timeout = 300000, a_max_output = 65536,
          a_lease_duration = 300000, a_retry_delay = 30000,
          a_max_attempts = 5, a_config = NoText,
          a_prompt_version = ''prompt-1'', a_created = 1700000001000,
          a_updated = 1700000001000\<rparr>],
    prompts =
      [\<lparr>p_namespace = ''ops'', p_id = ''prompt-1'', p_agent = ''scout'',
          p_version = 1, p_prompt = ''Watch the logs.'', p_schema = NoText,
          p_created = 1700000001000\<rparr>],
    messages =
      [\<lparr>m_namespace = ''ops'', m_id = ''msg-1'', m_thread = ''msg-1'',
          m_sender = [], m_recipient = ''scout'',
          m_kind = ''mailbox.message'',
          m_payload = Env 1 ''mailbox_payload'' (Some (GStr ''look'')),
          m_metadata = NoText, m_status = Queued,
          m_available = 1700000002000, m_lease_owner = [],
          m_lease_expires = None, m_attempts = 0, m_max_attempts = 2,
          m_run = [], m_dead_reason = [], m_last_error = [],
          m_created = 1700000002000, m_updated = 1700000002000,
          m_claimed = None, m_completed = None\<rparr>,
       \<lparr>m_namespace = ''ops'', m_id = ''msg-2'', m_thread = ''msg-2'',
          m_sender = [], m_recipient = ''scout'',
          m_kind = ''mailbox.message'',
          m_payload = Env 1 ''mailbox_payload'' (Some (GStr ''wait'')),
          m_metadata = NoText, m_status = Queued,
          m_available = 1700000003000, m_lease_owner = [],
          m_lease_expires = None, m_attempts = 0, m_max_attempts = 2,
          m_run = [], m_dead_reason = [], m_last_error = [],
          m_created = 1700000003000, m_updated = 1700000003000,
          m_claimed = None, m_completed = None\<rparr>],
    schedules =
      [\<lparr>s_namespace = ''ops'', s_id = ''tick'', s_agent = ''scout'',
          s_cron = ''* * * * *'', s_zone = ''UTC'',
          s_payload = Env 1 ''schedule_payload'' (Some (GStr ''tick'')),
          s_enabled = True, s_next = Some 1700000040000, s_last = None,
          s_created = 1700000004000, s_updated = 1700000004000\<rparr>],
    runs = [], steps = [], lease_owner_id = ''server''\<rparr>"
  by code_simp

definition sample_claim :: "(store_error + message \<times> run_row) \<times> store" where
  "sample_claim =
     claim_next_message (queue_claim_params sample_queue) (\<lambda>i. sample_clock (5 + i)) (sample_ids ''run'') sample_store"

definition leased_store :: store where "leased_store = snd sample_claim"
definition leased_pair :: "message \<times> run_row" where
  "leased_pair = projr (fst sample_claim)"

lemma leased_store_code [code]:
  "leased_store =
  sample_store\<lparr>
    messages :=
      [\<lparr>m_namespace = ''ops'', m_id = ''msg-1'', m_thread = ''msg-1'',
          m_sender = [], m_recipient = ''scout'',
          m_kind = ''mailbox.message'',
          m_payload = Env 1 ''mailbox_payload'' (Some (GStr ''look'')),
          m_metadata = NoText, m_status = Leased,
          m_available = 1700000002000, m_lease_owner = ''worker-1'',
          m_lease_expires = Some 1700000065000, m_attempts = 1,
          m_max_attempts = 2, m_run = ''run-0'', m_dead_reason = [],
          m_last_error = [], m_created = 1700000002000,
          m_updated = 1700000005000, m_claimed = Some 1700000005000,
          m_completed = None\<rparr>,
       \<lparr>m_namespace = ''ops'', m_id = ''msg-2'', m_thread = ''msg-2'',
          m_sender = [], m_recipient = ''scout'',
          m_kind = ''mailbox.message'',
          m_payload = Env 1 ''mailbox_payload'' (Some (GStr ''wait'')),
          m_metadata = NoText, m_status = Queued,
          m_available = 1700000003000, m_lease_owner = [],
          m_lease_expires = None, m_attempts = 0, m_max_attempts = 2,
          m_run = [], m_dead_reason = [], m_last_error = [],
          m_created = 1700000003000, m_updated = 1700000003000,
          m_claimed = None, m_completed = None\<rparr>],
    runs :=
      [\<lparr>r_namespace = ''ops'', r_id = ''run-0'', r_message = ''msg-1'',
          r_agent = ''scout'', r_trigger = ''msg-1'',
          r_status = ''running'', r_started = 1700000005000,
          r_finished = None, r_duration = 0, r_cwd = [],
          r_cached_tokens = 0, r_thought = [], r_value = NoText,
          r_error = [], r_trigger_prompt = PlainPrompt ''look'',
          r_system_prompt = ''Watch the logs.'', r_created = 1700000005000,
          r_updated = 1700000005000\<rparr>]\<rparr>"
  by code_simp

lemma leased_pair_code [code]:
  "leased_pair =
  (\<lparr>m_namespace = ''ops'', m_id = ''msg-1'', m_thread = ''msg-1'',
     m_sender = [], m_recipient = ''scout'', m_kind = ''mailbox.message'',
     m_payload = Env 1 ''mailbox_payload'' (Some (GStr ''look'')),
     m_metadata = NoText, m_status = Leased,
     m_available = 1700000002000000000, m_lease_owner = ''worker-1'',
     m_lease_expires = Some 1700000065000000000, m_attempts = 1,
     m_max_attempts = 2, m_run = ''run-0'', m_dead_reason = [],
     m_last_error = [], m_created = 1700000002000000000,
     m_updated = 1700000005000000000, m_claimed = Some 1700000005000000000,
     m_completed = None\<rparr>,
  \<lparr>r_namespace = ''ops'', r_id = ''run-0'', r_message = ''msg-1'',
     r_agent = ''scout'', r_trigger = ''msg-1'', r_status = ''running'',
     r_started = 1700000005000000000, r_finished = None, r_duration = 0,
     r_cwd = [], r_cached_tokens = 0, r_thought = [], r_value = NoText,
     r_error = [], r_trigger_prompt = PlainPrompt ''look'',
     r_system_prompt = ''Watch the logs.'', r_created = 1700000005000000000,
     r_updated = 1700000005000000000\<rparr>)"
  by code_simp

lemma sample_claimed: "sample_claim = (Inr leased_pair, leased_store)"
proof -
  have "\<not> isl (fst sample_claim)" unfolding sample_claim_def by code_simp
  then show ?thesis by (simp add: leased_pair_def leased_store_def prod_eq_iff)
qed

declare sample_claimed [code]

lemma sample_step_step: "store_step sample_cron sample_mkdir Other s (sample_step n s)"
proof -
  consider "n = 0" | "n = 1" | "n = 2" | "n = 3" | "3 < n" by linarith
  then show ?thesis
  proof cases
    case 1
    then show ?thesis using store_step.step_create_namespace [OF surjective_pairing] by (simp add: sample_step_def)
  next
    case 2
    then show ?thesis using store_step.step_create_agent [OF surjective_pairing] by (simp add: sample_step_def)
  next
    case 3
    then show ?thesis using store_step.step_enqueue [OF surjective_pairing] by (simp add: sample_step_def)
  next
    case 4
    then show ?thesis using store_step.step_enqueue [OF surjective_pairing] by (simp add: sample_step_def)
  next
    case 5
    then show ?thesis using store_step.step_create_schedule [OF surjective_pairing] by (simp add: sample_step_def)
  qed
qed

lemma sample_path:
  "path (store_step sample_cron sample_mkdir) [Other, Other, Other, Other, Other] (empty_store ''server'') sample_store"
  unfolding sample_store_def
  by ((rule path_Cons, rule sample_step_step)+, rule path_Nil)

lemma sample_reachable: "reachable_store sample_cron sample_mkdir sample_store"
  unfolding reachable_store_def using sample_path by blast

lemma sample_system_ok: "system_ok sample_store"
  by (rule reachable_system_ok [OF sample_reachable])

text \<open>Every expression of the sample library fires each minute, so every schedule is live.\<close>

lemma sample_cron_live: "cron_live sample_cron now c"
  unfolding cron_live_def cron_lives_def sample_cron_def
  by (auto simp: minute_def second_def split: if_splits)

lemma sample_tables:
  "map m_id (messages sample_store) = [''msg-1'', ''msg-2'']" "map a_id (agents sample_store) = [''scout'']"
  by code_simp+

text \<open>The second claim takes the other message; the lease of the first still runs.\<close>

definition second_claim :: "(store_error + message \<times> run_row) \<times> store" where
  "second_claim =
     claim_next_message (queue_claim_params sample_queue) (\<lambda>i. sample_clock (6 + i)) (sample_ids ''job'') leased_store"

definition leased_row :: message where "leased_row = hd (messages leased_store)"

lemma leased_system_ok: "system_ok leased_store"
  using step_system_ok [OF store_step.step_claim [OF sample_claimed [unfolded sample_claim_def]] sample_system_ok] .

lemma leased_reachable: "reachable_store sample_cron sample_mkdir leased_store"
proof -
  obtain owner es where p: "path (store_step sample_cron sample_mkdir) es (empty_store owner) sample_store"
    using sample_reachable unfolding reachable_store_def by blast
  obtain e where "store_step sample_cron sample_mkdir e sample_store leased_store"
    using store_step.step_claim [OF sample_claimed [unfolded sample_claim_def]] by blast
  then have "path (store_step sample_cron sample_mkdir) [e] sample_store leased_store" by (auto simp: path_Cons_iff)
  from path_append [OF p this] show ?thesis unfolding reachable_store_def by blast
qed

lemma leased_row_facts:
  "leased_row \<in> set (messages leased_store)" "m_status leased_row = Leased"
  "m_lease_expires leased_row = Some 1700000065000" "m_key leased_row = (''ops'', ''msg-1'')"
  "r_key ` set (runs leased_store) = {(''ops'', ''run-0'')}" "m_run leased_row = ''run-0''"
  by code_simp+

lemma second_claimed:
  "store_step sample_cron sample_mkdir (Claimed (sample_clock 6) (Some (projr (fst second_claim)))) leased_store
     (snd second_claim)"
proof -
  have ok: "\<not> isl (fst second_claim)" by code_simp
  have "store_step sample_cron sample_mkdir (Claimed (sample_clock (6 + 0))
      (case fst second_claim of Inl e \<Rightarrow> None | Inr c \<Rightarrow> Some c)) leased_store (snd second_claim)"
    unfolding second_claim_def by (rule store_step.step_claim [OF surjective_pairing])
  with ok show ?thesis by (cases "fst second_claim") simp_all
qed

lemma sample_clock_6: "to_millis (sample_clock 6) < 1700000065000"
  by code_simp

lemma claim_empty_store:
  "claim_next_message (queue_claim_params sample_queue) sample_clock (sample_ids ''run'') (empty_store ''x'') =
     (Inl ErrNoAvailableMessage, empty_store ''x'')"
  by code_simp

section \<open>Later moments of the history\<close>

text \<open>The lease of the first message runs out and the message is claimed again, by run \<open>late-0\<close>.\<close>

definition reclaimed_store :: store where
  "reclaimed_store =
     snd (claim_next_message (queue_claim_params sample_queue) (\<lambda>i. sample_clock (100 + i)) (sample_ids ''late'')
            leased_store)"

definition reclaimed_row :: message where "reclaimed_row = hd (messages reclaimed_store)"

lemma reclaimed_store_code [code]:
  "reclaimed_store =
  leased_store\<lparr>
    messages :=
      [\<lparr>m_namespace = ''ops'', m_id = ''msg-1'', m_thread = ''msg-1'',
          m_sender = [], m_recipient = ''scout'',
          m_kind = ''mailbox.message'',
          m_payload = Env 1 ''mailbox_payload'' (Some (GStr ''look'')),
          m_metadata = NoText, m_status = Leased,
          m_available = 1700000002000, m_lease_owner = ''worker-1'',
          m_lease_expires = Some 1700000160000, m_attempts = 2,
          m_max_attempts = 2, m_run = ''late-0'', m_dead_reason = [],
          m_last_error = [], m_created = 1700000002000,
          m_updated = 1700000100000, m_claimed = Some 1700000005000,
          m_completed = None\<rparr>,
       \<lparr>m_namespace = ''ops'', m_id = ''msg-2'', m_thread = ''msg-2'',
          m_sender = [], m_recipient = ''scout'',
          m_kind = ''mailbox.message'',
          m_payload = Env 1 ''mailbox_payload'' (Some (GStr ''wait'')),
          m_metadata = NoText, m_status = Queued,
          m_available = 1700000003000, m_lease_owner = [],
          m_lease_expires = None, m_attempts = 0, m_max_attempts = 2,
          m_run = [], m_dead_reason = [], m_last_error = [],
          m_created = 1700000003000, m_updated = 1700000003000,
          m_claimed = None, m_completed = None\<rparr>],
    runs :=
      [\<lparr>r_namespace = ''ops'', r_id = ''run-0'', r_message = ''msg-1'',
          r_agent = ''scout'', r_trigger = ''msg-1'',
          r_status = ''running'', r_started = 1700000005000,
          r_finished = None, r_duration = 0, r_cwd = [],
          r_cached_tokens = 0, r_thought = [], r_value = NoText,
          r_error = [], r_trigger_prompt = PlainPrompt ''look'',
          r_system_prompt = ''Watch the logs.'', r_created = 1700000005000,
          r_updated = 1700000005000\<rparr>,
       \<lparr>r_namespace = ''ops'', r_id = ''late-0'', r_message = ''msg-1'',
          r_agent = ''scout'', r_trigger = ''msg-1'',
          r_status = ''running'', r_started = 1700000100000,
          r_finished = None, r_duration = 0, r_cwd = [],
          r_cached_tokens = 0, r_thought = [], r_value = NoText,
          r_error = [], r_trigger_prompt = PlainPrompt ''look'',
          r_system_prompt = ''Watch the logs.'', r_created = 1700000100000,
          r_updated = 1700000100000\<rparr>]\<rparr>"
  by code_simp

definition stale_completion :: complete_params where
  "stale_completion =
     \<lparr>co_namespace = ''ops'', co_run = ''run-0'', co_message = ''msg-1'', co_status = ''finished'',
      co_finished = sample_clock 101, co_duration = second, co_cwd = ''/srv/scout'', co_cached_tokens = 0,
      co_thought = [], co_value = GNil, co_error = [], co_retry_at = None, co_dead_reason = [], co_outbox = []\<rparr>"

lemma reclaimed_facts:
  "reclaimed_row \<in> set (messages reclaimed_store)" "m_key reclaimed_row = (''ops'', ''msg-1'')"
  "m_status reclaimed_row = Leased" "m_run reclaimed_row = ''late-0''" "m_attempts reclaimed_row = 2"
  "(''ops'', ''run-0'') \<in> r_key ` set (runs reclaimed_store)"
  by code_simp+

text \<open>A minute passes and the schedule fires.\<close>

definition fired_pair :: "(store_error + message list) \<times> store" where
  "fired_pair = the (fire_once sample_cron (sample_clock 70) (sample_ids ''fire'') 0 sample_store)"

lemma sample_fires:
  "fire_once sample_cron (sample_clock 70) (sample_ids ''fire'') 0 sample_store =
     Some (Inr (projr (fst fired_pair)), snd fired_pair)"
  by code_simp

text \<open>The first run fails.\<close>

definition sample_trigger :: trigger where
  "sample_trigger = projr (claim_trigger sample_queue (fst leased_pair) (snd leased_pair))"

definition failed_result :: agent_result where
  "failed_result =
     \<lparr>rs_trigger = sample_trigger, rs_started = sample_clock 5, rs_finished = sample_clock 6,
      rs_duration = second, rs_status = DriverError, rs_cwd = ''/srv/scout'', rs_cached_tokens = 0,
      rs_thought = [], rs_value = GNil, rs_steps = [], rs_error = ''timeout'', rs_replay = Map.empty,
      rs_provider = []\<rparr>"

lemma sample_trigger: "claim_trigger sample_queue (fst leased_pair) (snd leased_pair) = Inr sample_trigger"
proof -
  have "store_ok sample_store" using sample_system_ok by auto
  moreover have "claim_next_message (queue_claim_params sample_queue) (\<lambda>i. sample_clock (5 + i)) (sample_ids ''run'')
      sample_store = (Inr (fst leased_pair, snd leased_pair), leased_store)"
    using sample_claimed by (simp add: sample_claim_def)
  ultimately obtain tg where "claim_trigger sample_queue (fst leased_pair) (snd leased_pair) = Inr tg"
    by (rule claim_trigger_Inr)
  then show ?thesis by (simp add: sample_trigger_def)
qed

lemma sample_trigger_facts:
  "m_metadata (fst leased_pair) = NoText" "m_id (fst leased_pair) = ''msg-1''" "r_id (snd leased_pair) = ''run-0''"
  "m_attempts (fst leased_pair) = 1" "m_max_attempts (fst leased_pair) = 2"
  by code_simp+

lemma stale_completes:
  "fst (complete_run (sample_clock 101) (sample_ids ''m'') stale_completion reclaimed_store) = Inr ()"
  by code_simp

text \<open>The reading of the schedule from which a scheduler fires it.\<close>

definition sample_reading :: schedule where
  "sample_reading = hd (due_schedules (sample_clock 70) 32 sample_store)"

definition sample_firing :: "((store_error + message option) \<times> store) option" where
  "sample_firing = fire_schedule sample_cron (sample_clock 70) ''t'' ''m'' sample_reading sample_store"

lemma sample_reading_facts:
  "s_next sample_reading = Some (1700000040 * second)" "s_zone sample_reading = ''UTC''"
  "1700000040 * second \<le> sample_clock 70" "zero_time \<le> sample_clock 70"
  by code_simp+

lemma sample_fired:
  "fire_schedule sample_cron (sample_clock 70) ''t'' ''m'' sample_reading sample_store =
     Some (Inr (Some (the (projr (fst (the sample_firing))))), snd (the sample_firing))"
  by code_simp

section \<open>Agents and results\<close>

text \<open>The agent is put again as it is, and given a new prompt.\<close>

definition sample_put :: "(store_error + runnable_agent put_result) \<times> store" where
  "sample_put = put_agent sample_mkdir (sample_clock 10) ''a1'' ''prompt-2'' sample_agent sample_store"

definition sample_reprompt :: "(store_error + prompt_row) \<times> store" where
  "sample_reprompt = update_agent_prompt (sample_clock 10) ''prompt-2'' ''ops'' ''scout'' ''Be brief.'' GNil sample_store"

lemma sample_puts:
  "put_agent sample_mkdir (sample_clock 10) ''a1'' ''prompt-2'' sample_agent sample_store =
     (Inr (projr (fst sample_put)), snd sample_put)"
proof -
  have "\<not> isl (fst sample_put)" unfolding sample_put_def by code_simp
  then show ?thesis by (simp add: sample_put_def prod_eq_iff)
qed

lemma sample_reprompts:
  "update_agent_prompt (sample_clock 10) ''prompt-2'' ''ops'' ''scout'' ''Be brief.'' GNil sample_store =
     (Inr (projr (fst sample_reprompt)), snd sample_reprompt)"
proof -
  have "\<not> isl (fst sample_reprompt)" unfolding sample_reprompt_def by code_simp
  then show ?thesis by (simp add: sample_reprompt_def prod_eq_iff)
qed

text \<open>A message whose sender attached another run's identifier.\<close>

definition forged_message :: message where
  "forged_message = (fst leased_pair)
     \<lparr>m_metadata := Env envelope_version ''mailbox_metadata'' (Some (GMap [(md_run, GStr ''run-9'')]))\<rparr>"

text \<open>A finished result that asks for one message to be sent.\<close>

definition sending_result :: agent_result where
  "sending_result = failed_result
     \<lparr>rs_status := Finished, rs_value := GMap [(''outbox'', GList [GMap
        [(''recipient_agent_id'', GStr ''scout''), (''payload'', GStr ''hello'')]])]\<rparr>"

definition sending_outbox :: "create_message_params list" where
  "sending_outbox =
     projr (extract_outbox (rs_value sending_result)
       (projr (trigger_context_from_metadata (tg_metadata sample_trigger))))"

lemma sending_facts:
  "trigger_context_from_metadata (tg_metadata (rs_trigger sending_result)) =
     Inr (projr (trigger_context_from_metadata (tg_metadata sample_trigger)))"
  "extract_outbox (rs_value sending_result) (projr (trigger_context_from_metadata (tg_metadata sample_trigger))) =
     Inr sending_outbox"
  "sending_outbox \<noteq> []"
  by code_simp+

definition sent_store :: store where
  "sent_store =
     snd (handle_result \<lparr>rp_retry_delay = 0, rp_allow_message_send = True\<rparr> (sample_clock 6) (sample_clock 6)
       (sample_ids ''sent'') sending_result leased_store)"

lemma sample_sends:
  "handle_result \<lparr>rp_retry_delay = 0, rp_allow_message_send = True\<rparr> (sample_clock 6) (sample_clock 6)
     (sample_ids ''sent'') sending_result leased_store = (Inr (), sent_store)"
proof -
  have "fst (handle_result \<lparr>rp_retry_delay = 0, rp_allow_message_send = True\<rparr> (sample_clock 6) (sample_clock 6)
     (sample_ids ''sent'') sending_result leased_store) = Inr ()" by code_simp
  then show ?thesis by (simp add: sent_store_def prod_eq_iff)
qed

lemma sent_messages:
  "map m_key (messages leased_store) = [(''ops'', ''msg-1''), (''ops'', ''msg-2'')]"
  "map m_key (messages sent_store) = [(''ops'', ''msg-1''), (''ops'', ''msg-2''), (''ops'', ''sent-0'')]"
  unfolding sent_store_def by code_simp+

section \<open>An agent and a patch\<close>

text \<open>A driver that runs two steps and finishes; the world counts its calls.\<close>

definition shell_decision :: decision where
  "shell_decision =
     \<lparr>d_thought = ''look'', d_cached_tokens = 0,
      d_tool = Some \<lparr>ta_name = ''run_shell'', ta_kind = ''function'', ta_input = ''ls''\<rparr>, d_finish = None,
      d_replay = [], d_provider = []\<rparr>"

definition sample_runtime :: "nat runtime" where
  "sample_runtime =
     \<lparr>rt_ctx = (\<lambda>w. None), rt_clock = (\<lambda>w. sample_clock w), rt_dir = (\<lambda>w. ''/srv''), rt_reset = (\<lambda>w. w),
      rt_driver = (\<lambda>rq w. (Inr (if w < 2 then shell_decision
                              else shell_decision\<lparr>d_tool := None, d_finish := Some (GStr ''fine'')\<rparr>), w + 1)),
      rt_tool = (\<lambda>name. if name = ''run_shell'' then Some (\<lambda>tg st t w. (None, st\<lparr>st_output := ''ok''\<rparr>, w)) else None),
      rt_on_step = None, rt_spill = (\<lambda>tg w. (None, w)), rt_max_steps = 5\<rparr>"

lemma sample_tools_keep:
  "tools_keep st_index sample_runtime" "tools_keep st_finished sample_runtime" "tools_keep st_duration sample_runtime"
  by (auto simp: tools_keep_def sample_runtime_def split: if_splits)

definition sample_turn :: "agent_result \<times> string option \<times> nat" where
  "sample_turn = run_turn sample_runtime sample_trigger 1 True empty_context 0"

lemma sample_turn_eq:
  "run_turn sample_runtime sample_trigger 1 True empty_context 0 =
     (fst sample_turn, fst (snd sample_turn), snd (snd sample_turn))"
  by (simp add: sample_turn_def)

lemma sample_turn_steps: "length (rs_steps (fst sample_turn)) = 2"
  by code_simp

text \<open>A driver that always times out.\<close>

definition slow_runtime :: "(unit \<times> nat) runtime" where
  "slow_runtime =
     count_driver (\<lambda>_. None) (\<lambda>_ w. (Inl ((plain_error ''slow'')\<lparr>ge_timeout := True\<rparr>), w))
       \<lparr>rt_ctx = (\<lambda>w. None), rt_clock = (\<lambda>w. zero_time), rt_dir = (\<lambda>w. []), rt_reset = (\<lambda>w. w),
        rt_driver = (\<lambda>rq w. (Inr shell_decision, w)), rt_tool = Map.empty, rt_on_step = None,
        rt_spill = (\<lambda>tg w. (None, w)), rt_max_steps = 1\<rparr>"

definition sample_request :: request where
  "sample_request =
     \<lparr>rq_trigger = sample_trigger, rq_step = 1, rq_cwd = ''/srv'', rq_turns = [], rq_current = [], rq_steps = [],
      rq_replay = Map.empty, rq_provider = [], rq_started = zero_time\<rparr>"

definition slow_decision :: "(go_error + decision) \<times> unit \<times> nat" where
  "slow_decision = next_decision slow_runtime sample_request max_driver_retries ((), 0)"

lemma slow_decision_eq:
  "next_decision (count_driver (\<lambda>_. None) (\<lambda>_ w. (Inl ((plain_error ''slow'')\<lparr>ge_timeout := True\<rparr>), w))
       \<lparr>rt_ctx = (\<lambda>w. None), rt_clock = (\<lambda>w. zero_time), rt_dir = (\<lambda>w. []), rt_reset = (\<lambda>w. w),
        rt_driver = (\<lambda>rq w. (Inr shell_decision, w)), rt_tool = Map.empty, rt_on_step = None,
        rt_spill = (\<lambda>tg w. (None, w)), rt_max_steps = 1\<rparr>) sample_request max_driver_retries ((), 0) =
     (fst slow_decision, fst (snd slow_decision), snd (snd slow_decision))"
  unfolding slow_decision_def slow_runtime_def by (simp only: prod.collapse)

definition sample_hunk :: patch_hunk where
  "sample_hunk = \<lparr>h_header = ''main'', h_lines = [(CHR '' '', ''a''), (CHR ''-'', ''b''), (CHR ''+'', ''c'')]\<rparr>"

definition sample_patch :: "patch_op list" where
  "sample_patch = [AddFile ''notes.md'' [''# Notes'', []], UpdateFile ''main.go'' [sample_hunk]]"

lemma sample_patch_wf: "\<forall>x \<in> set sample_patch. op_wf x"
  by code_simp

end
