(* ===== verification/MemFS.thy ===== *)
theory MemFS
  imports Patch "HOL-Library.Word" "HOL-Library.Sublist" "HOL-Library.AList"
    "HOL-Library.List_Lexorder" "HOL-Library.Char_ord"
begin

text \<open>
  The in-memory file system of \<open>pkg/sh/memfs/memfs.go\<close>. Go's \<open>*node\<close> pointers are inode numbers into
  a heap of nodes, so hard links share a node as they do in the code. A clean absolute path is the list
  of its elements; \<open>resolve_path\<close> makes one from the strings the operations take. The null device is the
  host's: opening it gives \<open>NullDevice\<close>. The lock makes every operation atomic; the clock is an argument.
\<close>

unbundle bit_operations_syntax

section \<open>Paths\<close>

type_synonym path_elems = "string list"

definition slash :: char where "slash = CHR ''/''"

text \<open>\<open>isRootedPath\<close>: a leading backslash counts, although such a path is not absolute here.\<close>

definition is_rooted_path :: "string \<Rightarrow> bool" where
  "is_rooted_path p \<longleftrightarrow> p \<noteq> [] \<and> (hd p = slash \<or> hd p = CHR 0x5C)"

definition is_dev_null_path :: "string \<Rightarrow> bool" where
  "is_dev_null_path p \<longleftrightarrow> p = ''/dev/null''"

text \<open>\<open>filepath.Clean\<close> of elements appended to a clean absolute path.\<close>

fun clean_from :: "path_elems \<Rightarrow> string list \<Rightarrow> path_elems" where
  "clean_from base [] = base"
| "clean_from base (p # ps) =
     clean_from (if p = [] \<or> p = ''.'' then base else if p = ''..'' then butlast base else base @ [p]) ps"

definition join_path :: "path_elems \<Rightarrow> string \<Rightarrow> path_elems" where
  "join_path dir p = clean_from dir (split_char slash p)"

definition path_base :: "path_elems \<Rightarrow> string" where
  "path_base p = (if p = [] then ''/'' else last p)"

section \<open>Nodes\<close>

datatype node_kind = NodeRegular | NodeDirectory | NodeSymlink | NodeFIFO

record fifo_state =
  ff_data :: string
  ff_read_open :: bool
  ff_write_open :: bool
  ff_reader_closed :: bool
  ff_writer_closed :: bool

record fs_node =
  nd_kind :: node_kind
  nd_mode :: "32 word"
  nd_uid :: "32 word"
  nd_gid :: "32 word"
  nd_atime :: go_time
  nd_mtime :: go_time
  nd_nlink :: nat
  nd_data :: string
  nd_target :: string
  nd_children :: "(string \<times> nat) list"
  nd_fifo :: fifo_state

record memfs =
  mf_root :: path_elems
  mf_uid :: "32 word"
  mf_gid :: "32 word"
  mf_next :: nat
  mf_nodes :: "(nat \<times> fs_node) list"

datatype fs_error =
    FsPermission | FsNotExist | FsExist | FsInvalid | FsClosed | FsClosedPipe
  | FsBadFD | FsFIFOBusy | FsIsDirectory | FsNotDirectory | FsNotEmpty | FsTooManySymlinks | FsNotAccessible

type_synonym 'a fs_op = "memfs \<Rightarrow> (fs_error + 'a) \<times> memfs"

definition max_symlink_depth :: nat where "max_symlink_depth = 40"

definition mode_dir :: "32 word" where "mode_dir = push_bit 31 1"
definition mode_symlink :: "32 word" where "mode_symlink = push_bit 27 1"
definition mode_fifo :: "32 word" where "mode_fifo = push_bit 25 1"

text \<open>\<open>fs.ModeType\<close>: directory, symlink, device, pipe, socket, character device, irregular.\<close>

definition mode_type :: "32 word" where
  "mode_type = push_bit 31 1 OR push_bit 27 1 OR push_bit 26 1 OR push_bit 25 1 OR push_bit 24 1 OR
     push_bit 21 1 OR push_bit 19 1"

definition perm_bits :: "32 word \<Rightarrow> 32 word" where "perm_bits m = m AND 511"

definition new_fifo_state :: fifo_state where
  "new_fifo_state =
     \<lparr>ff_data = [], ff_read_open = False, ff_write_open = False, ff_reader_closed = False, ff_writer_closed = False\<rparr>"

definition root_ino :: nat where "root_ino = 1"

text \<open>The node of an inode number; numbers that were not given out yet have a blank one.\<close>

definition blank_node :: fs_node where
  "blank_node =
     \<lparr>nd_kind = NodeRegular, nd_mode = 0, nd_uid = 0, nd_gid = 0, nd_atime = 0, nd_mtime = 0, nd_nlink = 0,
      nd_data = [], nd_target = [], nd_children = [], nd_fifo = new_fifo_state\<rparr>"

definition node_of :: "memfs \<Rightarrow> nat \<Rightarrow> fs_node" where
  "node_of f i = (case map_of (mf_nodes f) i of None \<Rightarrow> blank_node | Some n \<Rightarrow> n)"

definition child_of :: "memfs \<Rightarrow> nat \<Rightarrow> string \<Rightarrow> nat option" where
  "child_of f i name = map_of (nd_children (node_of f i)) name"

definition set_node :: "nat \<Rightarrow> (fs_node \<Rightarrow> fs_node) \<Rightarrow> memfs \<Rightarrow> memfs" where
  "set_node i g f = f\<lparr>mf_nodes := AList.update i (g (node_of f i)) (mf_nodes f)\<rparr>"

definition add_child :: "nat \<Rightarrow> string \<Rightarrow> nat \<Rightarrow> memfs \<Rightarrow> memfs" where
  "add_child i name child = set_node i (\<lambda>n. n\<lparr>nd_children := AList.update name child (nd_children n)\<rparr>)"

definition remove_child :: "nat \<Rightarrow> string \<Rightarrow> memfs \<Rightarrow> memfs" where
  "remove_child i name = set_node i (\<lambda>n. n\<lparr>nd_children := AList.delete name (nd_children n)\<rparr>)"

definition new_node :: "node_kind \<Rightarrow> 32 word \<Rightarrow> go_time \<Rightarrow> memfs \<Rightarrow> nat \<times> memfs" where
  "new_node kind mode now f =
     (mf_next f,
      f\<lparr>mf_next := mf_next f + 1,
        mf_nodes := AList.update (mf_next f)
          \<lparr>nd_kind = kind, nd_mode = mode, nd_uid = mf_uid f, nd_gid = mf_gid f, nd_atime = now, nd_mtime = now,
           nd_nlink = 1, nd_data = [], nd_target = [], nd_children = [], nd_fifo = new_fifo_state\<rparr> (mf_nodes f)\<rparr>)"

text \<open>
  \<open>New\<close>. A root that begins with a backslash, which Go's \<open>Clean\<close> keeps as a relative path, has no
  counterpart here.
\<close>

definition clean_root :: "string \<Rightarrow> path_elems option" where
  "clean_root root =
     (let r = trim_space root
      in if r \<noteq> [] \<and> hd r = CHR 0x5C then None else Some (join_path [] r))"

definition new_memfs :: "path_elems \<Rightarrow> 32 word \<Rightarrow> 32 word \<Rightarrow> go_time \<Rightarrow> memfs" where
  "new_memfs root uid gid now =
     snd (new_node NodeDirectory (mode_dir OR 493) now
       \<lparr>mf_root = root, mf_uid = uid, mf_gid = gid, mf_next = 1, mf_nodes = []\<rparr>)"

section \<open>Looking paths up\<close>

definition resolve_path :: "memfs \<Rightarrow> path_elems \<Rightarrow> string \<Rightarrow> fs_error + path_elems" where
  "resolve_path f dir p =
     (if p \<noteq> [] \<and> hd p = CHR 0x5C then Inl FsPermission
      else let q = (if p = [] then dir else if \<not> is_rooted_path p then join_path dir p else join_path [] p)
           in if prefix (mf_root f) q then Inr q else Inl FsPermission)"

text \<open>\<open>MapPath\<close>: \<open>None\<close> is the path it was given, for the null device and for a relative path.\<close>

definition map_path :: "string \<Rightarrow> memfs \<Rightarrow> fs_error + path_elems option" where
  "map_path p f =
     (if is_dev_null_path p \<or> \<not> is_rooted_path p then Inr None else map_sum id Some (resolve_path f (mf_root f) p))"

definition temp_dir :: "memfs \<Rightarrow> path_elems" where "temp_dir f = join_path (mf_root f) ''.tmp''"

text \<open>
  The path a link stands for, with what remains of the path being looked up behind it.
\<close>

definition link_target :: "memfs \<Rightarrow> path_elems \<Rightarrow> nat \<Rightarrow> string list \<Rightarrow> fs_error + path_elems" where
  "link_target f at link rest =
     (case resolve_path f at (nd_target (node_of f link)) of
        Inl e \<Rightarrow> Inl e
      | Inr t \<Rightarrow> if rest = [] then Inr t else resolve_path f t (join_char slash rest))"

text \<open>
  The loop of \<open>lookupPathLocked\<close> at node \<open>cur\<close>, reached by the path \<open>at\<close>; it starts over at the root behind
  a link, at most \<open>links\<close> more times.
\<close>

function walk :: "memfs \<Rightarrow> bool \<Rightarrow> nat \<Rightarrow> nat \<Rightarrow> path_elems \<Rightarrow> string list \<Rightarrow> fs_error + (nat \<times> path_elems)" where
  "walk f follow links cur at [] = Inr (cur, at)"
| "walk f follow links cur at (p # ps) =
     (if nd_kind (node_of f cur) \<noteq> NodeDirectory then Inl FsNotDirectory
      else case child_of f cur p of
        None \<Rightarrow> Inl FsNotExist
      | Some child \<Rightarrow>
          if nd_kind (node_of f child) = NodeSymlink \<and> (ps \<noteq> [] \<or> follow)
          then (case link_target f at child ps of
                  Inl e \<Rightarrow> Inl e
                | Inr target \<Rightarrow>
                    (case links of
                       0 \<Rightarrow> Inl FsTooManySymlinks
                     | Suc n \<Rightarrow> walk f follow n root_ino (mf_root f) (drop (length (mf_root f)) target)))
          else walk f follow links child (at @ [p]) ps)"
  by pat_completeness auto
termination
  by (relation "measures [\<lambda>(f, follow, links, cur, at, ps). links, \<lambda>(f, follow, links, cur, at, ps). length ps]") auto

definition lookup_path :: "memfs \<Rightarrow> bool \<Rightarrow> path_elems \<Rightarrow> fs_error + (nat \<times> path_elems)" where
  "lookup_path f follow p =
     walk f follow max_symlink_depth root_ino (mf_root f) (drop (length (mf_root f)) p)"

definition lookup_parent :: "memfs \<Rightarrow> path_elems \<Rightarrow> fs_error + (nat \<times> path_elems \<times> string)" where
  "lookup_parent f p =
     (if p = mf_root f then Inl FsPermission
      else case lookup_path f True (butlast p) of
        Inl e \<Rightarrow> Inl e
      | Inr (parent, at) \<Rightarrow>
          if nd_kind (node_of f parent) \<noteq> NodeDirectory then Inl FsNotDirectory
          else Inr (parent, at, path_base p))"

text \<open>\<open>resolveCreatePathLocked\<close>: follow the links at the end of a path that does not exist.\<close>

fun resolve_create_path :: "memfs \<Rightarrow> nat \<Rightarrow> path_elems \<Rightarrow> fs_error + path_elems" where
  "resolve_create_path f 0 p = Inl FsTooManySymlinks"
| "resolve_create_path f (Suc n) p =
     (case lookup_parent f p of
        Inl e \<Rightarrow> Inl e
      | Inr (parent, at, base) \<Rightarrow>
     (case child_of f parent base of
        None \<Rightarrow> Inr p
      | Some child \<Rightarrow>
          if nd_kind (node_of f child) \<noteq> NodeSymlink then Inr p
          else case resolve_path f at (nd_target (node_of f child)) of
            Inl e \<Rightarrow> Inl e
          | Inr target \<Rightarrow> resolve_create_path f n target))"

section \<open>Reading the tree\<close>

record stat_info =
  si_name :: string
  si_size :: nat
  si_mode :: "32 word"
  si_mtime :: go_time
  si_atime :: go_time
  si_uid :: "32 word"
  si_gid :: "32 word"
  si_ino :: nat

definition node_size :: "fs_node \<Rightarrow> nat" where
  "node_size n =
     (case nd_kind n of NodeRegular \<Rightarrow> length (nd_data n) | NodeSymlink \<Rightarrow> length (nd_target n) | _ \<Rightarrow> 0)"

definition snapshot_info :: "memfs \<Rightarrow> string \<Rightarrow> nat \<Rightarrow> stat_info" where
  "snapshot_info f name i =
     (let n = node_of f i
      in \<lparr>si_name = name, si_size = node_size n, si_mode = nd_mode n, si_mtime = nd_mtime n,
          si_atime = nd_atime n, si_uid = nd_uid n, si_gid = nd_gid n, si_ino = i\<rparr>)"

definition dir_entries :: "memfs \<Rightarrow> nat \<Rightarrow> stat_info list" where
  "dir_entries f i =
     map (\<lambda>(name, child). snapshot_info f name child) (sort_key fst (nd_children (node_of f i)))"

text \<open>\<open>None\<close> is the information the host gives on the null device.\<close>

definition stat_path :: "bool \<Rightarrow> string \<Rightarrow> memfs \<Rightarrow> fs_error + stat_info option" where
  "stat_path follow name f =
     (if is_dev_null_path name then Inr None
      else case resolve_path f (mf_root f) name of
        Inl e \<Rightarrow> Inl e
      | Inr p \<Rightarrow>
     (case lookup_path f follow p of
        Inl e \<Rightarrow> Inl e
      | Inr (i, at) \<Rightarrow> Inr (Some (snapshot_info f (path_base at) i))))"

definition fs_stat :: "string \<Rightarrow> memfs \<Rightarrow> fs_error + stat_info option" where
  "fs_stat name f = stat_path True name f"

definition fs_lstat :: "string \<Rightarrow> memfs \<Rightarrow> fs_error + stat_info option" where
  "fs_lstat name f = stat_path False name f"

definition read_dir :: "string \<Rightarrow> memfs \<Rightarrow> fs_error + stat_info list" where
  "read_dir name f =
     (case resolve_path f (mf_root f) name of
        Inl e \<Rightarrow> Inl e
      | Inr p \<Rightarrow>
     (case lookup_path f True p of
        Inl e \<Rightarrow> Inl e
      | Inr (i, at) \<Rightarrow>
          if nd_kind (node_of f i) \<noteq> NodeDirectory then Inl FsNotDirectory else Inr (dir_entries f i)))"

definition readlink :: "string \<Rightarrow> memfs \<Rightarrow> fs_error + string" where
  "readlink name f =
     (case resolve_path f (mf_root f) name of
        Inl e \<Rightarrow> Inl e
      | Inr p \<Rightarrow>
     (case lookup_path f False p of
        Inl e \<Rightarrow> Inl e
      | Inr (i, at) \<Rightarrow>
          if nd_kind (node_of f i) \<noteq> NodeSymlink then Inl FsInvalid else Inr (nd_target (node_of f i))))"

text \<open>The path of the null device is returned as it is: \<open>None\<close>.\<close>

definition eval_symlinks :: "string \<Rightarrow> memfs \<Rightarrow> fs_error + path_elems option" where
  "eval_symlinks name f =
     (if is_dev_null_path name then Inr None
      else case resolve_path f (mf_root f) name of
        Inl e \<Rightarrow> Inl e
      | Inr p \<Rightarrow> map_sum id (\<lambda>x. Some (snd x)) (lookup_path f True p))"

definition effective_perm_bits :: "memfs \<Rightarrow> fs_node \<Rightarrow> 32 word" where
  "effective_perm_bits f n =
     (if mf_uid f = 0 then (if nd_mode n AND 73 \<noteq> 0 then 7 else 6)
      else if mf_uid f = nd_uid n then drop_bit 6 (nd_mode n) AND 7
      else if mf_gid f = nd_gid n then drop_bit 3 (nd_mode n) AND 7
      else nd_mode n AND 7)"

text \<open>\<open>Access\<close>; the modes are the bits 4 (read), 2 (write) and 1 (execute).\<close>

definition fs_access :: "string \<Rightarrow> 32 word \<Rightarrow> memfs \<Rightarrow> fs_error + unit" where
  "fs_access name mode f =
     (if is_dev_null_path name then (if mode AND 1 \<noteq> 0 then Inl FsNotAccessible else Inr ())
      else case resolve_path f (mf_root f) name of
        Inl e \<Rightarrow> Inl e
      | Inr p \<Rightarrow>
     (case lookup_path f True p of
        Inl e \<Rightarrow> Inl e
      | Inr (i, at) \<Rightarrow>
          let perms = effective_perm_bits f (node_of f i)
          in if mode AND 4 \<noteq> 0 \<and> perms AND 4 = 0 \<or> mode AND 2 \<noteq> 0 \<and> perms AND 2 = 0 \<or>
                mode AND 1 \<noteq> 0 \<and> perms AND 1 = 0
             then Inl FsNotAccessible else Inr ()))"

definition same_file :: "stat_info \<Rightarrow> stat_info \<Rightarrow> bool" where
  "same_file x y \<longleftrightarrow> si_ino x = si_ino y"

section \<open>Open files\<close>

record open_flags =
  of_wronly :: bool
  of_rdwr :: bool
  of_append :: bool
  of_create :: bool
  of_excl :: bool
  of_trunc :: bool

record regular_file =
  hf_path :: path_elems
  hf_node :: nat
  hf_offset :: nat
  hf_readable :: bool
  hf_writable :: bool
  hf_append :: bool
  hf_closed :: bool

text \<open>The entries of a directory are read once, by the first call of \<open>ReadDir\<close>.\<close>

record dir_file =
  df_path :: path_elems
  df_node :: nat
  df_entries :: "stat_info list option"
  df_offset :: nat
  df_closed :: bool

record fifo_file =
  pf_path :: path_elems
  pf_node :: nat
  pf_closed :: bool

datatype fs_handle =
    RegularFile regular_file
  | DirFile dir_file
  | FIFOReader fifo_file
  | FIFOWriter fifo_file
  | NullDevice

definition open_fifo :: "path_elems \<Rightarrow> nat \<Rightarrow> bool \<Rightarrow> bool \<Rightarrow> fs_handle fs_op" where
  "open_fifo at i readable writable f =
     (if readable \<and> writable then (Inl FsInvalid, f)
      else let st = nd_fifo (node_of f i);
               st1 = (if \<not> ff_read_open st \<and> \<not> ff_write_open st
                      then st\<lparr>ff_data := [], ff_reader_closed := False, ff_writer_closed := False\<rparr> else st);
               put = (\<lambda>s. set_node i (\<lambda>n. n\<lparr>nd_fifo := s\<rparr>) f)
           in if readable then
                (if ff_read_open st1 then (Inl FsFIFOBusy, put st1)
                 else (Inr (FIFOReader \<lparr>pf_path = at, pf_node = i, pf_closed = False\<rparr>), put (st1\<lparr>ff_read_open := True\<rparr>)))
              else if writable then
                (if ff_write_open st1 then (Inl FsFIFOBusy, put st1)
                 else (Inr (FIFOWriter \<lparr>pf_path = at, pf_node = i, pf_closed = False\<rparr>), put (st1\<lparr>ff_write_open := True\<rparr>)))
              else (Inl FsInvalid, put st1))"

definition fs_open :: "string \<Rightarrow> fs_handle fs_op" where
  "fs_open name f =
     (if is_dev_null_path name then (Inr NullDevice, f)
      else case resolve_path f (mf_root f) name of
        Inl e \<Rightarrow> (Inl e, f)
      | Inr p \<Rightarrow>
     (case lookup_path f True p of
        Inl e \<Rightarrow> (Inl e, f)
      | Inr (i, at) \<Rightarrow>
     (case nd_kind (node_of f i) of
        NodeDirectory \<Rightarrow> (Inr (DirFile \<lparr>df_path = at, df_node = i, df_entries = None, df_offset = 0, df_closed = False\<rparr>), f)
      | NodeFIFO \<Rightarrow> open_fifo at i True False f
      | _ \<Rightarrow> (Inr (RegularFile \<lparr>hf_path = at, hf_node = i, hf_offset = 0, hf_readable = True, hf_writable = False,
                 hf_append = False, hf_closed = False\<rparr>), f))))"

definition open_existing :: "open_flags \<Rightarrow> go_time \<Rightarrow> nat \<Rightarrow> path_elems \<Rightarrow> fs_handle fs_op" where
  "open_existing fl now i at f =
     (let writable = of_wronly fl \<or> of_rdwr fl
      in if of_create fl \<and> of_excl fl then (Inl FsExist, f)
         else case nd_kind (node_of f i) of
           NodeDirectory \<Rightarrow> (Inl FsIsDirectory, f)
         | NodeFIFO \<Rightarrow> open_fifo at i (\<not> of_wronly fl) writable f
         | _ \<Rightarrow>
             let f1 = (if writable \<and> of_trunc fl \<and> \<not> of_append fl
                       then set_node i (\<lambda>n. n\<lparr>nd_data := [], nd_mtime := now\<rparr>) f else f)
             in (Inr (RegularFile \<lparr>hf_path = at, hf_node = i,
                   hf_offset = (if of_append fl then length (nd_data (node_of f1 i)) else 0),
                   hf_readable = \<not> of_wronly fl, hf_writable = writable, hf_append = of_append fl,
                   hf_closed = False\<rparr>), f1))"

definition create_regular :: "open_flags \<Rightarrow> 32 word \<Rightarrow> go_time \<Rightarrow> path_elems \<Rightarrow> fs_handle fs_op" where
  "create_regular fl perm now p f =
     (case resolve_create_path f (Suc max_symlink_depth) p of
        Inl e \<Rightarrow> (Inl e, f)
      | Inr cp \<Rightarrow>
     (case lookup_parent f cp of
        Inl e \<Rightarrow> (Inl e, f)
      | Inr (parent, at, base) \<Rightarrow>
          if child_of f parent base \<noteq> None then (Inl FsExist, f)
          else case new_node NodeRegular (perm_bits perm) now f of
            (i, f1) \<Rightarrow>
              (Inr (RegularFile \<lparr>hf_path = cp, hf_node = i, hf_offset = 0, hf_readable = \<not> of_wronly fl,
                 hf_writable = True, hf_append = of_append fl, hf_closed = False\<rparr>), add_child parent base i f1)))"

definition open_file :: "string \<Rightarrow> open_flags \<Rightarrow> 32 word \<Rightarrow> go_time \<Rightarrow> fs_handle fs_op" where
  "open_file name fl perm now f =
     (if is_dev_null_path name then (Inr NullDevice, f)
      else case resolve_path f (mf_root f) name of
        Inl e \<Rightarrow> (Inl e, f)
      | Inr p \<Rightarrow>
     (case lookup_path f True p of
        Inr (i, at) \<Rightarrow> open_existing fl now i at f
      | Inl e \<Rightarrow>
          if e \<noteq> FsNotExist then (Inl e, f)
          else if \<not> of_create fl then (Inl e, f)
          else create_regular fl perm now p f))"

text \<open>
  \<open>Read\<close> into a buffer of \<open>n\<close> bytes: the bytes read, or \<open>None\<close> at the end of the file.
\<close>

definition file_read :: "nat \<Rightarrow> go_time \<Rightarrow> regular_file \<Rightarrow> memfs \<Rightarrow> (fs_error + string option) \<times> regular_file \<times> memfs" where
  "file_read n now h f =
     (if hf_closed h then (Inl FsClosed, h, f)
      else if \<not> hf_readable h then (Inl FsBadFD, h, f)
      else let d = nd_data (node_of f (hf_node h));
               f1 = set_node (hf_node h) (\<lambda>x. x\<lparr>nd_atime := now\<rparr>) f
           in if length d \<le> hf_offset h then (Inr None, h, f1)
              else let bytes = take n (drop (hf_offset h) d)
                   in (Inr (Some bytes), h\<lparr>hf_offset := hf_offset h + length bytes\<rparr>, f1))"

text \<open>The bytes of a file after a write at an offset; a gap is filled with zeros.\<close>

definition write_at :: "nat \<Rightarrow> string \<Rightarrow> string \<Rightarrow> string" where
  "write_at off p d =
     take off (d @ replicate (off - length d) (CHR 0x00)) @ p @ drop (off + length p) d"

definition file_write :: "string \<Rightarrow> go_time \<Rightarrow> regular_file \<Rightarrow> memfs \<Rightarrow> (fs_error + nat) \<times> regular_file \<times> memfs" where
  "file_write p now h f =
     (if hf_closed h then (Inl FsClosed, h, f)
      else if \<not> hf_writable h then (Inl FsBadFD, h, f)
      else let d = nd_data (node_of f (hf_node h));
               off = (if hf_append h then length d else hf_offset h)
           in (Inr (length p), h\<lparr>hf_offset := off + length p\<rparr>,
               set_node (hf_node h) (\<lambda>x. x\<lparr>nd_data := write_at off p d, nd_atime := now, nd_mtime := now\<rparr>) f))"

definition fifo_write :: "string \<Rightarrow> fifo_file \<Rightarrow> nat fs_op" where
  "fifo_write p h f =
     (let i = pf_node h
      in if pf_closed h then (Inl FsClosed, f)
         else if ff_reader_closed (nd_fifo (node_of f i)) then (Inl FsClosedPipe, f)
         else (Inr (length p),
               set_node i (\<lambda>x. x\<lparr>nd_fifo := (nd_fifo x)\<lparr>ff_data := ff_data (nd_fifo x) @ p\<rparr>\<rparr>) f))"

text \<open>A read from a FIFO blocks, which is \<open>None\<close>, until there are bytes or the writer has closed.\<close>

definition fifo_read :: "nat \<Rightarrow> fifo_file \<Rightarrow> memfs \<Rightarrow> ((fs_error + string option) \<times> memfs) option" where
  "fifo_read n h f =
     (let i = pf_node h; st = nd_fifo (node_of f i)
      in if pf_closed h then Some (Inl FsClosed, f)
         else if ff_data st = [] then (if ff_writer_closed st then Some (Inr None, f) else None)
         else Some (Inr (Some (take n (ff_data st))),
                    set_node i (\<lambda>x. x\<lparr>nd_fifo := st\<lparr>ff_data := drop n (ff_data st)\<rparr>\<rparr>) f))"

text \<open>\<open>ReadDir\<close> of an open directory: \<open>None\<close> at its end.\<close>

definition dir_read :: "int \<Rightarrow> dir_file \<Rightarrow> memfs \<Rightarrow> (fs_error + stat_info list option) \<times> dir_file" where
  "dir_read n h f =
     (if df_closed h then (Inl FsClosed, h)
      else let es = (case df_entries h of None \<Rightarrow> dir_entries f (df_node h) | Some es \<Rightarrow> es);
               h1 = h\<lparr>df_entries := Some es\<rparr>
           in if length es \<le> df_offset h \<and> 0 < n then (Inr None, h1)
              else let k = (if n \<le> 0 \<or> length es < df_offset h + nat n then length es - df_offset h else nat n)
                   in (Inr (Some (take k (drop (df_offset h) es))), h1\<lparr>df_offset := df_offset h + k\<rparr>))"

definition handle_stat :: "fs_handle \<Rightarrow> memfs \<Rightarrow> stat_info option" where
  "handle_stat h f =
     (case h of
        RegularFile r \<Rightarrow> Some (snapshot_info f (path_base (hf_path r)) (hf_node r))
      | DirFile d \<Rightarrow> Some (snapshot_info f (path_base (df_path d)) (df_node d))
      | FIFOReader p \<Rightarrow> Some (snapshot_info f (path_base (pf_path p)) (pf_node p))
      | FIFOWriter p \<Rightarrow> Some (snapshot_info f (path_base (pf_path p)) (pf_node p))
      | NullDevice \<Rightarrow> None)"

definition close_handle :: "fs_handle \<Rightarrow> memfs \<Rightarrow> fs_handle \<times> memfs" where
  "close_handle h f =
     (case h of
        RegularFile r \<Rightarrow> (RegularFile (r\<lparr>hf_closed := True\<rparr>), f)
      | DirFile d \<Rightarrow> (DirFile (d\<lparr>df_closed := True\<rparr>), f)
      | FIFOReader p \<Rightarrow>
          if pf_closed p then (h, f)
          else (FIFOReader (p\<lparr>pf_closed := True\<rparr>),
                set_node (pf_node p) (\<lambda>x. x\<lparr>nd_fifo := (nd_fifo x)\<lparr>ff_read_open := False, ff_reader_closed := True\<rparr>\<rparr>) f)
      | FIFOWriter p \<Rightarrow>
          if pf_closed p then (h, f)
          else (FIFOWriter (p\<lparr>pf_closed := True\<rparr>),
                set_node (pf_node p) (\<lambda>x. x\<lparr>nd_fifo := (nd_fifo x)\<lparr>ff_write_open := False, ff_writer_closed := True\<rparr>\<rparr>) f)
      | NullDevice \<Rightarrow> (NullDevice, f))"

definition write_flags :: open_flags where
  "write_flags =
     \<lparr>of_wronly = True, of_rdwr = False, of_append = False, of_create = True, of_excl = False, of_trunc = True\<rparr>"

definition write_file :: "string \<Rightarrow> string \<Rightarrow> 32 word \<Rightarrow> go_time \<Rightarrow> unit fs_op" where
  "write_file name d perm now f =
     (case open_file name write_flags perm now f of
        (Inl e, f1) \<Rightarrow> (Inl e, f1)
      | (Inr h, f1) \<Rightarrow>
     (case h of
        RegularFile rf \<Rightarrow>
          (case file_write d now rf f1 of (r, rf', f2) \<Rightarrow> (map_sum id (\<lambda>_. ()) r, f2))
      | FIFOWriter w \<Rightarrow>
          (case fifo_write d w f1 of (r, f2) \<Rightarrow> (map_sum id (\<lambda>_. ()) r, snd (close_handle h f2)))
      | _ \<Rightarrow> (Inr (), f1)))"

section \<open>Changing the tree\<close>

text \<open>\<open>discardNodeLocked\<close>: not recursive first, then with the tree below; \<open>n\<close> bounds the depth.\<close>

definition drop_link :: "nat \<Rightarrow> memfs \<Rightarrow> memfs" where
  "drop_link i f =
     (if nd_kind (node_of f i) = NodeDirectory then f
      else set_node i (\<lambda>n. if 0 < nd_nlink n then n\<lparr>nd_nlink := nd_nlink n - 1\<rparr> else n) f)"

fun discard_tree :: "nat \<Rightarrow> nat \<Rightarrow> memfs \<Rightarrow> memfs" where
  "discard_tree 0 i f = f"
| "discard_tree (Suc n) i f =
     (if nd_kind (node_of f i) = NodeDirectory
      then fold (\<lambda>(name, child) g. discard_tree n child (remove_child i name g)) (nd_children (node_of f i)) f
      else drop_link i f)"

definition fs_remove :: "string \<Rightarrow> unit fs_op" where
  "fs_remove name f =
     (case resolve_path f (mf_root f) name of
        Inl e \<Rightarrow> (Inl e, f)
      | Inr p \<Rightarrow>
          if p = mf_root f then (Inl FsPermission, f)
          else case lookup_parent f p of
            Inl e \<Rightarrow> (Inl e, f)
          | Inr (parent, at, base) \<Rightarrow>
         (case child_of f parent base of
            None \<Rightarrow> (Inl FsNotExist, f)
          | Some child \<Rightarrow>
              if nd_kind (node_of f child) = NodeDirectory \<and> nd_children (node_of f child) \<noteq> []
              then (Inl FsNotEmpty, f)
              else (Inr (), drop_link child (remove_child parent base f))))"

definition fs_rename :: "string \<Rightarrow> string \<Rightarrow> unit fs_op" where
  "fs_rename old new f =
     (case resolve_path f (mf_root f) old of
        Inl e \<Rightarrow> (Inl e, f)
      | Inr op \<Rightarrow>
     (case resolve_path f (mf_root f) new of
        Inl e \<Rightarrow> (Inl e, f)
      | Inr np \<Rightarrow>
          if op = mf_root f then (Inl FsPermission, f)
          else case lookup_parent f op of
            Inl e \<Rightarrow> (Inl e, f)
          | Inr (old_parent, _, old_base) \<Rightarrow>
         (case child_of f old_parent old_base of
            None \<Rightarrow> (Inl FsNotExist, f)
          | Some node \<Rightarrow>
         (case lookup_parent f np of
            Inl e \<Rightarrow> (Inl e, f)
          | Inr (new_parent, _, new_base) \<Rightarrow>
              (let move = (\<lambda>g. (Inr (), add_child new_parent new_base node (remove_child old_parent old_base g)))
               in case child_of f new_parent new_base of
                 None \<Rightarrow> move f
               | Some existing \<Rightarrow>
                   if nd_kind (node_of f existing) = NodeDirectory \<and> nd_children (node_of f existing) \<noteq> []
                   then (Inl FsNotEmpty, f)
                   else move (drop_link existing (remove_child new_parent new_base f)))))))"

definition fs_chmod :: "string \<Rightarrow> 32 word \<Rightarrow> go_time \<Rightarrow> unit fs_op" where
  "fs_chmod name mode now f =
     (case resolve_path f (mf_root f) name of
        Inl e \<Rightarrow> (Inl e, f)
      | Inr p \<Rightarrow>
     (case lookup_path f True p of
        Inl e \<Rightarrow> (Inl e, f)
      | Inr (i, at) \<Rightarrow>
          (Inr (), set_node i (\<lambda>n. n\<lparr>nd_mode := (nd_mode n AND mode_type) OR perm_bits mode, nd_mtime := now\<rparr>) f)))"

text \<open>The shape \<open>Mkdir\<close>, \<open>Symlink\<close> and \<open>Mkfifo\<close> share: a new node under a name that is free.\<close>

definition insert_new ::
    "fs_error \<Rightarrow> node_kind \<Rightarrow> 32 word \<Rightarrow> string \<Rightarrow> string \<Rightarrow> go_time \<Rightarrow> unit fs_op" where
  "insert_new root_error kind mode target name now f =
     (case resolve_path f (mf_root f) name of
        Inl e \<Rightarrow> (Inl e, f)
      | Inr p \<Rightarrow>
          if p = mf_root f then (Inl root_error, f)
          else case lookup_parent f p of
            Inl e \<Rightarrow> (Inl e, f)
          | Inr (parent, at, base) \<Rightarrow>
              if child_of f parent base \<noteq> None then (Inl FsExist, f)
              else case new_node kind mode now f of
                (i, f1) \<Rightarrow> (Inr (), add_child parent base i (set_node i (\<lambda>n. n\<lparr>nd_target := target\<rparr>) f1)))"

definition fs_mkdir :: "string \<Rightarrow> 32 word \<Rightarrow> go_time \<Rightarrow> unit fs_op" where
  "fs_mkdir name perm now = insert_new FsExist NodeDirectory (mode_dir OR perm_bits perm) [] name now"

definition fs_symlink :: "string \<Rightarrow> string \<Rightarrow> go_time \<Rightarrow> unit fs_op" where
  "fs_symlink old new now = insert_new FsPermission NodeSymlink (mode_symlink OR 511) old new now"

definition fs_mkfifo :: "string \<Rightarrow> 32 word \<Rightarrow> go_time \<Rightarrow> unit fs_op" where
  "fs_mkfifo name mode now = insert_new FsExist NodeFIFO (mode_fifo OR perm_bits mode) [] name now"

text \<open>The loop of \<open>MkdirAll\<close>; what it made before an error stays.\<close>

fun mkdir_parts :: "32 word \<Rightarrow> go_time \<Rightarrow> nat \<Rightarrow> path_elems \<Rightarrow> string list \<Rightarrow> unit fs_op" where
  "mkdir_parts perm now cur at [] f = (Inr (), f)"
| "mkdir_parts perm now cur at (p # ps) f =
     (case child_of f cur p of
        None \<Rightarrow>
          (case new_node NodeDirectory (mode_dir OR perm_bits perm) now f of
             (i, f1) \<Rightarrow> mkdir_parts perm now i (at @ [p]) ps (add_child cur p i f1))
      | Some child \<Rightarrow>
          if nd_kind (node_of f child) = NodeSymlink then
            (case resolve_path f at (nd_target (node_of f child)) of
               Inl e \<Rightarrow> (Inl e, f)
             | Inr t \<Rightarrow>
            (case lookup_path f True t of
               Inl e \<Rightarrow> (Inl e, f)
             | Inr (i, at') \<Rightarrow>
                 if nd_kind (node_of f i) \<noteq> NodeDirectory then (Inl FsNotDirectory, f)
                 else mkdir_parts perm now i at' ps f))
          else if nd_kind (node_of f child) \<noteq> NodeDirectory then (Inl FsNotDirectory, f)
          else mkdir_parts perm now child (at @ [p]) ps f)"

definition mkdir_all :: "string \<Rightarrow> 32 word \<Rightarrow> go_time \<Rightarrow> unit fs_op" where
  "mkdir_all name perm now f =
     (case resolve_path f (mf_root f) name of
        Inl e \<Rightarrow> (Inl e, f)
      | Inr p \<Rightarrow> mkdir_parts perm now root_ino (mf_root f) (drop (length (mf_root f)) p) f)"

definition remove_all :: "string \<Rightarrow> unit fs_op" where
  "remove_all name f =
     (case resolve_path f (mf_root f) name of
        Inl e \<Rightarrow> (Inl e, f)
      | Inr p \<Rightarrow>
          if p = mf_root f
          then (Inr (), fold (\<lambda>(n, child) g. discard_tree (mf_next f) child (remove_child root_ino n g))
                          (nd_children (node_of f root_ino)) f)
          else case lookup_parent f p of
            Inl e \<Rightarrow> (if e = FsNotExist then Inr () else Inl e, f)
          | Inr (parent, at, base) \<Rightarrow>
         (case child_of f parent base of
            None \<Rightarrow> (Inr (), f)
          | Some child \<Rightarrow> (Inr (), discard_tree (mf_next f) child (remove_child parent base f))))"

definition fs_link :: "string \<Rightarrow> string \<Rightarrow> unit fs_op" where
  "fs_link old new f =
     (case resolve_path f (mf_root f) old of
        Inl e \<Rightarrow> (Inl e, f)
      | Inr op \<Rightarrow>
     (case resolve_path f (mf_root f) new of
        Inl e \<Rightarrow> (Inl e, f)
      | Inr np \<Rightarrow>
          if np = mf_root f then (Inl FsPermission, f)
          else case lookup_path f True op of
            Inl e \<Rightarrow> (Inl e, f)
          | Inr (i, _) \<Rightarrow>
              if nd_kind (node_of f i) = NodeDirectory then (Inl FsPermission, f)
              else case lookup_parent f np of
                Inl e \<Rightarrow> (Inl e, f)
              | Inr (parent, at, base) \<Rightarrow>
                  if child_of f parent base \<noteq> None then (Inl FsExist, f)
                  else (Inr (), set_node i (\<lambda>n. n\<lparr>nd_nlink := nd_nlink n + 1\<rparr>) (add_child parent base i f))))"

definition fs_chtimes :: "string \<Rightarrow> go_time \<Rightarrow> go_time \<Rightarrow> unit fs_op" where
  "fs_chtimes name atime mtime f =
     (case resolve_path f (mf_root f) name of
        Inl e \<Rightarrow> (Inl e, f)
      | Inr p \<Rightarrow>
     (case lookup_path f True p of
        Inl e \<Rightarrow> (Inl e, f)
      | Inr (i, at) \<Rightarrow> (Inr (), set_node i (\<lambda>n. n\<lparr>nd_atime := atime, nd_mtime := mtime\<rparr>) f)))"

end
