(* ===== verification/MemFSLaws.thy ===== *)
theory MemFSLaws
  imports MemFS PatchLaws
begin

text \<open>
  Lemmas on the in-memory file system: clean paths, the invariant of the tree and its preservation by every
  operation, what a lookup returns, and what a file holds after it was written.
\<close>

section \<open>Clean paths\<close>

definition proper_name :: "string \<Rightarrow> bool" where
  "proper_name p \<longleftrightarrow> p \<noteq> [] \<and> p \<noteq> ''.'' \<and> p \<noteq> ''..'' \<and> slash \<notin> set p"

lemma clean_from_proper:
  "\<lbrakk>list_all proper_name base; \<forall>p \<in> set ps. slash \<notin> set p\<rbrakk> \<Longrightarrow> list_all proper_name (clean_from base ps)"
proof (induction ps arbitrary: base)
  case (Cons p ps)
  have "list_all proper_name (butlast base)"
    using Cons.prems(1) by (auto simp: list_all_iff dest: in_set_butlastD)
  moreover have "p \<noteq> [] \<and> p \<noteq> ''.'' \<Longrightarrow> p \<noteq> ''..'' \<Longrightarrow> proper_name p"
    using Cons.prems(2) by (simp add: proper_name_def)
  ultimately show ?case using Cons by auto
qed simp

lemma join_path_proper: "list_all proper_name base \<Longrightarrow> list_all proper_name (join_path base p)"
  unfolding join_path_def by (rule clean_from_proper) (auto dest: split_char_lines)

lemma clean_from_names: "list_all proper_name ps \<Longrightarrow> clean_from base ps = base @ ps"
  by (induction ps arbitrary: base) (auto simp: proper_name_def)

lemma join_path_names:
  "\<lbrakk>ps \<noteq> []; list_all proper_name ps\<rbrakk> \<Longrightarrow> join_path base (join_char slash ps) = base @ ps"
  by (simp add: join_path_def split_join list_all_iff clean_from_names proper_name_def)

lemma hd_join_char: "\<lbrakk>ps \<noteq> []; hd ps \<noteq> []\<rbrakk> \<Longrightarrow> join_char c ps \<noteq> [] \<and> hd (join_char c ps) = hd (hd ps)"
  by (cases "(c, ps)" rule: join_char.cases) auto

lemma resolve_within: "resolve_path f d p = Inr q \<Longrightarrow> prefix (mf_root f) q"
  by (auto simp: resolve_path_def Let_def split: if_splits)

lemma resolve_proper:
  "\<lbrakk>resolve_path f d p = Inr q; list_all proper_name d\<rbrakk> \<Longrightarrow> list_all proper_name q"
  by (auto simp: resolve_path_def Let_def join_path_proper split: if_splits)

lemma resolve_names:
  assumes "list_all proper_name (p # ps)" "prefix (mf_root f) d"
  shows "resolve_path f d (join_char slash (p # ps)) =
           (if hd p = CHR 0x5C then Inl FsPermission else Inr (d @ p # ps))"
proof -
  have h: "join_char slash (p # ps) \<noteq> []" "hd (join_char slash (p # ps)) = hd p"
    using hd_join_char [of "p # ps" slash] assms(1) by (auto simp: proper_name_def)
  have "hd p \<noteq> slash" using assms(1) by (cases p) (auto simp: proper_name_def)
  then show ?thesis
    using h join_path_names [of "p # ps" d] assms by (auto simp: resolve_path_def is_rooted_path_def Let_def prefix_def)
qed

section \<open>The tree\<close>

definition node_ok :: "memfs \<Rightarrow> nat \<Rightarrow> bool" where
  "node_ok f i \<longleftrightarrow>
     distinct (map fst (nd_children (node_of f i))) \<and>
     (nd_kind (node_of f i) \<noteq> NodeDirectory \<longrightarrow> nd_children (node_of f i) = []) \<and>
     list_all (\<lambda>(n, c). proper_name n \<and> root_ino < c \<and> c < mf_next f) (nd_children (node_of f i))"

definition single_parent :: "memfs \<Rightarrow> nat \<Rightarrow> nat \<Rightarrow> bool" where
  "single_parent f i j \<longleftrightarrow>
     (\<forall>x \<in> set (nd_children (node_of f i)). \<forall>y \<in> set (nd_children (node_of f j)).
        snd x = snd y \<and> nd_kind (node_of f (snd x)) = NodeDirectory \<longrightarrow> i = j \<and> fst x = fst y)"

definition fs_ok :: "memfs \<Rightarrow> bool" where
  "fs_ok f \<longleftrightarrow>
     list_all proper_name (mf_root f) \<and> root_ino < mf_next f \<and> nd_kind (node_of f root_ino) = NodeDirectory \<and>
     (\<forall>i < mf_next f. node_ok f i) \<and> (\<forall>i < mf_next f. \<forall>j < mf_next f. single_parent f i j)"

lemma fs_okI:
  assumes "list_all proper_name (mf_root f)" "root_ino < mf_next f" "nd_kind (node_of f root_ino) = NodeDirectory"
    and "\<And>i. i < mf_next f \<Longrightarrow> distinct (map fst (nd_children (node_of f i)))"
    and "\<And>i. \<lbrakk>i < mf_next f; nd_kind (node_of f i) \<noteq> NodeDirectory\<rbrakk> \<Longrightarrow> nd_children (node_of f i) = []"
    and "\<And>i n c. \<lbrakk>i < mf_next f; child_of f i n = Some c\<rbrakk> \<Longrightarrow> proper_name n \<and> root_ino < c \<and> c < mf_next f"
    and "\<And>i j n m c. \<lbrakk>i < mf_next f; j < mf_next f; child_of f i n = Some c; child_of f j m = Some c;
           nd_kind (node_of f c) = NodeDirectory\<rbrakk> \<Longrightarrow> i = j \<and> n = m"
  shows "fs_ok f"
proof -
  have ch: "child_of f i n = Some c" if "i < mf_next f" "(n, c) \<in> set (nd_children (node_of f i))" for i n c
    using that assms(4) [of i] by (simp add: child_of_def map_of_eq_Some_iff)
  have n: "node_ok f i" if i: "i < mf_next f" for i
    unfolding node_ok_def list_all_iff using assms(4,5) [OF i] assms(6) [OF i ch [OF i]] by blast
  have "single_parent f i j" if i: "i < mf_next f" "j < mf_next f" for i j
    unfolding single_parent_def
  proof (intro ballI impI)
    fix x y
    assume x: "x \<in> set (nd_children (node_of f i))" and y: "y \<in> set (nd_children (node_of f j))"
      and e: "snd x = snd y \<and> nd_kind (node_of f (snd x)) = NodeDirectory"
    have "child_of f i (fst x) = Some (snd x)" using ch [of i "fst x" "snd x"] i x by simp
    moreover have "child_of f j (fst y) = Some (snd x)" using ch [of j "fst y" "snd y"] i y e by simp
    ultimately show "i = j \<and> fst x = fst y" using assms(7) [OF i] e by blast
  qed
  with n show ?thesis using assms(1-3) by (simp add: fs_ok_def)
qed

lemma fs_ok_root: "fs_ok f \<Longrightarrow> list_all proper_name (mf_root f) \<and> root_ino < mf_next f \<and>
    nd_kind (node_of f root_ino) = NodeDirectory"
  by (simp add: fs_ok_def)

lemma fs_ok_distinct: "\<lbrakk>fs_ok f; i < mf_next f\<rbrakk> \<Longrightarrow> distinct (map fst (nd_children (node_of f i)))"
  by (simp add: fs_ok_def node_ok_def)

lemma fs_ok_leaf: "\<lbrakk>fs_ok f; i < mf_next f; nd_kind (node_of f i) \<noteq> NodeDirectory\<rbrakk> \<Longrightarrow> nd_children (node_of f i) = []"
  by (simp add: fs_ok_def node_ok_def)

lemma fs_ok_child:
  "\<lbrakk>fs_ok f; i < mf_next f; child_of f i n = Some c\<rbrakk> \<Longrightarrow> proper_name n \<and> root_ino < c \<and> c < mf_next f"
  by (fastforce simp: fs_ok_def node_ok_def child_of_def list_all_iff dest!: map_of_SomeD)

lemma fs_ok_dir: "\<lbrakk>fs_ok f; i < mf_next f; child_of f i n = Some c\<rbrakk> \<Longrightarrow> nd_kind (node_of f i) = NodeDirectory"
  by (rule ccontr) (simp add: child_of_def fs_ok_leaf)

lemma fs_ok_single:
  assumes "fs_ok f" "i < mf_next f" "j < mf_next f" "child_of f i n = Some c" "child_of f j m = Some c"
    "nd_kind (node_of f c) = NodeDirectory"
  shows "i = j \<and> n = m"
proof -
  have "(n, c) \<in> set (nd_children (node_of f i))" "(m, c) \<in> set (nd_children (node_of f j))"
    using assms(4,5) by (auto simp: child_of_def dest: map_of_SomeD)
  moreover have "single_parent f i j" using assms(1-3) by (simp add: fs_ok_def)
  ultimately show ?thesis using assms(6) by (fastforce simp: single_parent_def)
qed

text \<open>What a lookup and the invariant depend on; most updates of a node leave it alone.\<close>

definition shape :: "memfs \<Rightarrow> path_elems \<times> nat \<times> (nat \<Rightarrow> node_kind \<times> (string \<times> nat) list \<times> string)" where
  "shape f = (mf_root f, mf_next f,
     \<lambda>i. (nd_kind (node_of f i), nd_children (node_of f i), nd_target (node_of f i)))"

lemma shape_eqD:
  assumes "shape f = shape g"
  shows "mf_root f = mf_root g" "mf_next f = mf_next g" "nd_kind (node_of f i) = nd_kind (node_of g i)"
    "nd_children (node_of f i) = nd_children (node_of g i)" "nd_target (node_of f i) = nd_target (node_of g i)"
  using assms by (auto simp: shape_def fun_eq_iff)

lemma node_of_set_node: "node_of (set_node i g f) j = (if j = i then g (node_of f i) else node_of f j)"
  by (simp add: node_of_def set_node_def update_conv)

lemma set_node_fields [simp]:
  "mf_root (set_node i g f) = mf_root f" "mf_next (set_node i g f) = mf_next f"
  "mf_uid (set_node i g f) = mf_uid f" "mf_gid (set_node i g f) = mf_gid f"
  by (simp_all add: set_node_def)

lemma shape_set_node:
  assumes "\<And>n. nd_kind (g n) = nd_kind n" "\<And>n. nd_children (g n) = nd_children n" "\<And>n. nd_target (g n) = nd_target n"
  shows "shape (set_node i g f) = shape f"
  using assms by (auto simp: shape_def node_of_set_node)

lemma shape_child: "shape f = shape g \<Longrightarrow> child_of f = child_of g"
  by (intro ext) (simp add: child_of_def shape_eqD(4) [of f g])

lemma same_tree_ok:
  assumes "mf_root f = mf_root g" "mf_next f = mf_next g" "\<And>i. nd_kind (node_of f i) = nd_kind (node_of g i)"
    "\<And>i. nd_children (node_of f i) = nd_children (node_of g i)"
  shows "fs_ok f = fs_ok g"
  by (simp add: fs_ok_def node_ok_def single_parent_def assms)

lemma shape_ok: "shape f = shape g \<Longrightarrow> fs_ok f = fs_ok g"
  by (rule same_tree_ok) (simp_all add: shape_eqD(1-4) [of f g])

lemma shape_resolve: "shape f = shape g \<Longrightarrow> resolve_path f = resolve_path g"
  by (intro ext) (simp add: resolve_path_def shape_eqD(1) [of f g])

text \<open>One turn of the lookup loop; a link that is followed needs a link left in the budget.\<close>

definition through_link :: "memfs \<Rightarrow> bool \<Rightarrow> nat \<Rightarrow> string list \<Rightarrow> bool" where
  "through_link f follow c ps \<longleftrightarrow> nd_kind (node_of f c) = NodeSymlink \<and> (ps \<noteq> [] \<or> follow)"

lemma walk_not_dir: "nd_kind (node_of f cur) \<noteq> NodeDirectory \<Longrightarrow> walk f follow links cur at (p # ps) = Inl FsNotDirectory"
  by simp

lemma walk_missing:
  "\<lbrakk>nd_kind (node_of f cur) = NodeDirectory; child_of f cur p = None\<rbrakk> \<Longrightarrow>
     walk f follow links cur at (p # ps) = Inl FsNotExist"
  by simp

lemma walk_link:
  "\<lbrakk>nd_kind (node_of f cur) = NodeDirectory; child_of f cur p = Some c; through_link f follow c ps\<rbrakk> \<Longrightarrow>
     walk f follow links cur at (p # ps) =
       (case link_target f at c ps of
          Inl e \<Rightarrow> Inl e
        | Inr t \<Rightarrow> (case links of
                     0 \<Rightarrow> Inl FsTooManySymlinks
                   | Suc n \<Rightarrow> walk f follow n root_ino (mf_root f) (drop (length (mf_root f)) t)))"
  by (simp add: through_link_def)

lemma walk_step:
  "\<lbrakk>nd_kind (node_of f cur) = NodeDirectory; child_of f cur p = Some c; \<not> through_link f follow c ps\<rbrakk> \<Longrightarrow>
     walk f follow links cur at (p # ps) = walk f follow links c (at @ [p]) ps"
  by (auto simp: through_link_def)

lemmas walk_turn = walk_not_dir walk_missing walk_link walk_step

lemma walk_induct [case_names Nil NotDir Missing Bad Loop Link Step]:
  assumes "\<And>links cur at. P links cur at []"
    and "\<And>links cur at p ps. nd_kind (node_of f cur) \<noteq> NodeDirectory \<Longrightarrow> P links cur at (p # ps)"
    and "\<And>links cur at p ps. \<lbrakk>nd_kind (node_of f cur) = NodeDirectory; child_of f cur p = None\<rbrakk> \<Longrightarrow>
           P links cur at (p # ps)"
    and "\<And>links cur at p ps c e. \<lbrakk>nd_kind (node_of f cur) = NodeDirectory; child_of f cur p = Some c;
           through_link f follow c ps; link_target f at c ps = Inl e\<rbrakk> \<Longrightarrow> P links cur at (p # ps)"
    and "\<And>cur at p ps c t. \<lbrakk>nd_kind (node_of f cur) = NodeDirectory; child_of f cur p = Some c;
           through_link f follow c ps; link_target f at c ps = Inr t\<rbrakk> \<Longrightarrow> P 0 cur at (p # ps)"
    and "\<And>n cur at p ps c t. \<lbrakk>nd_kind (node_of f cur) = NodeDirectory; child_of f cur p = Some c;
           through_link f follow c ps; link_target f at c ps = Inr t;
           P n root_ino (mf_root f) (drop (length (mf_root f)) t)\<rbrakk> \<Longrightarrow> P (Suc n) cur at (p # ps)"
    and "\<And>links cur at p ps c. \<lbrakk>nd_kind (node_of f cur) = NodeDirectory; child_of f cur p = Some c;
           \<not> through_link f follow c ps; P links c (at @ [p]) ps\<rbrakk> \<Longrightarrow> P links cur at (p # ps)"
  shows "P links cur at ps"
  using assms
proof (induction f follow links cur at ps rule: walk.induct)
  case (2 f follow links cur at p ps)
  note C = 2(4-9) and L = 2(1) [OF _ _ _ _ _ 2(3-9)] and S = 2(2) [OF _ _ _ 2(3-9)]
  show ?case
  proof (cases "nd_kind (node_of f cur) = NodeDirectory")
    case d: True
    show ?thesis
    proof (cases "child_of f cur p")
      case c: (Some c)
      show ?thesis
      proof (cases "through_link f follow c ps")
        case t: True
        show ?thesis
        proof (cases "link_target f at c ps")
          case (Inl e) then show ?thesis by (rule C(3) [OF d c t])
        next
          case i: (Inr x)
          show ?thesis
          proof (cases links)
            case 0 then show ?thesis using C(4) [OF d c t i] by simp
          next
            case (Suc n)
            have "P n root_ino (mf_root f) (drop (length (mf_root f)) x)"
              by (rule L [OF _ c _ i Suc]) (use d t in \<open>simp_all add: through_link_def\<close>)
            then show ?thesis using C(5) [OF d c t i] Suc by simp
          qed
        qed
      next
        case f: False
        have "P links c (at @ [p]) ps" by (rule S [OF _ c]) (use d f in \<open>simp_all add: through_link_def\<close>)
        then show ?thesis by (rule C(6) [OF d c f])
      qed
    qed (rule C(2) [OF d])
  qed (rule C(1))
qed

lemma shape_link_target: "shape f = shape g \<Longrightarrow> link_target f = link_target g"
  by (intro ext)
    (simp add: link_target_def shape_resolve [of f g] shape_eqD(5) [of f g] split: sum.split)

lemma shape_walk:
  assumes "shape f = shape g"
  shows "walk f follow links cur at ps = walk g follow links cur at ps"
proof -
  note s [simp] = shape_eqD(1,3) [OF assms, symmetric] shape_child [OF assms, symmetric]
    shape_link_target [OF assms, symmetric]
  have t: "through_link g = through_link f" by (intro ext) (simp add: through_link_def)
  show ?thesis
    by (induction links cur at ps rule: walk_induct [where f = f and follow = follow])
      (simp_all add: walk_turn t del: walk.simps(2))
qed

lemma shape_lookup: "shape f = shape g \<Longrightarrow> lookup_path f = lookup_path g"
  by (intro ext) (simp add: lookup_path_def shape_walk [of f g] shape_eqD(1) [of f g])

section \<open>Every operation keeps the invariant\<close>

lemma child_of_add:
  "child_of (add_child i n c f) j m = (if j = i \<and> m = n then Some c else child_of f j m)"
  by (auto simp: add_child_def child_of_def node_of_set_node update_conv)

lemma child_of_remove:
  "child_of (remove_child i n f) j m = (if j = i \<and> m = n then None else child_of f j m)"
  by (auto simp: remove_child_def child_of_def node_of_set_node delete_conv)

lemma add_remove_fields [simp]:
  "mf_root (add_child i n c f) = mf_root f" "mf_next (add_child i n c f) = mf_next f"
  "mf_root (remove_child i n f) = mf_root f" "mf_next (remove_child i n f) = mf_next f"
  "nd_kind (node_of (add_child i n c f) j) = nd_kind (node_of f j)"
  "nd_kind (node_of (remove_child i n f) j) = nd_kind (node_of f j)"
  by (simp_all add: add_child_def remove_child_def node_of_set_node)

lemma children_add: "j \<noteq> i \<Longrightarrow> nd_children (node_of (add_child i n c f) j) = nd_children (node_of f j)"
  by (simp add: add_child_def node_of_set_node)

lemma children_remove: "nd_children (node_of (remove_child i n f) j) =
    (if j = i then AList.delete n (nd_children (node_of f j)) else nd_children (node_of f j))"
  by (simp add: remove_child_def node_of_set_node)

lemma remove_child_ok:
  assumes "fs_ok f"
  shows "fs_ok (remove_child i n f)"
proof (rule fs_okI)
  show "distinct (map fst (nd_children (node_of (remove_child i n f) j)))"
    if "j < mf_next (remove_child i n f)" for j
    using that fs_ok_distinct [OF assms] by (simp add: children_remove distinct_delete)
  show "nd_children (node_of (remove_child i n f) j) = []"
    if "j < mf_next (remove_child i n f)" "nd_kind (node_of (remove_child i n f) j) \<noteq> NodeDirectory" for j
    using that fs_ok_leaf [OF assms, of j] by (auto simp: children_remove)
  show "j = k \<and> m = l" if "j < mf_next (remove_child i n f)" "k < mf_next (remove_child i n f)"
      "child_of (remove_child i n f) j m = Some c" "child_of (remove_child i n f) k l = Some c"
      "nd_kind (node_of (remove_child i n f) c) = NodeDirectory" for j k m l c
    using that fs_ok_single [OF assms, of j k m c l] by (simp add: child_of_remove split: if_splits)
  show "proper_name m \<and> root_ino < d \<and> d < mf_next (remove_child i n f)"
    if "j < mf_next (remove_child i n f)" "child_of (remove_child i n f) j m = Some d" for j m d
    using that fs_ok_child [OF assms, of j m d] by (simp add: child_of_remove split: if_splits)
qed (use fs_ok_root [OF assms] in simp_all)

lemma add_child_ok:
  assumes ok: "fs_ok f" and i: "i < mf_next f" "nd_kind (node_of f i) = NodeDirectory"
    and n: "proper_name n" and c: "root_ino < c" "c < mf_next f"
    and free: "\<And>j m. \<lbrakk>j < mf_next f; nd_kind (node_of f c) = NodeDirectory; child_of f j m = Some c\<rbrakk> \<Longrightarrow> j = i \<and> m = n"
  shows "fs_ok (add_child i n c f)"
proof (rule fs_okI)
  show "distinct (map fst (nd_children (node_of (add_child i n c f) j)))"
    if "j < mf_next (add_child i n c f)" for j
    using that fs_ok_distinct [OF ok] by (simp add: add_child_def node_of_set_node distinct_update)
  show "nd_children (node_of (add_child i n c f) j) = []"
    if "j < mf_next (add_child i n c f)" "nd_kind (node_of (add_child i n c f) j) \<noteq> NodeDirectory" for j
    using that fs_ok_leaf [OF ok] i by (cases "j = i") (simp_all add: children_add)
  show "j = k \<and> m = l" if "j < mf_next (add_child i n c f)" "k < mf_next (add_child i n c f)"
      "child_of (add_child i n c f) j m = Some d" "child_of (add_child i n c f) k l = Some d"
      "nd_kind (node_of (add_child i n c f) d) = NodeDirectory" for j k m l d
  proof -
    have e: "d = c" if "j = i \<and> m = n \<or> k = i \<and> l = n" using that \<open>child_of (add_child i n c f) j m = Some d\<close>
        \<open>child_of (add_child i n c f) k l = Some d\<close> by (auto simp: child_of_add)
    have j: "child_of f j m = Some d \<or> j = i \<and> m = n" and k: "child_of f k l = Some d \<or> k = i \<and> l = n"
      using that(3,4) by (auto simp: child_of_add split: if_splits)
    have d: "nd_kind (node_of f d) = NodeDirectory" and lt: "j < mf_next f" "k < mf_next f" using that by simp_all
    from j k show ?thesis
    proof (elim disjE)
      assume "child_of f j m = Some d" "child_of f k l = Some d"
      then show ?thesis by (rule fs_ok_single [OF ok lt _ _ d])
    next
      assume "child_of f j m = Some d" "k = i \<and> l = n"
      then show ?thesis using free [OF lt(1)] e d by blast
    next
      assume "j = i \<and> m = n" "child_of f k l = Some d"
      then show ?thesis using free [OF lt(2)] e d by blast
    qed simp
  qed
  show "proper_name m \<and> root_ino < d \<and> d < mf_next (add_child i n c f)"
    if "j < mf_next (add_child i n c f)" "child_of (add_child i n c f) j m = Some d" for j m d
    using that fs_ok_child [OF ok, of j m d] n c by (simp add: child_of_add split: if_splits)
qed (use fs_ok_root [OF ok] in simp_all)

lemma new_node_fields:
  assumes "new_node kind mode now f = (i, f1)"
  shows "i = mf_next f" "mf_next f1 = Suc (mf_next f)" "mf_root f1 = mf_root f" "mf_uid f1 = mf_uid f"
    "mf_gid f1 = mf_gid f" "nd_kind (node_of f1 i) = kind" "nd_children (node_of f1 i) = []"
    "nd_data (node_of f1 i) = []" "nd_mode (node_of f1 i) = mode" "nd_nlink (node_of f1 i) = 1"
    "\<And>j. j \<noteq> mf_next f \<Longrightarrow> node_of f1 j = node_of f j"
  using assms by (auto simp: new_node_def node_of_def update_conv)

lemma new_node_ok:
  assumes ok: "fs_ok f" and n: "new_node kind mode now f = (i, f1)"
  shows "fs_ok f1"
proof -
  note N = new_node_fields [OF n]
  have ch: "child_of f1 j m = (if j = i then None else child_of f j m)" for j m
    using N(1,7,11) by (simp add: child_of_def)
  have lt: "c < mf_next f \<and> j < mf_next f" if "child_of f1 j m = Some c" "j < mf_next f1" for j m c
    using that fs_ok_child [OF ok, of j m c] N(1,2) by (auto simp: ch split: if_splits)
  show ?thesis
  proof (rule fs_okI)
    show "distinct (map fst (nd_children (node_of f1 j)))" if "j < mf_next f1" for j
      using that fs_ok_distinct [OF ok, of j] N(1,2,7,11) by (cases "j = i") auto
    show "nd_children (node_of f1 j) = []" if "j < mf_next f1" "nd_kind (node_of f1 j) \<noteq> NodeDirectory" for j
      using that fs_ok_leaf [OF ok, of j] N(1,2,7,11) by (cases "j = i") auto
    show "proper_name m \<and> root_ino < c \<and> c < mf_next f1" if "j < mf_next f1" "child_of f1 j m = Some c" for j m c
      using that fs_ok_child [OF ok, of j m c] lt [OF that(2,1)] N(2) by (auto simp: ch split: if_splits)
    show "j = k \<and> m = l" if t: "j < mf_next f1" "k < mf_next f1" "child_of f1 j m = Some c" "child_of f1 k l = Some c"
        "nd_kind (node_of f1 c) = NodeDirectory" for j k m l c
      using t lt [OF t(3,1)] lt [OF t(4,2)] fs_ok_single [OF ok, of j k m c l] N(11) [of c]
      by (auto simp: ch split: if_splits)
  qed (use fs_ok_root [OF ok] N in auto)
qed

text \<open>A new node under a free name.\<close>

lemma insert_node_ok:
  assumes ok: "fs_ok f" and n: "new_node kind mode now f = (i, f1)" and g: "shape g = shape f1 \<or> g = set_node i (\<lambda>n. n\<lparr>nd_target := t\<rparr>) f1"
    and p: "parent < mf_next f" "nd_kind (node_of f parent) = NodeDirectory" "proper_name base"
  shows "fs_ok (add_child parent base i g)"
proof -
  note N = new_node_fields [OF n]
  have k: "mf_root g = mf_root f1" "mf_next g = mf_next f1" "nd_kind (node_of g j) = nd_kind (node_of f1 j)"
    "nd_children (node_of g j) = nd_children (node_of f1 j)" for j
    using g by (auto simp: shape_eqD(1-4) [of g f1] node_of_set_node)
  then have kc: "child_of g = child_of f1" by (simp add: child_of_def fun_eq_iff)
  have "fs_ok g" using new_node_ok [OF ok n] same_tree_ok [of g f1] k by simp
  then show ?thesis
  proof (rule add_child_ok)
    fix j m assume "j < mf_next g" "child_of g j m = Some i"
    then have "child_of f1 j m = Some i" "j < mf_next f1" using k kc by auto
    then show "j = parent \<and> m = base"
      using fs_ok_child [OF ok, of j m i] N(1,2,7,11) by (cases "j = i") (auto simp: child_of_def)
  qed (use p N fs_ok_root [OF ok] k in \<open>auto simp: root_ino_def\<close>)
qed

section \<open>What a lookup returns\<close>

text \<open>The node a path names when no link is followed.\<close>

fun plain_walk :: "memfs \<Rightarrow> nat \<Rightarrow> string list \<Rightarrow> nat option" where
  "plain_walk f i [] = Some i"
| "plain_walk f i (p # ps) = (case child_of f i p of None \<Rightarrow> None | Some c \<Rightarrow> plain_walk f c ps)"

lemma plain_walk_append:
  "plain_walk f i (ps @ qs) = (case plain_walk f i ps of None \<Rightarrow> None | Some c \<Rightarrow> plain_walk f c qs)"
  by (induction ps arbitrary: i) (auto split: option.splits)

lemma plain_walk_bound: "\<lbrakk>fs_ok f; plain_walk f i ps = Some c; i < mf_next f\<rbrakk> \<Longrightarrow> c < mf_next f"
  by (induction ps arbitrary: i) (auto split: option.splits dest: fs_ok_child)

lemma walk_plain:
  assumes ok: "fs_ok f" and w: "walk f follow links cur at ps = Inr (i, q)"
    and h: "\<exists>ns. at = mf_root f @ ns \<and> plain_walk f root_ino ns = Some cur" "follow \<longrightarrow> nd_kind (node_of f cur) \<noteq> NodeSymlink"
  shows "(follow \<longrightarrow> nd_kind (node_of f i) \<noteq> NodeSymlink) \<and>
    (\<exists>ns. q = mf_root f @ ns \<and> plain_walk f root_ino ns = Some i)"
  using w h
proof (induction links cur at ps rule: walk_induct [where f = f and follow = follow])
  case (Link n cur at p ps c t)
  then show ?case using fs_ok_root [OF ok] by (simp add: walk_turn del: walk.simps)
next
  case (Step links cur at p ps c)
  then obtain ns where "at = mf_root f @ ns" "plain_walk f root_ino ns = Some cur" by blast
  then have "\<exists>ns. at @ [p] = mf_root f @ ns \<and> plain_walk f root_ino ns = Some c"
    using Step(2) by (intro exI [of _ "ns @ [p]"]) (simp add: plain_walk_append)
  moreover have "follow \<longrightarrow> nd_kind (node_of f c) \<noteq> NodeSymlink" using Step(3) by (auto simp: through_link_def)
  ultimately show ?case using Step by (simp add: walk_turn del: walk.simps)
qed (simp_all add: walk_turn del: walk.simps(2))

lemma lookup_plain:
  assumes "fs_ok f" "lookup_path f follow p = Inr (i, q)"
  obtains ns where "q = mf_root f @ ns" "plain_walk f root_ino ns = Some i" "i < mf_next f"
    "follow \<Longrightarrow> nd_kind (node_of f i) \<noteq> NodeSymlink"
  using walk_plain [OF assms(1) assms(2) [unfolded lookup_path_def]] fs_ok_root [OF assms(1)]
    plain_walk_bound [OF assms(1)] that by fastforce

lemma lookup_bound: "\<lbrakk>fs_ok f; lookup_path f follow p = Inr (i, q)\<rbrakk> \<Longrightarrow> i < mf_next f"
  by (erule (1) lookup_plain)

lemma plain_walk_names:
  "\<lbrakk>fs_ok f; plain_walk f i ns = Some j; i < mf_next f\<rbrakk> \<Longrightarrow> list_all proper_name ns"
proof (induction ns arbitrary: i)
  case (Cons m ms)
  then obtain c where c: "child_of f i m = Some c" "plain_walk f c ms = Some j" by (auto split: option.splits)
  show ?case using Cons.IH [OF Cons.prems(1) c(2)] fs_ok_child [OF Cons.prems(1,3) c(1)] by simp
qed simp

lemma lookup_proper:
  assumes "fs_ok f" "lookup_path f follow p = Inr (i, q)"
  shows "list_all proper_name q \<and> prefix (mf_root f) q"
proof -
  obtain ns where ns: "q = mf_root f @ ns" "plain_walk f root_ino ns = Some i" by (rule lookup_plain [OF assms])
  then show ?thesis using fs_ok_root [OF assms(1)] plain_walk_names [OF assms(1) ns(2)] by simp
qed

lemma walk_of_plain:
  "\<lbrakk>fs_ok f; plain_walk f cur ns = Some i; cur < mf_next f; follow \<Longrightarrow> nd_kind (node_of f i) \<noteq> NodeSymlink\<rbrakk> \<Longrightarrow>
     walk f follow links cur at ns = Inr (i, at @ ns)"
proof (induction ns arbitrary: cur at)
  case (Cons n ns)
  then obtain c where c: "child_of f cur n = Some c" "plain_walk f c ns = Some i"
    by (auto split: option.splits)
  have d: "nd_kind (node_of f cur) = NodeDirectory" by (rule fs_ok_dir [OF Cons.prems(1,3) c(1)])
  have lt: "c < mf_next f" using fs_ok_child [OF Cons.prems(1,3) c(1)] by simp
  have "\<not> through_link f follow c ns"
  proof (cases ns)
    case Nil then show ?thesis using c(2) Cons.prems(4) by (auto simp: through_link_def)
  next
    case (Cons m ms)
    then obtain d where "child_of f c m = Some d" using c(2) by (auto split: option.splits)
    then show ?thesis using fs_ok_dir [OF Cons.prems(1) lt] by (auto simp: through_link_def)
  qed
  then show ?case using Cons.IH [OF Cons.prems(1) c(2) lt Cons.prems(4)] d c(1) by (simp add: walk_step del: walk.simps)
qed simp

lemma lookup_again:
  assumes "fs_ok f" "lookup_path f True p = Inr (i, q)"
  shows "lookup_path f follow q = Inr (i, q)"
proof -
  obtain ns where ns: "q = mf_root f @ ns" "plain_walk f root_ino ns = Some i" "nd_kind (node_of f i) \<noteq> NodeSymlink"
    using lookup_plain [OF assms] by metis
  then show ?thesis
    using walk_of_plain [OF assms(1) ns(2)] fs_ok_root [OF assms(1)] by (simp add: lookup_path_def)
qed

text \<open>A directory has one path: no other place of the tree leads to it.\<close>

lemma dir_path_unique:
  assumes ok: "fs_ok f"
  shows "\<lbrakk>plain_walk f root_ino ps = Some i; plain_walk f root_ino qs = Some i; nd_kind (node_of f i) = NodeDirectory\<rbrakk>
    \<Longrightarrow> ps = qs"
proof (induction ps arbitrary: i qs rule: rev_induct)
  case Nil
  show ?case
  proof (cases qs rule: rev_cases)
    case (snoc qs' q)
    then obtain c where "plain_walk f root_ino qs' = Some c" "child_of f c q = Some i"
      using Nil(2) by (auto simp: plain_walk_append split: option.splits)
    then show ?thesis
      using Nil(1) fs_ok_child [OF ok _ \<open>child_of f c q = Some i\<close>] plain_walk_bound [OF ok] fs_ok_root [OF ok] by fastforce
  qed simp
next
  case (snoc p ps)
  obtain c where c: "plain_walk f root_ino ps = Some c" "child_of f c p = Some i"
    using snoc.prems(1) by (auto simp: plain_walk_append split: option.splits)
  have lt: "c < mf_next f" using plain_walk_bound [OF ok c(1)] fs_ok_root [OF ok] by simp
  show ?case
  proof (cases qs rule: rev_cases)
    case Nil then show ?thesis using snoc.prems(2) fs_ok_child [OF ok lt c(2)] by simp
  next
    case s: (snoc qs' q)
    then obtain d where d: "plain_walk f root_ino qs' = Some d" "child_of f d q = Some i"
      using snoc.prems(2) by (auto simp: plain_walk_append split: option.splits)
    have ld: "d < mf_next f" using plain_walk_bound [OF ok d(1)] fs_ok_root [OF ok] by simp
    have "c = d \<and> p = q" by (rule fs_ok_single [OF ok lt ld c(2) d(2) snoc.prems(3)])
    then show ?thesis using snoc.IH [OF c(1), of qs'] d(1) s fs_ok_dir [OF ok lt c(2)] by simp
  qed
qed

lemma lookup_parent_ok:
  assumes "fs_ok f" "lookup_parent f p = Inr (parent, at, base)" "resolve_path f d s = Inr p" "list_all proper_name d"
  shows "parent < mf_next f" "nd_kind (node_of f parent) = NodeDirectory" "proper_name base" "p \<noteq> mf_root f" "base = last p"
    "lookup_path f True (butlast p) = Inr (parent, at)"
proof -
  have p: "list_all proper_name p" "prefix (mf_root f) p"
    using resolve_proper [OF assms(3,4)] resolve_within [OF assms(3)] by auto
  have l: "p \<noteq> mf_root f" "lookup_path f True (butlast p) = Inr (parent, at)"
    "nd_kind (node_of f parent) = NodeDirectory" "base = path_base p"
    using assms(2) by (auto simp: lookup_parent_def split: if_splits sum.splits)
  have ne: "p \<noteq> []" using l(1) p(2) by auto
  show "parent < mf_next f" by (rule lookup_bound [OF assms(1) l(2)])
  show "proper_name base" using l(4) ne p(1) by (simp add: path_base_def list_all_iff)
  show "nd_kind (node_of f parent) = NodeDirectory" "p \<noteq> mf_root f" "base = last p"
    "lookup_path f True (butlast p) = Inr (parent, at)"
    using l ne by (auto simp: path_base_def)
qed

end
