(* ===== verification/MemFSSteps.thy ===== *)
theory MemFSSteps
  imports MemFSLaws
begin

text \<open>
  The operations of the file system as steps, and the invariant of the tree along them.
\<close>

section \<open>Each operation\<close>

lemma touch_ok:
  assumes "\<And>n. nd_kind (g n) = nd_kind n" "\<And>n. nd_children (g n) = nd_children n"
  shows "fs_ok (set_node i g f) = fs_ok f"
  by (rule same_tree_ok) (simp_all add: node_of_set_node assms)

lemma drop_link_ok [simp]: "fs_ok (drop_link i f) = fs_ok f"
  by (simp add: drop_link_def touch_ok)

lemma drop_link_fields [simp]:
  "mf_root (drop_link i f) = mf_root f" "mf_next (drop_link i f) = mf_next f"
  "nd_kind (node_of (drop_link i f) j) = nd_kind (node_of f j)"
  "nd_children (node_of (drop_link i f) j) = nd_children (node_of f j)"
  "child_of (drop_link i f) j m = child_of f j m"
  by (simp_all add: drop_link_def node_of_set_node child_of_def)

lemma fold_keeps: "\<lbrakk>\<And>x s. P s \<Longrightarrow> P (g x s); P s\<rbrakk> \<Longrightarrow> P (fold g xs s)"
  by (induction xs arbitrary: s) auto

lemma discard_tree_ok: "fs_ok f \<Longrightarrow> fs_ok (discard_tree n i f)"
proof (induction n arbitrary: i f)
  case (Suc n)
  have "fs_ok (fold (\<lambda>(name, child) g. discard_tree n child (remove_child i name g)) cs f)" for cs
    by (rule fold_keeps [where P = fs_ok]) (use Suc remove_child_ok in auto)
  with Suc.prems show ?case by simp
qed simp

lemma open_fifo_ok: "fs_ok (snd (open_fifo at i r w f)) = fs_ok f"
  by (simp add: open_fifo_def Let_def touch_ok)

lemma fs_open_ok: "fs_ok f \<Longrightarrow> fs_ok (snd (fs_open name f))"
  by (simp add: fs_open_def open_fifo_ok split: sum.split node_kind.split)

lemma open_existing_ok: "fs_ok (snd (open_existing fl now i at f)) = fs_ok f"
  by (simp add: open_existing_def Let_def open_fifo_ok touch_ok split: node_kind.split)

lemma resolve_create_resolved:
  "\<lbrakk>fs_ok f; resolve_create_path f n p = Inr cp; resolve_path f d s = Inr p; list_all proper_name d\<rbrakk> \<Longrightarrow>
     \<exists>d s. resolve_path f d s = Inr cp \<and> list_all proper_name d"
proof (induction f n p arbitrary: d s rule: resolve_create_path.induct)
  case (2 f n p)
  show ?case
  proof (cases "lookup_parent f p")
    case (Inr x)
    then obtain parent at base where l: "lookup_parent f p = Inr (parent, at, base)" by (cases x) auto
    have look: "lookup_path f True (butlast p) = Inr (parent, at)"
      by (rule lookup_parent_ok(6) [OF 2(2) l 2(4,5)])
    have at: "list_all proper_name at" using lookup_proper [OF 2(2) look] by simp
    show ?thesis
    proof (cases "child_of f parent base")
      case None then show ?thesis using 2(3-5) l by auto
    next
      case (Some c)
      show ?thesis
      proof (cases "nd_kind (node_of f c) = NodeSymlink")
        case False then show ?thesis using 2(3-5) l Some by auto
      next
        case True
        then obtain t where t: "resolve_path f at (nd_target (node_of f c)) = Inr t"
          using 2(3) l Some by (auto split: sum.splits)
        show ?thesis by (rule 2(1) [OF l refl refl Some _ t 2(2) _ t at]) (use 2(3) l Some True t in auto)
      qed
    qed
  qed (use 2(3) in simp)
qed simp

lemma create_regular_ok:
  assumes ok: "fs_ok f" and r: "resolve_path f d s = Inr p" "list_all proper_name d"
  shows "fs_ok (snd (create_regular fl perm now p f))"
proof (cases "resolve_create_path f (Suc max_symlink_depth) p")
  case cp: (Inr cp)
  obtain d' s' where r': "resolve_path f d' s' = Inr cp" "list_all proper_name d'"
    using resolve_create_resolved [OF ok cp r] by blast
  show ?thesis
  proof (cases "lookup_parent f cp")
    case (Inr x)
    then obtain parent at base where l: "lookup_parent f cp = Inr (parent, at, base)" by (cases x) auto
    obtain i f1 where n: "new_node NodeRegular (perm_bits perm) now f = (i, f1)" by (cases "new_node NodeRegular (perm_bits perm) now f")
    have "fs_ok (add_child parent base i f1)"
      using insert_node_ok [OF ok n, of f1] lookup_parent_ok [OF ok l r'] by simp
    then show ?thesis using ok cp l n by (simp add: create_regular_def del: resolve_create_path.simps)
  qed (use ok cp in \<open>simp add: create_regular_def del: resolve_create_path.simps\<close>)
qed (use ok in \<open>simp add: create_regular_def del: resolve_create_path.simps\<close>)

lemma open_file_ok:
  assumes ok: "fs_ok f"
  shows "fs_ok (snd (open_file name fl perm now f))"
  using create_regular_ok [OF ok, of "mf_root f" name] fs_ok_root [OF ok] ok
  by (simp add: open_file_def open_existing_ok split: sum.split prod.split)

lemma file_read_ok: "fs_ok (snd (snd (file_read n now h f))) = fs_ok f"
  by (simp add: file_read_def Let_def touch_ok)

lemma file_write_ok: "fs_ok (snd (snd (file_write p now h f))) = fs_ok f"
  by (simp add: file_write_def Let_def touch_ok)

lemma fifo_write_ok: "fs_ok (snd (fifo_write p h f)) = fs_ok f"
  by (simp add: fifo_write_def Let_def touch_ok)

lemma fifo_read_ok: "fifo_read n h f = Some (r, f') \<Longrightarrow> fs_ok f' = fs_ok f"
  by (auto simp: fifo_read_def Let_def touch_ok split: if_splits)

lemma close_handle_ok: "fs_ok (snd (close_handle h f)) = fs_ok f"
  by (simp add: close_handle_def touch_ok split: fs_handle.split)

lemma fs_chmod_ok: "fs_ok f \<Longrightarrow> fs_ok (snd (fs_chmod name mode now f))"
  by (simp add: fs_chmod_def touch_ok split: sum.split prod.split)

lemma fs_chtimes_ok: "fs_ok f \<Longrightarrow> fs_ok (snd (fs_chtimes name a m f))"
  by (simp add: fs_chtimes_def touch_ok split: sum.split prod.split)

lemma write_file_ok:
  assumes "fs_ok f"
  shows "fs_ok (snd (write_file name d perm now f))"
proof -
  obtain r f1 where o: "open_file name write_flags perm now f = (r, f1)" by (cases "open_file name write_flags perm now f")
  have f1: "fs_ok f1" using open_file_ok [OF assms, of name write_flags perm now] o by simp
  show ?thesis
  proof (cases r)
    case (Inr h)
    have "snd (write_file name d perm now f) =
        (case h of RegularFile rf \<Rightarrow> snd (snd (file_write d now rf f1))
         | FIFOWriter w \<Rightarrow> snd (close_handle h (snd (fifo_write d w f1))) | _ \<Rightarrow> f1)"
      by (simp add: write_file_def o Inr split: fs_handle.split prod.split)
    then show ?thesis using f1 by (simp add: file_write_ok fifo_write_ok close_handle_ok split: fs_handle.split)
  qed (use o f1 in \<open>simp add: write_file_def\<close>)
qed

lemma fs_remove_ok: "fs_ok f \<Longrightarrow> fs_ok (snd (fs_remove name f))"
  by (simp add: fs_remove_def remove_child_ok split: sum.split prod.split option.split)

lemma insert_new_ok:
  assumes ok: "fs_ok f"
  shows "fs_ok (snd (insert_new err kind mode target name now f))"
proof (cases "resolve_path f (mf_root f) name")
  case r: (Inr p)
  note root = fs_ok_root [OF ok]
  show ?thesis
  proof (cases "p = mf_root f")
    case p: False
    show ?thesis
    proof (cases "lookup_parent f p")
      case (Inr x)
      then obtain parent at base where l: "lookup_parent f p = Inr (parent, at, base)" by (cases x) auto
      obtain i f1 where n: "new_node kind mode now f = (i, f1)" by (cases "new_node kind mode now f")
      have "fs_ok (add_child parent base i (set_node i (\<lambda>n. n\<lparr>nd_target := target\<rparr>) f1))"
        using lookup_parent_ok [OF ok l r] root by (intro insert_node_ok [OF ok n, of _ target]) simp_all
      then show ?thesis using ok r p l n by (simp add: insert_new_def)
    qed (use ok r p in \<open>simp add: insert_new_def\<close>)
  qed (use ok r in \<open>simp add: insert_new_def\<close>)
qed (use ok in \<open>simp add: insert_new_def\<close>)

lemma fs_mkdir_ok: "fs_ok f \<Longrightarrow> fs_ok (snd (fs_mkdir name perm now f))"
  by (simp add: fs_mkdir_def insert_new_ok)

lemma fs_symlink_ok: "fs_ok f \<Longrightarrow> fs_ok (snd (fs_symlink old new now f))"
  by (simp add: fs_symlink_def insert_new_ok)

lemma fs_mkfifo_ok: "fs_ok f \<Longrightarrow> fs_ok (snd (fs_mkfifo name mode now f))"
  by (simp add: fs_mkfifo_def insert_new_ok)

lemma mkdir_parts_ok:
  "\<lbrakk>fs_ok f; cur < mf_next f; nd_kind (node_of f cur) = NodeDirectory; list_all proper_name ps\<rbrakk> \<Longrightarrow>
     fs_ok (snd (mkdir_parts perm now cur at ps f))"
proof (induction perm now cur at ps f rule: mkdir_parts.induct)
  case (2 perm now cur at p ps f)
  show ?case
  proof (cases "child_of f cur p")
    case None
    obtain i f1 where n: "new_node NodeDirectory (mode_dir OR perm_bits perm) now f = (i, f1)"
      by (cases "new_node NodeDirectory (mode_dir OR perm_bits perm) now f")
    note N = new_node_fields [OF n]
    have "fs_ok (snd (mkdir_parts perm now i (at @ [p]) ps (add_child cur p i f1)))"
      by (rule 2(1) [OF None n [symmetric]])
        (use insert_node_ok [OF 2(4) n, of f1] 2(5-7) N(1,2,6) in simp_all)
    then show ?thesis using None n by simp
  next
    case (Some c)
    have lt: "c < mf_next f" using fs_ok_child [OF 2(4,5) Some] by simp
    show ?thesis
    proof (cases "nd_kind (node_of f c) = NodeSymlink")
      case link: True
      show ?thesis
      proof (cases "resolve_path f at (nd_target (node_of f c))")
        case t: (Inr t)
        show ?thesis
        proof (cases "lookup_path f True t")
          case (Inr x)
          then obtain i at' where l: "lookup_path f True t = Inr (i, at')" by (cases x) auto
          show ?thesis
          proof (cases "nd_kind (node_of f i) = NodeDirectory")
            case True
            have "fs_ok (snd (mkdir_parts perm now i at' ps f))"
              by (rule 2(2) [OF Some link t l refl])
                (use True 2(4,7) lookup_bound [OF 2(4) l] in simp_all)
            then show ?thesis using Some link t l True by simp
          qed (use Some link t l 2(4) in simp)
        qed (use Some link t 2(4) in simp)
      qed (use Some link 2(4) in simp)
    next
      case nolink: False
      show ?thesis
      proof (cases "nd_kind (node_of f c) = NodeDirectory")
        case True
        have "fs_ok (snd (mkdir_parts perm now c (at @ [p]) ps f))"
          by (rule 2(3) [OF Some nolink]) (use True 2(4,7) lt in simp_all)
        then show ?thesis using Some nolink True by simp
      qed (use Some nolink 2(4) in simp)
    qed
  qed
qed simp

lemma mkdir_all_ok:
  assumes ok: "fs_ok f"
  shows "fs_ok (snd (mkdir_all name perm now f))"
proof (cases "resolve_path f (mf_root f) name")
  case (Inr p)
  have "list_all proper_name p" using resolve_proper [OF Inr] fs_ok_root [OF ok] by simp
  then have "list_all proper_name (drop (length (mf_root f)) p)" by (auto simp: list_all_iff dest: in_set_dropD)
  then show ?thesis using mkdir_parts_ok [OF ok] fs_ok_root [OF ok] Inr by (simp add: mkdir_all_def)
qed (use ok in \<open>simp add: mkdir_all_def\<close>)

lemma remove_all_ok:
  assumes "fs_ok f"
  shows "fs_ok (snd (remove_all name f))"
proof -
  have "fs_ok (fold (\<lambda>(n, child) g. discard_tree k child (remove_child root_ino n g)) cs f)" for k cs
    by (rule fold_keeps [where P = fs_ok]) (use assms discard_tree_ok remove_child_ok in auto)
  then show ?thesis
    using assms by (simp add: remove_all_def discard_tree_ok remove_child_ok split: sum.split prod.split option.split)
qed

lemma fs_link_ok:
  assumes ok: "fs_ok f"
  shows "fs_ok (snd (fs_link old new f))"
proof (cases "fst (fs_link old new f)")
  case (Inl e)
  then have "snd (fs_link old new f) = f"
    by (auto simp: fs_link_def split: sum.splits prod.splits if_splits)
  with ok show ?thesis by simp
next
  case (Inr u)
  then obtain op np i at parent at' base where
    r: "resolve_path f (mf_root f) old = Inr op" "resolve_path f (mf_root f) new = Inr np" and
    i: "lookup_path f True op = Inr (i, at)" "nd_kind (node_of f i) \<noteq> NodeDirectory" and
    l: "lookup_parent f np = Inr (parent, at', base)" and
    e: "snd (fs_link old new f) = set_node i (\<lambda>n. n\<lparr>nd_nlink := nd_nlink n + 1\<rparr>) (add_child parent base i f)"
    by (auto simp: fs_link_def split: sum.splits prod.splits if_splits)
  note root = fs_ok_root [OF ok] and p = lookup_parent_ok [OF ok l r(2)]
  have "i \<noteq> root_ino" using i(2) root by auto
  moreover have "0 < i"
  proof -
    obtain ns where "plain_walk f root_ino ns = Some i" by (rule lookup_plain [OF ok i(1)])
    then have "i = root_ino \<or> root_ino < i"
    proof (cases ns rule: rev_cases)
      case (snoc ms m)
      then obtain c where "plain_walk f root_ino ms = Some c" "child_of f c m = Some i"
        using \<open>plain_walk f root_ino ns = Some i\<close> by (auto simp: plain_walk_append split: option.splits)
      then show ?thesis using fs_ok_child [OF ok] plain_walk_bound [OF ok] root by blast
    qed simp
    then show ?thesis by (auto simp: root_ino_def)
  qed
  ultimately have "fs_ok (add_child parent base i f)"
    using root p i lookup_bound [OF ok i(1)] by (intro add_child_ok [OF ok]) (simp_all add: root_ino_def)
  then show ?thesis by (simp add: e touch_ok)
qed

text \<open>A rename that succeeds: the entry it moves, and what the tree was once the names were freed.\<close>

lemma fs_rename_cases:
  assumes "fst (fs_rename old new f) = Inr ()"
  obtains op np old_parent at old_base node new_parent at' new_base f1 where
    "resolve_path f (mf_root f) old = Inr op" "resolve_path f (mf_root f) new = Inr np" "op \<noteq> mf_root f"
    "lookup_parent f op = Inr (old_parent, at, old_base)" "child_of f old_parent old_base = Some node"
    "lookup_parent f np = Inr (new_parent, at', new_base)"
    "f1 = (case child_of f new_parent new_base of None \<Rightarrow> f
           | Some existing \<Rightarrow> drop_link existing (remove_child new_parent new_base f))"
    "snd (fs_rename old new f) = add_child new_parent new_base node (remove_child old_parent old_base f1)"
proof -
  obtain op where op: "resolve_path f (mf_root f) old = Inr op"
    using assms by (cases "resolve_path f (mf_root f) old") (simp_all add: fs_rename_def)
  obtain np where np: "resolve_path f (mf_root f) new = Inr np"
    using assms op by (cases "resolve_path f (mf_root f) new") (simp_all add: fs_rename_def)
  have root: "op \<noteq> mf_root f" using assms op np by (auto simp: fs_rename_def)
  obtain x where x: "lookup_parent f op = Inr x"
    using assms op np root by (cases "lookup_parent f op") (simp_all add: fs_rename_def)
  obtain old_parent at old_base where l: "x = (old_parent, at, old_base)" by (cases x)
  obtain node where n: "child_of f old_parent old_base = Some node"
    using assms op np root x l by (cases "child_of f old_parent old_base") (simp_all add: fs_rename_def)
  obtain y where y: "lookup_parent f np = Inr y"
    using assms op np root x l n by (cases "lookup_parent f np") (simp_all add: fs_rename_def)
  obtain new_parent at' new_base where m: "y = (new_parent, at', new_base)" by (cases y)
  let ?f1 = "case child_of f new_parent new_base of None \<Rightarrow> f
    | Some existing \<Rightarrow> drop_link existing (remove_child new_parent new_base f)"
  have "snd (fs_rename old new f) = add_child new_parent new_base node (remove_child old_parent old_base ?f1)"
    using assms op np root x l n y m
    by (cases "child_of f new_parent new_base") (auto simp: fs_rename_def split: if_splits)
  with that [OF op np root _ n _ refl] x l y m show thesis by blast
qed

lemma fs_rename_error: "fst (fs_rename old new f) = Inl e \<Longrightarrow> snd (fs_rename old new f) = f"
  by (auto simp: fs_rename_def Let_def split: sum.splits prod.splits option.splits if_splits)

lemma fs_rename_ok:
  assumes ok: "fs_ok f"
  shows "fs_ok (snd (fs_rename old new f))"
proof (cases "fst (fs_rename old new f)")
  case (Inl e) then show ?thesis using fs_rename_error ok by simp
next
  case (Inr u)
  then have "fst (fs_rename old new f) = Inr ()" by simp
  then obtain op np old_parent at old_base node new_parent at' new_base f1 where
    r: "resolve_path f (mf_root f) old = Inr op" "resolve_path f (mf_root f) new = Inr np" and
    l: "lookup_parent f op = Inr (old_parent, at, old_base)" "child_of f old_parent old_base = Some node"
       "lookup_parent f np = Inr (new_parent, at', new_base)" and
    f1: "f1 = (case child_of f new_parent new_base of None \<Rightarrow> f
               | Some existing \<Rightarrow> drop_link existing (remove_child new_parent new_base f))" and
    e: "snd (fs_rename old new f) = add_child new_parent new_base node (remove_child old_parent old_base f1)"
    by (rule fs_rename_cases)
  note root = fs_ok_root [OF ok]
  note p = lookup_parent_ok [OF ok l(1) r(1) root [THEN conjunct1]]
    and q = lookup_parent_ok [OF ok l(3) r(2) root [THEN conjunct1]]
  let ?f2 = "remove_child old_parent old_base f1"
  have ok2: "fs_ok ?f2" using ok by (simp add: f1 remove_child_ok split: option.split)
  have same: "mf_next ?f2 = mf_next f" "nd_kind (node_of ?f2 j) = nd_kind (node_of f j)" for j
    by (simp_all add: f1 split: option.split)
  have sub: "child_of f j m = Some c \<and> (j, m) \<noteq> (old_parent, old_base)" if "child_of ?f2 j m = Some c" for j m c
    using that by (auto simp: f1 child_of_remove split: if_splits option.splits)
  show ?thesis
    unfolding e
  proof (rule add_child_ok [OF ok2])
    fix j m
    assume j: "j < mf_next ?f2" and d: "nd_kind (node_of ?f2 node) = NodeDirectory" and c: "child_of ?f2 j m = Some node"
    have cj: "child_of f j m = Some node" using sub [OF c] by simp
    have "j = old_parent \<and> m = old_base" by (rule fs_ok_single [OF ok _ p(1) cj l(2)]) (use j d same in simp_all)
    with sub [OF c] show "j = new_parent \<and> m = new_base" by simp
  qed (use p q root same fs_ok_child [OF ok p(1) l(2)] in simp_all)
qed

section \<open>Steps\<close>

inductive fs_step :: "memfs \<Rightarrow> memfs \<Rightarrow> bool" where
  Open: "fs_step f (snd (fs_open name f))"
| OpenFile: "fs_step f (snd (open_file name fl perm now f))"
| Read: "fs_step f (snd (snd (file_read n now h f)))"
| Write: "fs_step f (snd (snd (file_write p now h f)))"
| FIFORead: "fifo_read n fh f = Some (r, f') \<Longrightarrow> fs_step f f'"
| FIFOWrite: "fs_step f (snd (fifo_write p fh f))"
| Close: "fs_step f (snd (close_handle hdl f))"
| WriteFile: "fs_step f (snd (write_file name p perm now f))"
| Remove: "fs_step f (snd (fs_remove name f))"
| RemoveAll: "fs_step f (snd (remove_all name f))"
| Rename: "fs_step f (snd (fs_rename old new f))"
| Chmod: "fs_step f (snd (fs_chmod name mode now f))"
| Chtimes: "fs_step f (snd (fs_chtimes name atime mtime f))"
| Mkdir: "fs_step f (snd (fs_mkdir name perm now f))"
| MkdirAll: "fs_step f (snd (mkdir_all name perm now f))"
| Symlink: "fs_step f (snd (fs_symlink old new now f))"
| Link: "fs_step f (snd (fs_link old new f))"
| Mkfifo: "fs_step f (snd (fs_mkfifo name mode now f))"

lemmas fs_op_ok = fs_open_ok open_file_ok fs_chmod_ok fs_chtimes_ok write_file_ok fs_remove_ok remove_all_ok
  fs_rename_ok fs_mkdir_ok mkdir_all_ok fs_symlink_ok fs_link_ok fs_mkfifo_ok

lemma fs_step_ok: "\<lbrakk>fs_step f f'; fs_ok f\<rbrakk> \<Longrightarrow> fs_ok f'"
  by (induction rule: fs_step.induct)
    (simp_all add: fs_op_ok file_read_ok file_write_ok fifo_write_ok close_handle_ok fifo_read_ok)

definition fs_reachable :: "memfs \<Rightarrow> memfs \<Rightarrow> bool" where
  "fs_reachable f f' \<longleftrightarrow> fs_step\<^sup>*\<^sup>* f f'"

lemma new_memfs_ok:
  assumes "clean_root s = Some root"
  shows "fs_ok (new_memfs root uid gid now)"
proof -
  have "list_all proper_name root"
    using assms join_path_proper [of "[]"] by (auto simp: clean_root_def Let_def split: if_splits)
  then show ?thesis
    by (intro fs_okI)
      (auto simp: new_memfs_def new_node_def node_of_def blank_node_def child_of_def root_ino_def less_Suc_eq split: if_splits)
qed

lemma reachable_ok: "\<lbrakk>fs_reachable f f'; fs_ok f\<rbrakk> \<Longrightarrow> fs_ok f'"
  unfolding fs_reachable_def by (induction rule: rtranclp_induct) (auto intro: fs_step_ok)

end
