(* ===== verification/MemFSData.thy ===== *)
theory MemFSData
  imports MemFSSteps
begin

text \<open>
  What a file holds after it was written, also when the write created it behind dangling links, and
  directories made with their parents. Both compare lookups in a tree with lookups in a larger one.
\<close>

declare walk.simps(2) [simp del]

section \<open>Larger trees\<close>

definition extends :: "memfs \<Rightarrow> memfs \<Rightarrow> bool" where
  "extends f g \<longleftrightarrow>
     mf_root g = mf_root f \<and> mf_next f \<le> mf_next g \<and>
     (\<forall>i < mf_next f. nd_kind (node_of g i) = nd_kind (node_of f i) \<and> nd_target (node_of g i) = nd_target (node_of f i)) \<and>
     (\<forall>i < mf_next f. \<forall>n c. child_of f i n = Some c \<longrightarrow> child_of g i n = Some c)"

lemma extendsD:
  assumes "extends f g" "i < mf_next f"
  shows "nd_kind (node_of g i) = nd_kind (node_of f i)" "nd_target (node_of g i) = nd_target (node_of f i)"
    "child_of f i n = Some c \<Longrightarrow> child_of g i n = Some c"
  using assms by (simp_all add: extends_def)

lemma extends_root: "extends f g \<Longrightarrow> mf_root g = mf_root f \<and> mf_next f \<le> mf_next g"
  by (simp add: extends_def)

lemma extends_refl [simp]: "extends f f"
  by (simp add: extends_def)

lemma extends_trans: "\<lbrakk>extends f g; extends g h\<rbrakk> \<Longrightarrow> extends f h"
  by (auto simp: extends_def)

lemma extends_resolve: "extends f g \<Longrightarrow> resolve_path g = resolve_path f"
  by (intro ext) (simp add: resolve_path_def extends_root)

lemma extends_link:
  "\<lbrakk>extends f g; c < mf_next f\<rbrakk> \<Longrightarrow> link_target g at c ps = link_target f at c ps"
  by (simp add: link_target_def extends_resolve [of f g] extendsD [of f g] split: sum.split)

lemma extends_through: "\<lbrakk>extends f g; c < mf_next f\<rbrakk> \<Longrightarrow> through_link g follow c ps = through_link f follow c ps"
  by (simp add: through_link_def extendsD [of f g])

text \<open>A lookup that succeeds gives the same node in the larger tree.\<close>

lemma walk_extends:
  assumes ok: "fs_ok f" and e: "extends f g"
  shows "\<lbrakk>walk f follow links cur at ps = Inr r; cur < mf_next f\<rbrakk> \<Longrightarrow> walk g follow links cur at ps = Inr r"
proof (induction links cur at ps rule: walk_induct [where f = f and follow = follow])
  case (Link n cur at p ps c t)
  have c: "c < mf_next f" using fs_ok_child [OF ok Link(7,2)] by simp
  have "walk g follow n root_ino (mf_root g) (drop (length (mf_root g)) t) = Inr r"
    using Link fs_ok_root [OF ok] extends_root [OF e] by (simp add: walk_link)
  then show ?case
    using Link(1-4) extendsD [OF e Link(7)] extends_link [OF e c] extends_through [OF e c]
    by (simp add: walk_link [of g])
next
  case (Step links cur at p ps c)
  have c: "c < mf_next f" using fs_ok_child [OF ok Step(6,2)] by simp
  have "walk g follow links c (at @ [p]) ps = Inr r" using Step c by (simp add: walk_step)
  then show ?case
    using Step(1-3) extendsD [OF e Step(6)] extends_through [OF e c] by (simp add: walk_step [of g])
qed (simp_all add: walk_turn)

lemma lookup_extends:
  "\<lbrakk>fs_ok f; extends f g; lookup_path f follow p = Inr r\<rbrakk> \<Longrightarrow> lookup_path g follow p = Inr r"
  using walk_extends [of f g follow max_symlink_depth root_ino] fs_ok_root [of f] extends_root [of f g]
  by (simp add: lookup_path_def)

text \<open>A new node under a free name makes the tree larger.\<close>

lemma insert_extends:
  assumes ok: "fs_ok f" and n: "new_node kind mode now f = (i, f1)" and p: "child_of f parent base = None"
  shows "extends f (add_child parent base i f1)"
  using new_node_fields(2,3,11) [OF n] p fs_ok_child [OF ok]
  by (auto simp: extends_def child_of_add) (auto simp: add_child_def node_of_set_node child_of_def)

section \<open>One more element\<close>

lemma names_drop: "\<lbrakk>prefix root p; list_all proper_name p\<rbrakk> \<Longrightarrow> list_all proper_name (drop (length root) p)"
  by (auto simp: list_all_iff dest: in_set_dropD)

text \<open>
  When the lookup of \<open>ps\<close> ends at \<open>parent\<close>, looking up one more element continues there, unless the budget of
  links is too small or the element begins with a backslash behind a link.
\<close>

lemma walk_snoc:
  assumes ok: "fs_ok f" and e: "extends f g" and b: "proper_name b"
  shows "\<lbrakk>walk f True budget cur at ps = Inr (parent, pat); links \<le> budget; cur < mf_next f; list_all proper_name ps; list_all proper_name at\<rbrakk> \<Longrightarrow>
    walk f True links cur at (ps @ [b]) \<in> {Inl FsPermission, Inl FsTooManySymlinks} \<or>
    (\<exists>k \<le> links. walk f True links cur at (ps @ [b]) = walk f True k parent pat [b] \<and>
                 walk g True links cur at (ps @ [b]) = walk g True k parent pat [b])"
proof (induction budget cur at ps arbitrary: links rule: walk_induct [where f = f and follow = True])
  case (Nil budget cur at)
  then show ?case by (intro disjI2 exI [of _ links]) simp
next
  case (Link n cur at p ps c t)
  note root = fs_ok_root [OF ok]
  have c: "c < mf_next f" using fs_ok_child [OF ok Link(8,2)] by simp
  have through: "through_link f True c (ps @ [b])" "through_link g True c (ps @ [b])"
    using Link(3) extends_through [OF e c] by (auto simp: through_link_def)
  obtain t0 where t0: "resolve_path f at (nd_target (node_of f c)) = Inr t0"
    using Link(4) by (auto simp: link_target_def split: sum.splits)
  have t: "t = t0 @ ps" "ps \<noteq> [] \<Longrightarrow> hd (hd ps) \<noteq> CHR 0x5C"
    using Link(4,9) t0 resolve_names [of _ _ f t0] resolve_within [OF t0]
    by (cases ps; simp add: link_target_def split: if_splits)+
  have lt: "link_target f at c (ps @ [b]) = (if ps = [] \<and> hd b = CHR 0x5C then Inl FsPermission else Inr (t @ [b]))"
    using t t0 resolve_names [of _ _ f t0] resolve_within [OF t0] Link(9) b
    by (cases ps) (simp_all add: link_target_def del: join_char.simps)
  show ?case
  proof (cases "(ps = [] \<and> hd b = CHR 0x5C) \<or> links = 0")
    case True
    then show ?thesis using Link(1,2) through(1) lt by (auto simp: walk_link)
  next
    case False
    then obtain m where m: "links = Suc m" by (cases links) auto
    have lt': "link_target f at c (ps @ [b]) = Inr (t @ [b])" using lt False by (auto)
    have pre: "prefix (mf_root f) t" using resolve_within [OF t0] t(1) by simp
    have "list_all proper_name t" using resolve_proper [OF t0 Link(10)] t(1) Link(9) by simp
    then have pn: "list_all proper_name (drop (length (mf_root f)) t)" by (rule names_drop [OF pre])
    have d: "drop (length (mf_root f)) (t @ [b]) = drop (length (mf_root f)) t @ [b]"
      using pre by (auto simp: prefix_def)
    have "walk f True links cur at ((p # ps) @ [b]) =
        walk f True m root_ino (mf_root f) (drop (length (mf_root f)) t @ [b])"
      using Link(1,2) through(1) lt' m d by (simp add: walk_link)
    moreover have "walk g True links cur at ((p # ps) @ [b]) =
        walk g True m root_ino (mf_root f) (drop (length (mf_root f)) t @ [b])"
      using Link(1,2) through(2) lt' m d extendsD [OF e Link(8)] extends_link [OF e c] extends_root [OF e]
      by (simp add: walk_link)
    moreover have "walk f True n root_ino (mf_root f) (drop (length (mf_root f)) t) = Inr (parent, pat)"
      using Link(1-4,6) by (simp add: walk_link)
    ultimately show ?thesis using Link(5) [of m] Link(7) m pn root by (fastforce intro: le_SucI)
  qed
next
  case (Step budget cur at p ps c)
  have c: "c < mf_next f" using fs_ok_child [OF ok Step(7,2)] by simp
  have through: "\<not> through_link f True c (ps @ [b])" "\<not> through_link g True c (ps @ [b])"
    using Step(3) extends_through [OF e c] by (auto simp: through_link_def)
  have "walk f True links cur at ((p # ps) @ [b]) = walk f True links c (at @ [p]) (ps @ [b])"
    "walk g True links cur at ((p # ps) @ [b]) = walk g True links c (at @ [p]) (ps @ [b])"
    using Step(1,2) through extendsD [OF e Step(7)] by (simp_all add: walk_step)
  moreover have "walk f True budget c (at @ [p]) ps = Inr (parent, pat)"
    using Step(1-3,5) by (simp add: walk_step)
  ultimately show ?case using Step(4) [of links] Step(6,8,9) c by simp
qed (simp_all add: walk_turn)

text \<open>
  The path \<open>resolveCreatePathLocked\<close> arrives at is where the lookup that failed arrives at once the
  node is there.
\<close>

lemma create_found:
  assumes "fs_ok f" "resolve_create_path f n p = Inr cp" "lookup_parent f cp = Inr (parent, at, base)"
    and "extends f g" "child_of g parent base = Some i" "nd_kind (node_of g i) = NodeRegular" "child_of f parent base = None"
    and "resolve_path f d s = Inr p" "list_all proper_name d" "links \<le> max_symlink_depth"
    and "walk f True links root_ino (mf_root f) (drop (length (mf_root f)) p) = Inl FsNotExist"
  shows "\<exists>q. walk g True links root_ino (mf_root f) (drop (length (mf_root f)) p) = Inr (i, q)"
  using assms
proof (induction f n p arbitrary: d s links rule: resolve_create_path.induct)
  case (2 f n p)
  note ok = 2(2) and rc = 2(3) and lp = 2(4) and e = 2(5) and new = 2(6-8) and r = 2(9,10) and b = 2(11) and w = 2(12)
  note root = fs_ok_root [OF ok]
  obtain x where "lookup_parent f p = Inr x" using rc by (cases "lookup_parent f p") simp_all
  then obtain par0 at0 b0 where l: "lookup_parent f p = Inr (par0, at0, b0)" by (cases x) auto
  note P = lookup_parent_ok [OF ok l r]
  have p: "list_all proper_name p" "prefix (mf_root f) p" using resolve_proper [OF r] resolve_within [OF r(1)] by auto
  obtain zs z where z: "p = mf_root f @ zs @ [z]"
    using p(2) P(4) by (auto simp: prefix_def) (metis rev_exhaust)
  have split: "drop (length (mf_root f)) p = drop (length (mf_root f)) (butlast p) @ [b0]"
    "list_all proper_name (drop (length (mf_root f)) (butlast p))"
    using p(1) P(5) z by (simp_all add: butlast_append)
  have at0: "list_all proper_name at0" using lookup_proper [OF ok P(6)] by simp
  obtain k where k: "k \<le> links"
    "walk f True links root_ino (mf_root f) (drop (length (mf_root f)) p) = walk f True k par0 at0 [b0]"
    "walk g True links root_ino (mf_root f) (drop (length (mf_root f)) p) = walk g True k par0 at0 [b0]"
    using walk_snoc [OF ok e P(3) P(6) [unfolded lookup_path_def] b _ split(2)] w root split(1) by auto
  have dg: "nd_kind (node_of g par0) = NodeDirectory" using extendsD(1) [OF e P(1)] P(2) by simp
  show ?case
  proof (cases "child_of f par0 b0")
    case None
    then have "par0 = parent" "b0 = base" using rc lp l by simp_all
    then show ?thesis using k(3) new dg by (simp add: walk_step through_link_def)
  next
    case (Some c)
    have c: "c < mf_next f" using fs_ok_child [OF ok P(1) Some] by simp
    have sym: "nd_kind (node_of f c) = NodeSymlink"
    proof (rule ccontr)
      assume "nd_kind (node_of f c) \<noteq> NodeSymlink"
      then have "par0 = parent" "b0 = base" using rc lp l Some by simp_all
      then show False using new(3) Some by simp
    qed
    then obtain t where t: "resolve_path f at0 (nd_target (node_of f c)) = Inr t"
      using rc l Some by (auto split: sum.splits)
    have through: "through_link f True c []" "through_link g True c []"
      using sym extends_through [OF e c] by (auto simp: through_link_def)
    have lt: "link_target f at0 c [] = Inr t" "link_target g at0 c [] = Inr t"
      using t extends_link [OF e c] by (simp_all add: link_target_def)
    obtain m where m: "k = Suc m"
      using k(2) w walk_link [OF P(2) Some through(1), of k at0] lt by (cases k) simp_all
    have wf: "walk f True m root_ino (mf_root f) (drop (length (mf_root f)) t) = Inl FsNotExist"
      using k(2) w walk_link [OF P(2) Some through(1), of k at0] lt m by simp
    have "\<exists>q. walk g True m root_ino (mf_root f) (drop (length (mf_root f)) t) = Inr (i, q)"
      by (rule 2(1) [OF l refl refl Some _ t ok _ lp e new t at0 _ wf]) (use rc l Some sym t b k(1) m in auto)
    then show ?thesis
      using k(3) walk_link [OF dg extendsD(3) [OF e P(1) Some] through(2), of k at0] lt m extends_root [OF e] by simp
  qed
qed simp

section \<open>Writing a file\<close>

definition names_fifo :: "string \<Rightarrow> memfs \<Rightarrow> bool" where
  "names_fifo name f =
     (case resolve_path f (mf_root f) name of
        Inl e \<Rightarrow> False
      | Inr p \<Rightarrow> (case lookup_path f True p of Inl e \<Rightarrow> False | Inr (i, q) \<Rightarrow> nd_kind (node_of f i) = NodeFIFO))"

text \<open>\<open>fresh_handle\<close>: a file opened for writing that holds nothing yet.\<close>

definition fresh_handle :: "memfs \<Rightarrow> regular_file \<Rightarrow> bool" where
  "fresh_handle f h \<longleftrightarrow> hf_offset h = 0 \<and> hf_writable h \<and> \<not> hf_append h \<and> \<not> hf_closed h \<and>
     nd_kind (node_of f (hf_node h)) = NodeRegular \<and> nd_data (node_of f (hf_node h)) = []"

lemma shape_extends: "shape f = shape g \<Longrightarrow> extends f g"
  by (simp add: extends_def shape_eqD [of f g] shape_child [of f g])

lemma create_regular_found:
  assumes ok: "fs_ok f" and r: "resolve_path f d s = Inr p" "list_all proper_name d"
    and w: "lookup_path f True p = Inl FsNotExist" and o: "create_regular write_flags perm now p f = (Inr hd1, f1)"
  obtains h q where "hd1 = RegularFile h" "lookup_path f1 True p = Inr (hf_node h, q)" "fresh_handle f1 h"
    "extends f f1" "mf_next f \<le> hf_node h" "\<And>j. j < mf_next f \<Longrightarrow> nd_data (node_of f1 j) = nd_data (node_of f j)"
proof -
  obtain cp where cp: "resolve_create_path f (Suc max_symlink_depth) p = Inr cp"
    using o by (cases "resolve_create_path f (Suc max_symlink_depth) p") (simp_all add: create_regular_def del: resolve_create_path.simps)
  obtain x where "lookup_parent f cp = Inr x"
    using o cp by (cases "lookup_parent f cp") (simp_all add: create_regular_def del: resolve_create_path.simps)
  then obtain parent at base where l: "lookup_parent f cp = Inr (parent, at, base)" by (cases x) auto
  have free: "child_of f parent base = None"
    using o cp l by (auto simp: create_regular_def simp del: resolve_create_path.simps split: if_splits)
  obtain i g where n: "new_node NodeRegular (perm_bits perm) now f = (i, g)" by (cases "new_node NodeRegular (perm_bits perm) now f")
  note N = new_node_fields [OF n]
  define h where "h = \<lparr>hf_path = cp, hf_node = i, hf_offset = 0, hf_readable = False, hf_writable = True,
    hf_append = False, hf_closed = False\<rparr>"
  have h: "hd1 = RegularFile h" "f1 = add_child parent base i g" "hf_node h = i" "hf_offset h = 0" "hf_writable h"
    "\<not> hf_append h" "\<not> hf_closed h"
    using o cp l free n by (simp_all add: create_regular_def write_flags_def h_def del: resolve_create_path.simps)
  obtain d' s' where r': "resolve_path f d' s' = Inr cp" "list_all proper_name d'"
    using resolve_create_resolved [OF ok cp r] by blast
  have e: "extends f f1" unfolding h(2) by (rule insert_extends [OF ok n free])
  have data: "nd_data (node_of f1 j) = nd_data (node_of g j)" for j
    by (simp add: h(2) add_child_def node_of_set_node)
  have k: "child_of f1 parent base = Some i" "nd_kind (node_of f1 i) = NodeRegular"
    using N(6) by (simp_all add: h(2) child_of_add)
  obtain q where "walk f1 True max_symlink_depth root_ino (mf_root f) (drop (length (mf_root f)) p) = Inr (i, q)"
    using create_found [OF ok cp l e k free r order_refl w [unfolded lookup_path_def]] by blast
  then have look: "lookup_path f1 True p = Inr (hf_node h, q)" using extends_root [OF e] h(3) by (simp add: lookup_path_def)
  have fresh: "fresh_handle f1 h" using h k(2) N(8) data by (simp add: fresh_handle_def)
  have "nd_data (node_of f1 j) = nd_data (node_of f j)" if "j < mf_next f" for j
    using that N(11) data by simp
  moreover have "mf_next f \<le> hf_node h" using N(1) h(3) by simp
  ultimately show thesis using that h(1) look fresh e by blast
qed

lemma open_file_found:
  assumes ok: "fs_ok f" and nd: "\<not> is_dev_null_path name" and r: "resolve_path f (mf_root f) name = Inr p"
    and nf: "\<not> names_fifo name f" and o: "open_file name write_flags perm now f = (Inr hd1, f1)"
  obtains h q where "hd1 = RegularFile h" "lookup_path f1 True p = Inr (hf_node h, q)" "fresh_handle f1 h"
    "extends f f1" "hf_node h < mf_next f \<longrightarrow> lookup_path f True p = Inr (hf_node h, q)"
    "\<And>j. \<lbrakk>j < mf_next f; j \<noteq> hf_node h\<rbrakk> \<Longrightarrow> nd_data (node_of f1 j) = nd_data (node_of f j)"
proof (cases "lookup_path f True p")
  case (Inr x)
  then obtain i at where l: "lookup_path f True p = Inr (i, at)" by (cases x) auto
  have k: "nd_kind (node_of f i) \<noteq> NodeFIFO" using nf r l by (simp add: names_fifo_def)
  have sym: "nd_kind (node_of f i) \<noteq> NodeSymlink" by (rule lookup_plain [OF ok l]) simp
  have oe: "open_existing write_flags now i at f = (Inr hd1, f1)" using o nd r l by (simp add: open_file_def)
  then have kr: "nd_kind (node_of f i) = NodeRegular"
    using k sym by (cases "nd_kind (node_of f i)") (simp_all add: open_existing_def write_flags_def)
  define h where "h = \<lparr>hf_path = at, hf_node = i, hf_offset = 0, hf_readable = False, hf_writable = True,
    hf_append = False, hf_closed = False\<rparr>"
  have h14: "hd1 = RegularFile h" "f1 = set_node i (\<lambda>n. n\<lparr>nd_data := [], nd_mtime := now\<rparr>) f"
    using oe kr by (simp_all add: open_existing_def write_flags_def h_def)
  have h: "hd1 = RegularFile h" "hf_node h = i" "fresh_handle f1 h"
    "f1 = set_node i (\<lambda>n. n\<lparr>nd_data := [], nd_mtime := now\<rparr>) f"
    using h14 kr by (simp_all add: h_def fresh_handle_def node_of_set_node)
  have s: "shape f1 = shape f" unfolding h(4) by (rule shape_set_node) simp_all
  have "lookup_path f1 True p = Inr (hf_node h, at)" using shape_lookup [OF s] l h(2) by simp
  moreover have "nd_data (node_of f1 j) = nd_data (node_of f j)" if "j \<noteq> hf_node h" for j
    using that h(2,4) by (simp add: node_of_set_node)
  moreover have "lookup_path f True p = Inr (hf_node h, at)" using l h(2) by simp
  ultimately show thesis using that h(1,3) shape_extends [OF s [symmetric]] by blast
next
  case (Inl e)
  then have "create_regular write_flags perm now p f = (Inr hd1, f1)" "e = FsNotExist"
    using o nd r by (auto simp: open_file_def write_flags_def split: if_splits)
  then obtain h q where h: "hd1 = RegularFile h" "lookup_path f1 True p = Inr (hf_node h, q)" "fresh_handle f1 h"
    "extends f f1" "mf_next f \<le> hf_node h" "\<And>j. j < mf_next f \<Longrightarrow> nd_data (node_of f1 j) = nd_data (node_of f j)"
    using create_regular_found [OF ok r _ _ \<open>create_regular write_flags perm now p f = (Inr hd1, f1)\<close>] fs_ok_root [OF ok] Inl
    by metis
  then show thesis using that by simp
qed

lemma write_at_all: "write_at 0 d [] = d"
  by (simp add: write_at_def)

text \<open>What \<open>WriteFile\<close> did when it succeeded.\<close>

lemma write_file_found:
  assumes ok: "fs_ok f" and nd: "\<not> is_dev_null_path name" and nf: "\<not> names_fifo name f"
    and w: "write_file name d perm now f = (Inr (), f')"
  obtains p i q where "resolve_path f (mf_root f) name = Inr p" "lookup_path f' True p = Inr (i, q)"
    "nd_kind (node_of f' i) = NodeRegular" "nd_data (node_of f' i) = d" "extends f f'"
    "i < mf_next f \<longrightarrow> lookup_path f True p = Inr (i, q)"
    "\<And>j. \<lbrakk>j < mf_next f; j \<noteq> i\<rbrakk> \<Longrightarrow> nd_data (node_of f' j) = nd_data (node_of f j)"
proof -
  obtain r f1 where o: "open_file name write_flags perm now f = (r, f1)" by (cases "open_file name write_flags perm now f")
  obtain hd1 where hd1: "r = Inr hd1" using w o by (cases r) (simp_all add: write_file_def)
  obtain p where p: "resolve_path f (mf_root f) name = Inr p"
    using o hd1 nd by (cases "resolve_path f (mf_root f) name") (simp_all add: open_file_def)
  obtain h q where h: "hd1 = RegularFile h" "lookup_path f1 True p = Inr (hf_node h, q)" "fresh_handle f1 h"
    "extends f f1" "hf_node h < mf_next f \<longrightarrow> lookup_path f True p = Inr (hf_node h, q)"
    "\<And>j. \<lbrakk>j < mf_next f; j \<noteq> hf_node h\<rbrakk> \<Longrightarrow> nd_data (node_of f1 j) = nd_data (node_of f j)"
    using open_file_found [OF ok nd p nf o [unfolded hd1]] by metis
  have "file_write d now h f1 = (Inr (length d), h\<lparr>hf_offset := length d\<rparr>,
      set_node (hf_node h) (\<lambda>x. x\<lparr>nd_data := d, nd_atime := now, nd_mtime := now\<rparr>) f1)"
    using h(3) by (simp add: file_write_def fresh_handle_def write_at_all)
  then have f': "f' = set_node (hf_node h) (\<lambda>x. x\<lparr>nd_data := d, nd_atime := now, nd_mtime := now\<rparr>) f1"
    using w o hd1 h(1) by (simp add: write_file_def)
  have s: "shape f' = shape f1" unfolding f' by (rule shape_set_node) simp_all
  have "lookup_path f' True p = Inr (hf_node h, q)" using shape_lookup [OF s] h(2) by simp
  moreover have "nd_kind (node_of f' (hf_node h)) = NodeRegular" "nd_data (node_of f' (hf_node h)) = d"
    using h(3) by (simp_all add: f' node_of_set_node fresh_handle_def)
  moreover have "extends f f'" using extends_trans [OF h(4) shape_extends [OF s [symmetric]]] .
  moreover have "nd_data (node_of f' j) = nd_data (node_of f j)" if "j < mf_next f" "j \<noteq> hf_node h" for j
    using h(6) [OF that] that(2) by (simp add: f' node_of_set_node)
  ultimately show thesis using that p h(5) by blast
qed

lemma write_file_effect:
  assumes "fs_ok f" "\<not> is_dev_null_path name" "\<not> names_fifo name f" "write_file name d perm now f = (Inr (), f')"
  shows "\<exists>p i q. resolve_path f (mf_root f) name = Inr p \<and> lookup_path f' True p = Inr (i, q) \<and>
    nd_kind (node_of f' i) = NodeRegular \<and> nd_data (node_of f' i) = d \<and> extends f f' \<and>
    (i < mf_next f \<longrightarrow> lookup_path f True p = Inr (i, q)) \<and>
    (\<forall>j. j < mf_next f \<and> j \<noteq> i \<longrightarrow> nd_data (node_of f' j) = nd_data (node_of f j))"
proof (rule write_file_found [OF assms])
  fix p i q
  assume w: "resolve_path f (mf_root f) name = Inr p" "lookup_path f' True p = Inr (i, q)"
    "nd_kind (node_of f' i) = NodeRegular" "nd_data (node_of f' i) = d" "extends f f'"
    "i < mf_next f \<longrightarrow> lookup_path f True p = Inr (i, q)"
  assume "\<And>j. \<lbrakk>j < mf_next f; j \<noteq> i\<rbrakk> \<Longrightarrow> nd_data (node_of f' j) = nd_data (node_of f j)"
  then have "\<forall>j. j < mf_next f \<and> j \<noteq> i \<longrightarrow> nd_data (node_of f' j) = nd_data (node_of f j)" by blast
  with w show ?thesis by blast
qed

lemma open_read:
  assumes nd: "\<not> is_dev_null_path name" and "resolve_path f (mf_root f) name = Inr p" "lookup_path f True p = Inr (i, q)"
    "nd_kind (node_of f i) = NodeRegular"
  shows "\<exists>h. fs_open name f = (Inr (RegularFile h), f) \<and>
           fst (file_read n t h f) = Inr (if nd_data (node_of f i) = [] then None else Some (take n (nd_data (node_of f i))))"
  using assms by (simp add: fs_open_def file_read_def Let_def)

section \<open>Directories made with their parents\<close>

lemma mkdir_parts_again:
  "\<lbrakk>fs_ok f; cur < mf_next f; nd_kind (node_of f cur) = NodeDirectory; list_all proper_name ps;
    mkdir_parts perm now cur at ps f = (Inr (), f')\<rbrakk> \<Longrightarrow>
     extends f f' \<and> (\<forall>g. extends f' g \<longrightarrow> mkdir_parts perm' now' cur at ps g = (Inr (), g))"
proof (induction perm now cur at ps f rule: mkdir_parts.induct)
  case (2 perm now cur at p ps f)
  note ok = 2(4) and cur = 2(5)
  show ?case
  proof (cases "child_of f cur p")
    case None
    obtain i f1 where n: "new_node NodeDirectory (mode_dir OR perm_bits perm) now f = (i, f1)"
      by (cases "new_node NodeDirectory (mode_dir OR perm_bits perm) now f")
    note N = new_node_fields [OF n]
    let ?f2 = "add_child cur p i f1"
    have ok2: "fs_ok ?f2" using insert_node_ok [OF ok n, of f1] 2(5-7) by simp
    have i: "i < mf_next ?f2" "nd_kind (node_of ?f2 i) = NodeDirectory" "child_of ?f2 cur p = Some i" "cur < mf_next ?f2"
      using N(1,2,6) cur by (simp_all add: child_of_add)
    have IH: "extends ?f2 f' \<and> (\<forall>g. extends f' g \<longrightarrow> mkdir_parts perm' now' i (at @ [p]) ps g = (Inr (), g))"
      by (rule 2(1) [OF None n [symmetric] ok2 i(1,2)]) (use 2(7,8) None n in simp_all)
    have e: "extends f f'" using extends_trans [OF insert_extends [OF ok n None]] IH by blast
    have "mkdir_parts perm' now' cur at (p # ps) g = (Inr (), g)" if g: "extends f' g" for g
    proof -
      have "extends ?f2 g" using extends_trans IH g by blast
      from extendsD(1) [OF this i(1)] extendsD(3) [OF this i(4) i(3)]
      have "child_of g cur p = Some i" "nd_kind (node_of g i) = NodeDirectory" using i(2) by simp_all
      then show ?thesis using IH g by simp
    qed
    with e show ?thesis by blast
  next
    case (Some c)
    have c: "c < mf_next f" using fs_ok_child [OF ok cur Some] by simp
    show ?thesis
    proof (cases "nd_kind (node_of f c) = NodeSymlink")
      case link: True
      obtain t where t: "resolve_path f at (nd_target (node_of f c)) = Inr t"
        using 2(8) Some link by (auto split: sum.splits)
      obtain x where "lookup_path f True t = Inr x" using 2(8) Some link t by (cases "lookup_path f True t") simp_all
      then obtain i at' where l: "lookup_path f True t = Inr (i, at')" by (cases x) auto
      have d: "nd_kind (node_of f i) = NodeDirectory" using 2(8) Some link t l by (auto split: if_splits)
      have i: "i < mf_next f" by (rule lookup_bound [OF ok l])
      have IH: "extends f f' \<and> (\<forall>g. extends f' g \<longrightarrow> mkdir_parts perm' now' i at' ps g = (Inr (), g))"
        by (rule 2(2) [OF Some link t l refl _ ok i d]) (use d 2(7,8) Some link t l in simp_all)
      have "mkdir_parts perm' now' cur at (p # ps) g = (Inr (), g)" if g: "extends f' g" for g
      proof -
        have fg: "extends f g" using extends_trans IH g by blast
        have "child_of g cur p = Some c" "nd_kind (node_of g c) = NodeSymlink" "nd_target (node_of g c) = nd_target (node_of f c)"
          "nd_kind (node_of g i) = NodeDirectory"
          using extendsD [OF fg cur] Some extendsD(1,2) [OF fg c] link extendsD(1) [OF fg i] d by simp_all
        then show ?thesis using IH g t lookup_extends [OF ok fg l] extends_resolve [OF fg] by simp
      qed
      with IH show ?thesis by blast
    next
      case nolink: False
      have d: "nd_kind (node_of f c) = NodeDirectory" using 2(8) Some nolink by (auto split: if_splits)
      have IH: "extends f f' \<and> (\<forall>g. extends f' g \<longrightarrow> mkdir_parts perm' now' c (at @ [p]) ps g = (Inr (), g))"
        by (rule 2(3) [OF Some nolink _ ok c d]) (use d 2(7,8) Some nolink in simp_all)
      have "mkdir_parts perm' now' cur at (p # ps) g = (Inr (), g)" if g: "extends f' g" for g
      proof -
        have fg: "extends f g" using extends_trans IH g by blast
        have "child_of g cur p = Some c" "nd_kind (node_of g c) = NodeDirectory"
          using extendsD [OF fg cur] Some extendsD(1) [OF fg c] d by simp_all
        then show ?thesis using IH g by simp
      qed
      with IH show ?thesis by blast
    qed
  qed
qed simp

lemma mkdir_all_twice:
  assumes ok: "fs_ok f" and m: "mkdir_all name perm now f = (Inr (), f')"
  shows "extends f f' \<and> mkdir_all name perm' now' f' = (Inr (), f')"
proof -
  obtain p where r: "resolve_path f (mf_root f) name = Inr p"
    using m by (cases "resolve_path f (mf_root f) name") (simp_all add: mkdir_all_def)
  have names: "list_all proper_name (drop (length (mf_root f)) p)"
    using names_drop resolve_within [OF r] resolve_proper [OF r] fs_ok_root [OF ok] by blast
  have "extends f f' \<and> (\<forall>g. extends f' g \<longrightarrow>
      mkdir_parts perm' now' root_ino (mf_root f) (drop (length (mf_root f)) p) g = (Inr (), g))"
    by (rule mkdir_parts_again [OF ok]) (use fs_ok_root [OF ok] names m r in \<open>simp_all add: mkdir_all_def\<close>)
  moreover from this have "mf_root f' = mf_root f" "resolve_path f' = resolve_path f"
    using extends_root extends_resolve by blast+
  ultimately show ?thesis using r by (simp add: mkdir_all_def)
qed

section \<open>Moving a directory\<close>

text \<open>A directory moved below itself has no way in from the root.\<close>

lemma plain_walk_self:
  assumes ok: "fs_ok f" and only: "\<And>j m. \<lbrakk>j < mf_next f; child_of f j m = Some i\<rbrakk> \<Longrightarrow> j = i" and i: "i \<noteq> root_ino"
  shows "plain_walk f root_ino ns \<noteq> Some i"
proof (induction ns rule: rev_induct)
  case (snoc n ns)
  show ?case
  proof
    assume "plain_walk f root_ino (ns @ [n]) = Some i"
    then obtain c where c: "plain_walk f root_ino ns = Some c" "child_of f c n = Some i"
      by (auto simp: plain_walk_append split: option.splits)
    have "c < mf_next f" using plain_walk_bound [OF ok c(1)] fs_ok_root [OF ok] by simp
    then have "c = i" using only c(2) by blast
    with c(1) snoc.IH show False by simp
  qed
qed (use i in simp)

lemma rename_below_itself:
  assumes ok: "fs_ok f" and old: "resolve_path f (mf_root f) old = Inr op" "op \<noteq> mf_root f" "lookup_path f False op = Inr (i, op)"
    and dir: "nd_kind (node_of f i) = NodeDirectory"
    and new: "resolve_path f (mf_root f) new = Inr (op @ [b])" "child_of f i b = None"
  shows "fst (fs_rename old new f) = Inr () \<and> (\<forall>follow p q. lookup_path (snd (fs_rename old new f)) follow p \<noteq> Inr (i, q))"
proof -
  note root = fs_ok_root [OF ok]
  obtain ns where ns: "op = mf_root f @ ns" "plain_walk f root_ino ns = Some i" "i < mf_next f" by (rule lookup_plain [OF ok old(3)])
  then obtain ms m where m: "ns = ms @ [m]" using old(2) by (cases ns rule: rev_cases) auto
  obtain par where par: "plain_walk f root_ino ms = Some par" "child_of f par m = Some i"
    using ns(2) m by (auto simp: plain_walk_append split: option.splits)
  have lt: "par < mf_next f" using plain_walk_bound [OF ok par(1)] root by simp
  have kp: "nd_kind (node_of f par) = NodeDirectory" by (rule fs_ok_dir [OF ok lt par(2)])
  have lo: "lookup_parent f op = Inr (par, butlast op, m)"
    using walk_of_plain [OF ok par(1), of True] root kp ns(1) m
    by (simp add: lookup_parent_def lookup_path_def path_base_def butlast_append)
  have ln: "lookup_parent f (op @ [b]) = Inr (i, op, b)"
  proof -
    have "lookup_path f True op = Inr (i, op)"
      using walk_of_plain [OF ok ns(2), of True] root dir ns(1) by (simp add: lookup_path_def)
    moreover have "op @ [b] \<noteq> mf_root f" using ns(1) by simp
    ultimately show ?thesis using dir by (simp add: lookup_parent_def path_base_def)
  qed
  let ?f' = "add_child i b i (remove_child par m f)"
  have r: "fs_rename old new f = (Inr (), ?f')"
    using old(1,2) new lo ln par(2) by (simp add: fs_rename_def)
  have ok': "fs_ok ?f'" using fs_rename_ok [OF ok, of old new] r by simp
  have i: "i \<noteq> root_ino" using fs_ok_child [OF ok lt par(2)] by simp
  have only: "j = i" if "j < mf_next ?f'" "child_of ?f' j n = Some i" for j n
    using that fs_ok_single [OF ok _ lt _ par(2) dir, of j n] by (auto simp: child_of_add child_of_remove split: if_splits)
  have "lookup_path ?f' follow p \<noteq> Inr (i, q)" for follow p q
  proof
    assume "lookup_path ?f' follow p = Inr (i, q)"
    then obtain ls where "plain_walk ?f' root_ino ls = Some i" by (rule lookup_plain [OF ok'])
    with plain_walk_self [OF ok' only i] show False by simp
  qed
  with r show ?thesis by simp
qed

end
