(* ===== verification/PatchFiles.thy ===== *)
theory PatchFiles
  imports MemFSData
begin

text \<open>
  The \<open>apply_patch\<close> tool on files (\<open>pkg/tools/applypatch/applypatch.go\<close>): the handler over the file
  system interface the tool is given, and that interface on the in-memory file system. A call that never
  returns, such as a read from a FIFO without a writer, is \<open>None\<close>.
\<close>

section \<open>Paths as strings\<close>

definition path_string :: "path_elems \<Rightarrow> string" where
  "path_string q = slash # join_char slash q"

text \<open>\<open>filepath.Dir\<close> of a clean absolute path.\<close>

definition path_dir :: "string \<Rightarrow> string" where
  "path_dir p = path_string (butlast (join_path [] p))"

section \<open>The interface\<close>

text \<open>
  What the tool uses of its context: paths are resolved against the working directory; \<open>fa_buffer\<close> is the
  free space \<open>io.ReadAll\<close> offers a read after so many bytes, and \<open>fa_null_mode\<close> the mode of the null device.
\<close>

record ('f, 'h) file_api =
  fa_resolve :: "string \<Rightarrow> 'f \<Rightarrow> fs_error + string"
  fa_stat :: "string \<Rightarrow> 'f \<Rightarrow> fs_error + stat_info option"
  fa_open :: "string \<Rightarrow> 'f \<Rightarrow> (fs_error + 'h) \<times> 'f"
  fa_read :: "nat \<Rightarrow> 'h \<Rightarrow> 'f \<Rightarrow> ((fs_error + string option) \<times> 'h \<times> 'f) option"
  fa_close :: "'h \<Rightarrow> 'f \<Rightarrow> 'f"
  fa_mkdir_all :: "string \<Rightarrow> 32 word \<Rightarrow> 'f \<Rightarrow> (fs_error + unit) \<times> 'f"
  fa_write :: "string \<Rightarrow> string \<Rightarrow> 32 word \<Rightarrow> 'f \<Rightarrow> (fs_error + unit) \<times> 'f"
  fa_buffer :: "nat \<Rightarrow> nat"
  fa_null_mode :: "32 word"

datatype file_failure =
    FailedFs fs_error
  | ReadLimitNotPositive
  | ReadLimitExceeded string int
  | FileExists string
  | FileIsDirectory string
  | FileIsBinary string
  | HunkNotFound string

text \<open>\<open>io.ReadAll\<close> of an \<open>io.LimitReader\<close>.\<close>

partial_function (option) read_all ::
    "('f, 'h) file_api \<Rightarrow> int \<Rightarrow> string \<Rightarrow> 'h \<Rightarrow> 'f \<Rightarrow> ((fs_error + string) \<times> 'h \<times> 'f) option" where
  "read_all api left acc h f =
     (if left \<le> 0 then Some (Inr acc, h, f)
      else case fa_read api (nat (min (int (fa_buffer api (length acc))) left)) h f of
        None \<Rightarrow> None
      | Some (r, h', f') \<Rightarrow>
     (case r of
        Inl e \<Rightarrow> Some (Inl e, h', f')
      | Inr None \<Rightarrow> Some (Inr acc, h', f')
      | Inr (Some bytes) \<Rightarrow> read_all api (left - int (length bytes)) (acc @ bytes) h' f'))"

declare read_all.simps [code]

definition read_text_limited ::
    "('f, 'h) file_api \<Rightarrow> string \<Rightarrow> int \<Rightarrow> 'f \<Rightarrow> ((file_failure + string) \<times> 'f) option" where
  "read_text_limited api file limit f =
     (case fa_open api file f of
        (Inl e, f1) \<Rightarrow> Some (Inl (FailedFs e), f1)
      | (Inr h, f1) \<Rightarrow>
          if limit \<le> 0 then Some (Inl ReadLimitNotPositive, fa_close api h f1)
          else case read_all api (limit + 1) [] h f1 of
            None \<Rightarrow> None
          | Some (r, h', f2) \<Rightarrow>
              Some ((case r of
                       Inl e \<Rightarrow> Inl (FailedFs e)
                     | Inr d \<Rightarrow> if limit < int (length d) then Inl (ReadLimitExceeded file limit) else Inr d),
                    fa_close api h' f2))"

section \<open>The handler\<close>

definition default_patch_perm :: "32 word" where "default_patch_perm = 420"

definition max_patch_bytes :: int where "max_patch_bytes = 4194304"

definition patch_file_perm :: "32 word \<Rightarrow> 32 word" where
  "patch_file_perm mode = (if perm_bits mode = 0 then default_patch_perm else perm_bits mode)"

definition apply_add_file_op ::
    "('f, 'h) file_api \<Rightarrow> string \<Rightarrow> string list \<Rightarrow> 'f \<Rightarrow> (file_failure + string) \<times> 'f" where
  "apply_add_file_op api file ls f =
     (case fa_stat api file f of
        Inr info \<Rightarrow> (Inl (FileExists file), f)
      | Inl e \<Rightarrow>
          if e \<noteq> FsNotExist then (Inl (FailedFs e), f)
          else case fa_mkdir_all api (path_dir file) 493 f of
            (Inl e, f1) \<Rightarrow> (Inl (FailedFs e), f1)
          | (Inr u, f1) \<Rightarrow>
         (case fa_write api file (add_content ls) default_patch_perm f1 of
            (Inl e, f2) \<Rightarrow> (Inl (FailedFs e), f2)
          | (Inr u, f2) \<Rightarrow> (Inr (''add|'' @ file), f2)))"

definition info_is_dir :: "stat_info option \<Rightarrow> bool" where
  "info_is_dir info \<longleftrightarrow> (case info of None \<Rightarrow> False | Some i \<Rightarrow> si_mode i AND mode_dir \<noteq> 0)"

definition apply_update_file_op ::
    "('f, 'h) file_api \<Rightarrow> string \<Rightarrow> patch_hunk list \<Rightarrow> 'f \<Rightarrow> ((file_failure + string) \<times> 'f) option" where
  "apply_update_file_op api file hunks f =
     (case fa_stat api file f of
        Inl e \<Rightarrow> Some (Inl (FailedFs e), f)
      | Inr info \<Rightarrow>
          if info_is_dir info then Some (Inl (FileIsDirectory file), f)
          else case read_text_limited api file max_patch_bytes f of
            None \<Rightarrow> None
          | Some (r, f1) \<Rightarrow>
              Some (case r of
                Inl e \<Rightarrow> (Inl e, f1)
              | Inr original \<Rightarrow>
                  if CHR 0x00 \<in> set original then (Inl (FileIsBinary file), f1)
                  else case updated_content original hunks of
                    None \<Rightarrow> (Inl (HunkNotFound file), f1)
                  | Some content \<Rightarrow>
                 (case fa_write api file content
                         (patch_file_perm (case info of None \<Rightarrow> fa_null_mode api | Some i \<Rightarrow> si_mode i)) f1 of
                    (Inl e, f2) \<Rightarrow> (Inl (FailedFs e), f2)
                  | (Inr u, f2) \<Rightarrow> (Inr (''update|'' @ file), f2))))"

definition apply_patch_file_op ::
    "('f, 'h) file_api \<Rightarrow> patch_op \<Rightarrow> 'f \<Rightarrow> ((file_failure + string) \<times> 'f) option" where
  "apply_patch_file_op api x f =
     (case x of
        AddFile p ls \<Rightarrow>
          (case fa_resolve api p f of Inl e \<Rightarrow> Some (Inl (FailedFs e), f) | Inr file \<Rightarrow> Some (apply_add_file_op api file ls f))
      | UpdateFile p hunks \<Rightarrow>
          (case fa_resolve api p f of Inl e \<Rightarrow> Some (Inl (FailedFs e), f) | Inr file \<Rightarrow> apply_update_file_op api file hunks f))"

text \<open>The operations run in order up to the first that fails; what the earlier ones did stays.\<close>

fun apply_patch_ops ::
    "('f, 'h) file_api \<Rightarrow> patch_op list \<Rightarrow> 'f \<Rightarrow> ((file_failure + string list) \<times> 'f) option" where
  "apply_patch_ops api [] f = Some (Inr [], f)"
| "apply_patch_ops api (x # xs) f =
     (case apply_patch_file_op api x f of
        None \<Rightarrow> None
      | Some (Inl e, f1) \<Rightarrow> Some (Inl e, f1)
      | Some (Inr summary, f1) \<Rightarrow>
     (case apply_patch_ops api xs f1 of
        None \<Rightarrow> None
      | Some (r, f2) \<Rightarrow> Some (map_sum id (\<lambda>ss. summary # ss) r, f2)))"

text \<open>What the handler puts into the step.\<close>

datatype tool_outcome =
    ToolParseError patch_error
  | ToolPolicyError file_failure
  | ToolOutput string

fun summary_lines :: "nat \<Rightarrow> string list \<Rightarrow> string" where
  "summary_lines i [] = []"
| "summary_lines i (s # ss) = int_str (int i) @ ''|'' @ s @ newline # summary_lines (i + 1) ss"

definition apply_patch_handle :: "('f, 'h) file_api \<Rightarrow> string \<Rightarrow> 'f \<Rightarrow> (tool_outcome \<times> 'f) option" where
  "apply_patch_handle api input f =
     (case parse_apply_patch input of
        Inl e \<Rightarrow> Some (ToolParseError e, f)
      | Inr xs \<Rightarrow>
     (case apply_patch_ops api xs f of
        None \<Rightarrow> None
      | Some (Inl e, f1) \<Rightarrow> Some (ToolPolicyError e, f1)
      | Some (Inr ss, f1) \<Rightarrow>
          Some (ToolOutput (''Patch applied successfully.'' @ newline # summary_lines 1 ss), f1)))"

section \<open>The interface on the in-memory file system\<close>

definition memfs_read ::
    "go_time \<Rightarrow> nat \<Rightarrow> fs_handle \<Rightarrow> memfs \<Rightarrow> ((fs_error + string option) \<times> fs_handle \<times> memfs) option" where
  "memfs_read now n h f =
     (case h of
        RegularFile r \<Rightarrow> (case file_read n now r f of (x, r', f') \<Rightarrow> Some (x, RegularFile r', f'))
      | DirFile d \<Rightarrow> Some (Inl FsIsDirectory, h, f)
      | FIFOReader p \<Rightarrow> map_option (\<lambda>(x, f'). (x, h, f')) (fifo_read n p f)
      | FIFOWriter p \<Rightarrow> Some (Inl FsBadFD, h, f)
      | NullDevice \<Rightarrow> Some (Inr None, h, f))"

text \<open>A read always gets room for one byte at least, as \<open>io.ReadAll\<close> grows its buffer when it is full.\<close>

definition memfs_api :: "path_elems \<Rightarrow> go_time \<Rightarrow> (nat \<Rightarrow> nat) \<Rightarrow> 32 word \<Rightarrow> (memfs, fs_handle) file_api" where
  "memfs_api cwd now buf null_mode =
     \<lparr>fa_resolve = (\<lambda>p f. if is_dev_null_path p then Inr p else map_sum id path_string (resolve_path f cwd p)),
      fa_stat = fs_stat, fa_open = fs_open, fa_read = memfs_read now, fa_close = (\<lambda>h f. snd (close_handle h f)),
      fa_mkdir_all = (\<lambda>p m. mkdir_all p m now), fa_write = (\<lambda>p d m. write_file p d m now),
      fa_buffer = (\<lambda>n. max 1 (buf n)), fa_null_mode = null_mode\<rparr>"

end
