(* ===== verification/PatchFilesLaws.thy ===== *)
theory PatchFilesLaws
  imports PatchFiles
begin

text \<open>
  The contract of text files that the \<open>apply_patch\<close> tool relies on, as the locale \<open>text_files\<close>; what the
  tool's operations do, proved once from the contract; and the contract for the in-memory file system.
\<close>

section \<open>The contract\<close>

text \<open>
  \<open>contents\<close> is what a name holds as a regular file; \<open>special\<close> names (the null device, FIFOs) promise
  nothing.
\<close>

locale text_files =
  fixes api :: "('f, 'h) file_api"
    and ok :: "'f \<Rightarrow> bool"
    and contents :: "string \<Rightarrow> 'f \<Rightarrow> string option"
    and special :: "string \<Rightarrow> 'f \<Rightarrow> bool"
  assumes write_law: "\<lbrakk>ok f; \<not> special p f; fa_write api p d m f = (Inr (), f')\<rbrakk> \<Longrightarrow>
        ok f' \<and> contents p f' = Some d \<and>
        (\<forall>q x. contents q f = Some x \<longrightarrow> contents q f' = Some x \<or> contents p f = Some x \<and> contents q f' = Some d)"
    and read_law: "\<lbrakk>ok f; \<not> special p f; read_text_limited api p l f = Some (Inr d, f')\<rbrakk> \<Longrightarrow>
        contents p f = Some d \<and> ok f' \<and> (\<forall>q. special q f' = special q f \<and> contents q f' = contents q f)"
    and mkdir_law: "\<lbrakk>ok f; fa_mkdir_all api p m f = (Inr (), f')\<rbrakk> \<Longrightarrow>
        ok f' \<and> (\<forall>q. special q f' \<longrightarrow> special q f) \<and> (\<forall>q. contents q f' = contents q f)"
    and stat_law: "\<lbrakk>ok f; fa_stat api p f = Inl FsNotExist\<rbrakk> \<Longrightarrow> \<not> special p f \<and> contents p f = None"
begin

text \<open>An add creates the file with its lines and leaves every file that was there alone.\<close>

lemma add_applied:
  assumes "ok f" "apply_add_file_op api p ls f = (Inr s, f')"
  shows "contents p f = None \<and> contents p f' = Some (add_content ls) \<and> ok f' \<and>
    (\<forall>q x. contents q f = Some x \<longrightarrow> contents q f' = Some x)"
proof -
  have st: "fa_stat api p f = Inl FsNotExist"
    using assms(2) by (auto simp: apply_add_file_op_def split: sum.splits if_splits)
  obtain r f1 where mk: "fa_mkdir_all api (path_dir p) 493 f = (r, f1)" by (cases "fa_mkdir_all api (path_dir p) 493 f")
  then have r: "r = Inr ()" using assms(2) st by (cases r) (simp_all add: apply_add_file_op_def)
  obtain w f2 where wr: "fa_write api p (add_content ls) default_patch_perm f1 = (w, f2)"
    by (cases "fa_write api p (add_content ls) default_patch_perm f1")
  then have w: "w = Inr ()" "f2 = f'" using assms(2) st mk r by (cases w; simp add: apply_add_file_op_def)+
  have 1: "\<not> special p f" "contents p f = None" using stat_law [OF assms(1) st] by auto
  have 2: "ok f1" "\<not> special p f1" "contents q f1 = contents q f" for q
    using mkdir_law [OF assms(1)] mk r 1(1) by auto
  have "fa_write api p (add_content ls) default_patch_perm f1 = (Inr (), f')" using wr w by simp
  from write_law [OF 2(1,2) this] 1(2) show ?thesis by (simp add: 2(3))
qed

text \<open>An update replaces the file by the result of its hunks.\<close>

lemma update_applied:
  assumes "ok f" "\<not> special p f" "apply_update_file_op api p hunks f = Some (Inr s, f')"
  shows "\<exists>old new. contents p f = Some old \<and> updated_content old hunks = Some new \<and> contents p f' = Some new \<and> ok f' \<and>
    (\<forall>q x. contents q f = Some x \<longrightarrow> contents q f' = Some x \<or> x = old \<and> contents q f' = Some new)"
proof -
  obtain info where info: "fa_stat api p f = Inr info" "\<not> info_is_dir info"
    using assms(3) by (auto simp: apply_update_file_op_def split: sum.splits if_splits)
  obtain old f1 where old: "read_text_limited api p max_patch_bytes f = Some (Inr old, f1)" "CHR 0x00 \<notin> set old"
    using assms(3) info by (auto simp: apply_update_file_op_def split: option.splits sum.splits if_splits)
  obtain new where new: "updated_content old hunks = Some new"
    using assms(3) info old by (auto simp: apply_update_file_op_def split: option.splits)
  let ?m = "patch_file_perm (case info of None \<Rightarrow> fa_null_mode api | Some i \<Rightarrow> si_mode i)"
  obtain w f2 where wr: "fa_write api p new ?m f1 = (w, f2)" by (cases "fa_write api p new ?m f1")
  then have "w = Inr ()" "f2 = f'"
    using assms(3) info old new by (cases w; simp add: apply_update_file_op_def)+
  with wr have wr': "fa_write api p new ?m f1 = (Inr (), f')" by simp
  note R = read_law [OF assms(1,2) old(1)]
  have "\<not> special p f1" "ok f1" using R assms(2) by auto
  from write_law [OF this(2,1) wr'] R new show ?thesis by auto
qed

end

section \<open>Reading a regular file\<close>

definition same_files :: "memfs \<Rightarrow> memfs \<Rightarrow> bool" where
  "same_files f g \<longleftrightarrow> shape f = shape g \<and> (\<forall>i. nd_data (node_of g i) = nd_data (node_of f i))"

lemma read_all_regular:
  assumes api: "api = memfs_api cwd now buf nm"
  shows "\<lbrakk>hf_readable h; \<not> hf_closed h; hf_offset h \<le> length (nd_data (node_of f (hf_node h)))\<rbrakk> \<Longrightarrow>
    \<exists>h' f'. read_all api left acc (RegularFile h) f =
        Some (Inr (acc @ take (nat left) (drop (hf_offset h) (nd_data (node_of f (hf_node h))))), RegularFile h', f') \<and>
      same_files f f'"
proof (induction "length (nd_data (node_of f (hf_node h))) - hf_offset h" arbitrary: left acc h f rule: less_induct)
  case less
  let ?d = "nd_data (node_of f (hf_node h))"
  let ?f1 = "set_node (hf_node h) (\<lambda>x. x\<lparr>nd_atime := now\<rparr>) f"
  have same: "same_files f ?f1"
    by (simp add: same_files_def shape_set_node node_of_set_node)
  show ?case
  proof (cases "left \<le> 0")
    case True then show ?thesis by (subst read_all.simps) (simp add: same_files_def)
  next
    case left: False
    let ?n = "nat (min (int (max 1 (buf (length acc)))) left)"
    show ?thesis
    proof (cases "length ?d \<le> hf_offset h")
      case True
      have "memfs_read now ?n (RegularFile h) f = Some (Inr None, RegularFile h, ?f1)"
        using less.prems True by (simp add: memfs_read_def file_read_def Let_def)
      then show ?thesis
        using left same less.prems True by (subst read_all.simps) (simp add: api memfs_api_def)
    next
      case False
      let ?b = "take ?n (drop (hf_offset h) ?d)" and ?h = "h\<lparr>hf_offset := hf_offset h + length (take ?n (drop (hf_offset h) ?d))\<rparr>"
      have n: "0 < ?n" using left by simp
      have rd: "memfs_read now ?n (RegularFile h) f = Some (Inr (Some ?b), RegularFile ?h, ?f1)"
        using less.prems False by (simp add: memfs_read_def file_read_def Let_def)
      have d1: "nd_data (node_of ?f1 (hf_node ?h)) = ?d" by (simp add: node_of_set_node)
      have lt: "length (nd_data (node_of ?f1 (hf_node ?h))) - hf_offset ?h < length ?d - hf_offset h"
      proof -
        define k where "k = length ?b"
        have "0 < k" using n False by (simp add: k_def)
        moreover have "hf_offset ?h = hf_offset h + k" by (simp add: k_def)
        ultimately show ?thesis using False d1 by simp
      qed
      obtain h' f' where IH: "read_all api (left - int (length ?b)) (acc @ ?b) (RegularFile ?h) ?f1 =
          Some (Inr ((acc @ ?b) @ take (nat (left - int (length ?b))) (drop (hf_offset ?h) (nd_data (node_of ?f1 (hf_node ?h))))),
                RegularFile h', f')" "same_files ?f1 f'"
      proof -
        have "hf_readable ?h" "\<not> hf_closed ?h" "hf_offset ?h \<le> length (nd_data (node_of ?f1 (hf_node ?h)))"
          using less.prems d1 by simp_all
        from less.hyps [OF lt this, of "left - int (length ?b)" "acc @ ?b"] that show thesis by blast
      qed
      have cat: "?b @ take (nat (left - int (length ?b))) (drop (hf_offset ?h) ?d) = take (nat left) (drop (hf_offset h) ?d)"
      proof -
        let ?x = "drop (hf_offset h) ?d" and ?k = "length (take ?n (drop (hf_offset h) ?d))"
        have gen: "take m xs @ take (nat (left - int (length (take m xs)))) (drop (length (take m xs)) xs) = take (nat left) xs"
          if "int m \<le> left" for m and xs :: string
        proof -
          define k where "k = length (take m xs)"
          have k: "int k \<le> left" "take m xs = take k xs" using that by (auto simp: k_def min_def)
          then have "nat left = k + nat (left - int k)" by simp
          then have "take (nat left) xs = take k xs @ take (nat (left - int k)) (drop k xs)" by (metis take_add)
          with k show ?thesis unfolding k_def [symmetric] by simp
        qed
        have "drop (hf_offset ?h) ?d = drop ?k ?x" by (simp add: add.commute)
        moreover have "int ?n \<le> left" using left by simp
        ultimately show ?thesis using gen [of ?n ?x] by simp
      qed
      have "read_all api left acc (RegularFile h) f = read_all api (left - int (length ?b)) (acc @ ?b) (RegularFile ?h) ?f1"
        using left rd by (subst read_all.simps) (simp add: api memfs_api_def)
      then show ?thesis using IH cat d1 same by (auto simp: same_files_def)
    qed
  qed
qed

section \<open>Trees that only grew directories\<close>

definition grows :: "memfs \<Rightarrow> memfs \<Rightarrow> bool" where
  "grows f g \<longleftrightarrow> extends f g \<and>
     (\<forall>i < mf_next g. \<forall>n c. child_of g i n = Some c \<longrightarrow> mf_next f \<le> c \<or> i < mf_next f \<and> child_of f i n = Some c) \<and>
     (\<forall>c < mf_next g. mf_next f \<le> c \<longrightarrow> nd_kind (node_of g c) = NodeDirectory) \<and>
     (\<forall>i < mf_next f. nd_data (node_of g i) = nd_data (node_of f i))"

lemma growsD:
  assumes "grows f g"
  shows "extends f g"
    and "\<lbrakk>i < mf_next g; child_of g i n = Some c\<rbrakk> \<Longrightarrow> mf_next f \<le> c \<or> i < mf_next f \<and> child_of f i n = Some c"
    and "\<lbrakk>c < mf_next g; mf_next f \<le> c\<rbrakk> \<Longrightarrow> nd_kind (node_of g c) = NodeDirectory"
    and "i < mf_next f \<Longrightarrow> nd_data (node_of g i) = nd_data (node_of f i)"
  using assms by (auto simp: grows_def)

lemma grows_refl [simp]: "fs_ok f \<Longrightarrow> grows f f"
  by (simp add: grows_def)

lemma grows_trans:
  assumes "grows f g" "grows g h"
  shows "grows f h"
proof -
  have n: "mf_next f \<le> mf_next g" "mf_next g \<le> mf_next h"
    using extends_root [OF growsD(1) [OF assms(1)]] extends_root [OF growsD(1) [OF assms(2)]] by auto
  have "mf_next f \<le> c \<or> i < mf_next f \<and> child_of f i m = Some c" if "i < mf_next h" "child_of h i m = Some c" for i m c
    using growsD(2) [OF assms(2) that] growsD(2) [OF assms(1), of i m c] n by auto
  moreover have "nd_kind (node_of h c) = NodeDirectory" if "c < mf_next h" "mf_next f \<le> c" for c
    using that growsD(3) [OF assms(2)] growsD(3) [OF assms(1), of c] extendsD(1) [OF growsD(1) [OF assms(2)], of c]
    by (cases "c < mf_next g") simp_all
  moreover have "nd_data (node_of h i) = nd_data (node_of f i)" if "i < mf_next f" for i
    using growsD(4) [OF assms(1) that] growsD(4) [OF assms(2), of i] that n by simp
  ultimately show ?thesis
    using extends_trans [OF growsD(1) [OF assms(1)] growsD(1) [OF assms(2)]] by (simp add: grows_def)
qed

lemma insert_dir_grows:
  assumes ok: "fs_ok f" and n: "new_node NodeDirectory mode now f = (i, f1)" and p: "child_of f cur p = None"
  shows "grows f (add_child cur p i f1)"
proof -
  note N = new_node_fields [OF n]
  have ch: "child_of f1 j m = (if j = i then None else child_of f j m)" for j m
    using N(1,7,11) by (simp add: child_of_def)
  have "mf_next f \<le> c \<or> j < mf_next f \<and> child_of f j m = Some c"
    if "j < mf_next (add_child cur p i f1)" "child_of (add_child cur p i f1) j m = Some c" for j m c
    using that N(1,2) by (auto simp: child_of_add ch split: if_splits)
  moreover have "nd_kind (node_of (add_child cur p i f1) c) = NodeDirectory"
    if "c < mf_next (add_child cur p i f1)" "mf_next f \<le> c" for c
    using that N(1,2,6) by (cases "c = i") auto
  moreover have "nd_data (node_of (add_child cur p i f1) j) = nd_data (node_of f j)" if "j < mf_next f" for j
    using that N(11) by (simp add: add_child_def node_of_set_node)
  ultimately show ?thesis using insert_extends [OF ok n p] by (simp add: grows_def)
qed

lemma mkdir_parts_grows:
  "\<lbrakk>fs_ok f; cur < mf_next f; nd_kind (node_of f cur) = NodeDirectory; list_all proper_name ps;
    mkdir_parts perm now cur at ps f = (r, f')\<rbrakk> \<Longrightarrow> grows f f'"
proof (induction perm now cur at ps f rule: mkdir_parts.induct)
  case (2 perm now cur at p ps f)
  note ok = 2(4) and cur = 2(5)
  show ?case
  proof (cases "child_of f cur p")
    case None
    obtain i f1 where n: "new_node NodeDirectory (mode_dir OR perm_bits perm) now f = (i, f1)"
      by (cases "new_node NodeDirectory (mode_dir OR perm_bits perm) now f")
    note N = new_node_fields [OF n]
    let ?f2 = "add_child cur p i f1"
    have ok2: "fs_ok ?f2" using insert_node_ok [OF ok n, of f1] 2(5-7) by simp
    have "grows ?f2 f'"
      by (rule 2(1) [OF None n [symmetric] ok2]) (use N(1,2,6) 2(7,8) None n in simp_all)
    with insert_dir_grows [OF ok n None] show ?thesis by (rule grows_trans)
  next
    case (Some c)
    have c: "c < mf_next f" using fs_ok_child [OF ok cur Some] by simp
    have stop: "grows f f'" if "f' = f" using that ok by simp
    show ?thesis
    proof (cases "nd_kind (node_of f c) = NodeSymlink")
      case link: True
      show ?thesis
      proof (cases "resolve_path f at (nd_target (node_of f c))")
        case t: (Inr t)
        show ?thesis
        proof (cases "lookup_path f True t")
          case (Inr x)
          then obtain i at' where l: "lookup_path f True t = Inr (i, at')" by (cases x) auto
          show ?thesis
          proof (cases "nd_kind (node_of f i) = NodeDirectory")
            case d: True
            show ?thesis
              by (rule 2(2) [OF Some link t l refl _ ok lookup_bound [OF ok l] d]) (use d 2(7,8) Some link t l in simp_all)
          qed (use stop 2(8) Some link t l in simp)
        qed (use stop 2(8) Some link t in simp)
      qed (use stop 2(8) Some link in simp)
    next
      case nolink: False
      show ?thesis
      proof (cases "nd_kind (node_of f c) = NodeDirectory")
        case d: True
        show ?thesis by (rule 2(3) [OF Some nolink _ ok c d]) (use d 2(7,8) Some nolink in simp_all)
      qed (use stop 2(8) Some nolink in simp)
    qed
  qed
qed simp

text \<open>A lookup in the grown tree ends where it ended before, or at a new directory.\<close>

lemma walk_new:
  assumes "fs_ok g" "grows f g"
  shows "\<lbrakk>walk g follow links cur at ps = Inr (i, q); mf_next f \<le> cur; cur < mf_next g\<rbrakk> \<Longrightarrow> mf_next f \<le> i"
proof (induction links cur at ps rule: walk_induct [where f = g and follow = follow])
  case (Link n cur at p ps c t)
  then have "mf_next f \<le> c" "c < mf_next g"
    using growsD(2) [OF assms(2) Link(8,2)] fs_ok_child [OF assms(1) Link(8,2)] by auto
  then show ?case using growsD(3) [OF assms(2)] Link(3) by (auto simp: through_link_def)
next
  case (Step links cur at p ps c)
  then have "mf_next f \<le> c" "c < mf_next g"
    using growsD(2) [OF assms(2) Step(7,2)] fs_ok_child [OF assms(1) Step(7,2)] by auto
  then show ?case using Step by (simp add: walk_step)
qed (simp_all add: walk_turn)

lemma walk_grows:
  assumes ok: "fs_ok f" "fs_ok g" and gr: "grows f g"
  shows "\<lbrakk>walk g follow links cur at ps = Inr (i, q); cur < mf_next f\<rbrakk> \<Longrightarrow>
    walk f follow links cur at ps = Inr (i, q) \<or> mf_next f \<le> i"
proof (induction links cur at ps rule: walk_induct [where f = g and follow = follow])
  case (Link n cur at p ps c t)
  note e = growsD(1) [OF gr]
  have lt: "cur < mf_next g" using Link(7) extends_root [OF e] by simp
  have "c < mf_next g" using fs_ok_child [OF ok(2) lt Link(2)] by simp
  then have c: "child_of f cur p = Some c" "c < mf_next f"
    using growsD(2) [OF gr lt Link(2)] growsD(3) [OF gr, of c] Link(3) fs_ok_child [OF ok(1) Link(7)]
    by (auto simp: through_link_def)
  have "walk g follow n root_ino (mf_root g) (drop (length (mf_root g)) t) = Inr (i, q)"
    using Link(1-4,6) by (simp add: walk_link)
  then have "walk f follow n root_ino (mf_root f) (drop (length (mf_root f)) t) = Inr (i, q) \<or> mf_next f \<le> i"
    using Link(5) fs_ok_root [OF ok(1)] extends_root [OF e] by simp
  then show ?case
    using Link(1-4) c extendsD [OF e Link(7)] extends_link [OF e c(2)] extends_through [OF e c(2)]
    by (simp add: walk_link [of f])
next
  case (Step links cur at p ps c)
  note e = growsD(1) [OF gr]
  have lt: "cur < mf_next g" using Step(6) extends_root [OF e] by simp
  have w: "walk g follow links c (at @ [p]) ps = Inr (i, q)" using Step(1-3,5) by (simp add: walk_step)
  show ?case
  proof (cases "mf_next f \<le> c")
    case True
    have "c < mf_next g" using fs_ok_child [OF ok(2) lt Step(2)] by simp
    then show ?thesis using walk_new [OF ok(2) gr w True] by simp
  next
    case False
    then have c: "child_of f cur p = Some c" "c < mf_next f" using growsD(2) [OF gr lt Step(2)] by auto
    then have "walk f follow links c (at @ [p]) ps = Inr (i, q) \<or> mf_next f \<le> i" using Step(4) w by simp
    then show ?thesis
      using Step(1-3) c extendsD [OF e Step(6)] extends_through [OF e c(2)] by (simp add: walk_step [of f])
  qed
qed (auto simp: walk_turn)

lemma lookup_grows:
  assumes "fs_ok f" "fs_ok g" "grows f g" "lookup_path g follow p = Inr (i, q)"
  shows "lookup_path f follow p = Inr (i, q) \<or> mf_next f \<le> i \<and> nd_kind (node_of g i) = NodeDirectory"
  using walk_grows [OF assms(1-3) assms(4) [unfolded lookup_path_def]] fs_ok_root [OF assms(1)]
    extends_root [OF growsD(1) [OF assms(3)]] growsD(3) [OF assms(3) lookup_bound [OF assms(2,4)]]
  by (auto simp: lookup_path_def)

section \<open>The contract on the in-memory file system\<close>

definition file_contents :: "string \<Rightarrow> memfs \<Rightarrow> string option" where
  "file_contents name f =
     (if is_dev_null_path name then None
      else case resolve_path f (mf_root f) name of
        Inl e \<Rightarrow> None
      | Inr p \<Rightarrow>
     (case lookup_path f True p of
        Inl e \<Rightarrow> None
      | Inr (i, q) \<Rightarrow> if nd_kind (node_of f i) = NodeRegular then Some (nd_data (node_of f i)) else None))"

definition special_name :: "string \<Rightarrow> memfs \<Rightarrow> bool" where
  "special_name name f \<longleftrightarrow> is_dev_null_path name \<or> names_fifo name f"

lemma file_contents_Some:
  assumes "file_contents name f = Some d"
  obtains p i q where "\<not> is_dev_null_path name" "resolve_path f (mf_root f) name = Inr p" "lookup_path f True p = Inr (i, q)"
    "nd_kind (node_of f i) = NodeRegular" "nd_data (node_of f i) = d"
  using assms by (auto simp: file_contents_def split: if_splits sum.splits prod.splits)

lemma file_contentsI:
  "\<lbrakk>\<not> is_dev_null_path name; resolve_path f (mf_root f) name = Inr p; lookup_path f True p = Inr (i, q);
    nd_kind (node_of f i) = NodeRegular; nd_data (node_of f i) = d\<rbrakk> \<Longrightarrow> file_contents name f = Some d"
  by (simp add: file_contents_def)

lemma same_files_contents:
  assumes "same_files f g"
  shows "file_contents name g = file_contents name f" "special_name name g = special_name name f" "fs_ok g = fs_ok f"
proof -
  have s: "shape f = shape g" and d: "nd_data (node_of g i) = nd_data (node_of f i)" for i
    using assms by (auto simp: same_files_def)
  show "file_contents name g = file_contents name f" "special_name name g = special_name name f" "fs_ok g = fs_ok f"
    by (simp_all add: file_contents_def special_name_def names_fifo_def d shape_ok [OF s] shape_resolve [OF s]
        shape_lookup [OF s] shape_eqD(1,3) [OF s] split: sum.split)
qed

lemma memfs_write:
  assumes ok: "fs_ok f" and sp: "\<not> special_name name f" and w: "write_file name d m now f = (Inr (), f')"
  shows "fs_ok f' \<and> file_contents name f' = Some d \<and>
    (\<forall>q x. file_contents q f = Some x \<longrightarrow> file_contents q f' = Some x \<or> file_contents name f = Some x \<and> file_contents q f' = Some d)"
proof -
  have nd: "\<not> is_dev_null_path name" "\<not> names_fifo name f" using sp by (auto simp: special_name_def)
  obtain p i q where r: "resolve_path f (mf_root f) name = Inr p" "lookup_path f' True p = Inr (i, q)"
    "nd_kind (node_of f' i) = NodeRegular" "nd_data (node_of f' i) = d" "extends f f'"
    "i < mf_next f \<longrightarrow> lookup_path f True p = Inr (i, q)"
    "\<forall>j. j < mf_next f \<and> j \<noteq> i \<longrightarrow> nd_data (node_of f' j) = nd_data (node_of f j)"
    using write_file_effect [OF ok nd w] by blast
  have res: "resolve_path f' (mf_root f') x = resolve_path f (mf_root f) x" for x
    using extends_resolve [OF r(5)] extends_root [OF r(5)] by simp
  have "file_contents name f' = Some d" by (rule file_contentsI [OF nd(1) _ r(2-4)]) (use res r(1) in simp)
  moreover have "file_contents x f' = Some c \<or> file_contents name f = Some c \<and> file_contents x f' = Some d" if c: "file_contents x f = Some c" for x c
  proof -
    obtain p' j q' where j: "\<not> is_dev_null_path x" "resolve_path f (mf_root f) x = Inr p'" "lookup_path f True p' = Inr (j, q')"
      "nd_kind (node_of f j) = NodeRegular" "nd_data (node_of f j) = c" by (rule file_contents_Some [OF c])
    have lt: "j < mf_next f" by (rule lookup_bound [OF ok j(3)])
    have "file_contents x f' = Some (nd_data (node_of f' j))"
      by (rule file_contentsI [OF j(1) _ lookup_extends [OF ok r(5) j(3)]])
        (use res j(2,4) extendsD(1) [OF r(5) lt] in simp_all)
    moreover have "file_contents name f = Some c" if "j = i"
      by (rule file_contentsI [OF nd(1) r(1)]) (use that r(6) lt j(4,5) in simp_all)
    ultimately show ?thesis using r(4,7) lt j(5) by (cases "j = i") simp_all
  qed
  moreover have "fs_ok f'" using write_file_ok [OF ok, of name d m now] w by simp
  ultimately show ?thesis by blast
qed

lemma memfs_mkdir:
  assumes ok: "fs_ok f" and m: "mkdir_all name perm now f = (Inr (), f')"
  shows "fs_ok f' \<and> (\<forall>q. special_name q f' \<longrightarrow> special_name q f) \<and>
    (\<forall>q. file_contents q f' = file_contents q f)"
proof -
  have ok': "fs_ok f'" using mkdir_all_ok [OF ok, of name perm now] m by simp
  obtain p where r: "resolve_path f (mf_root f) name = Inr p"
    using m by (cases "resolve_path f (mf_root f) name") (simp_all add: mkdir_all_def)
  have "list_all proper_name (drop (length (mf_root f)) p)"
    using names_drop resolve_within [OF r] resolve_proper [OF r] fs_ok_root [OF ok] by blast
  then have gr: "grows f f'"
    using m r fs_ok_root [OF ok] by (intro mkdir_parts_grows [OF ok]) (simp_all add: mkdir_all_def)
  note e = growsD(1) [OF gr]
  have res: "resolve_path f' (mf_root f') x = resolve_path f (mf_root f) x" for x
    using extends_resolve [OF e] extends_root [OF e] by simp
  have "special_name x f" if "special_name x f'" for x
  proof (cases "is_dev_null_path x")
    case False
    then have "names_fifo x f'" using that by (simp add: special_name_def)
    then obtain p i q where p: "resolve_path f (mf_root f) x = Inr p" "lookup_path f' True p = Inr (i, q)"
      "nd_kind (node_of f' i) = NodeFIFO"
      using res by (auto simp: names_fifo_def split: sum.splits)
    then have l: "lookup_path f True p = Inr (i, q)" using lookup_grows [OF ok ok' gr p(2)] by auto
    then have "nd_kind (node_of f i) = NodeFIFO" using p(3) extendsD(1) [OF e lookup_bound [OF ok l]] by simp
    then show ?thesis using p(1) l by (simp add: special_name_def names_fifo_def)
  qed (simp add: special_name_def)
  moreover have "file_contents x f' = Some c" if c: "file_contents x f = Some c" for x c
  proof -
    obtain p' j q' where j: "\<not> is_dev_null_path x" "resolve_path f (mf_root f) x = Inr p'" "lookup_path f True p' = Inr (j, q')"
      "nd_kind (node_of f j) = NodeRegular" "nd_data (node_of f j) = c" by (rule file_contents_Some [OF c])
    have lt: "j < mf_next f" by (rule lookup_bound [OF ok j(3)])
    show ?thesis
      by (rule file_contentsI [OF j(1) _ lookup_extends [OF ok e j(3)]])
        (use res j(2,4,5) extendsD(1) [OF e lt] growsD(4) [OF gr lt] in simp_all)
  qed
  moreover have "file_contents x f = Some c" if c: "file_contents x f' = Some c" for x c
  proof -
    obtain p' j q' where j: "\<not> is_dev_null_path x" "resolve_path f' (mf_root f') x = Inr p'" "lookup_path f' True p' = Inr (j, q')"
      "nd_kind (node_of f' j) = NodeRegular" "nd_data (node_of f' j) = c" by (rule file_contents_Some [OF c])
    have l: "lookup_path f True p' = Inr (j, q')" using lookup_grows [OF ok ok' gr j(3)] j(4) by auto
    have lt: "j < mf_next f" by (rule lookup_bound [OF ok l])
    show ?thesis
      by (rule file_contentsI [OF j(1) _ l]) (use res j(2,4,5) extendsD(1) [OF e lt] growsD(4) [OF gr lt] in simp_all)
  qed
  ultimately show ?thesis using ok' by (metis not_Some_eq)
qed

lemma memfs_read_text:
  assumes ok: "fs_ok f" and sp: "\<not> special_name name f"
    and r: "read_text_limited (memfs_api cwd now buf nm) name l f = Some (Inr d, f')"
  shows "file_contents name f = Some d \<and> same_files f f'"
proof -
  let ?api = "memfs_api cwd now buf nm"
  have nd: "\<not> is_dev_null_path name" "\<not> names_fifo name f" using sp by (auto simp: special_name_def)
  obtain p where p: "resolve_path f (mf_root f) name = Inr p"
    using r nd(1) by (cases "resolve_path f (mf_root f) name") (auto simp: read_text_limited_def memfs_api_def fs_open_def)
  obtain x where "lookup_path f True p = Inr x"
    using r nd(1) p by (cases "lookup_path f True p") (auto simp: read_text_limited_def memfs_api_def fs_open_def)
  then obtain i q where l: "lookup_path f True p = Inr (i, q)" by (cases x) auto
  have sym: "nd_kind (node_of f i) \<noteq> NodeSymlink" by (rule lookup_plain [OF ok l]) simp
  have "nd_kind (node_of f i) \<noteq> NodeDirectory"
  proof
    assume "nd_kind (node_of f i) = NodeDirectory"
    then have o: "fa_open ?api name f = (Inr (DirFile \<lparr>df_path = q, df_node = i, df_entries = None, df_offset = 0, df_closed = False\<rparr>), f)"
      using nd(1) p l by (simp add: memfs_api_def fs_open_def)
    have "read_all ?api (l + 1) [] (DirFile h) f = Some (Inl FsIsDirectory, DirFile h, f)" if "0 < l" for h
      using that by (subst read_all.simps) (simp add: memfs_api_def memfs_read_def)
    then show False using r o by (simp add: read_text_limited_def split: if_splits)
  qed
  then have k: "nd_kind (node_of f i) = NodeRegular"
    using sym nd(2) p l by (cases "nd_kind (node_of f i)") (simp_all add: names_fifo_def)
  define h where "h = \<lparr>hf_path = q, hf_node = i, hf_offset = 0, hf_readable = True, hf_writable = False, hf_append = False,
    hf_closed = False\<rparr>"
  have o: "fa_open ?api name f = (Inr (RegularFile h), f)"
    using nd(1) p l k by (simp add: memfs_api_def fs_open_def h_def)
  obtain h' g where g: "read_all ?api (l + 1) [] (RegularFile h) f =
      Some (Inr (take (nat (l + 1)) (nd_data (node_of f i))), RegularFile h', g)" "same_files f g"
    using read_all_regular [OF refl, of h f cwd now buf nm "l + 1" "[]"] by (auto simp: h_def)
  have "fa_close ?api (RegularFile h') g = g" by (simp add: memfs_api_def close_handle_def)
  then have "l > 0" "f' = g" "d = take (nat (l + 1)) (nd_data (node_of f i))" "int (length d) \<le> l"
    using r o g(1) by (auto simp: read_text_limited_def split: if_splits)
  then have "d = nd_data (node_of f i)" by (simp add: min_def split: if_splits)
  then have "file_contents name f = Some d" using file_contentsI [OF nd(1) p l k] by simp
  with g(2) \<open>f' = g\<close> show ?thesis by simp
qed

lemma memfs_missing:
  assumes "fs_stat name f = Inl FsNotExist"
  shows "\<not> special_name name f \<and> file_contents name f = None"
  using assms
  by (auto simp: fs_stat_def stat_path_def special_name_def names_fifo_def file_contents_def split: if_splits sum.splits)

interpretation memfs_files: text_files "memfs_api cwd now buf nm" fs_ok file_contents special_name for cwd now buf nm
proof unfold_locales
  fix f f' :: memfs and p d :: string and l :: int
  assume a: "fs_ok f" "\<not> special_name p f" "read_text_limited (memfs_api cwd now buf nm) p l f = Some (Inr d, f')"
  have s: "same_files f f'" and c: "file_contents p f = Some d" using memfs_read_text [OF a] by auto
  show "file_contents p f = Some d \<and> fs_ok f' \<and>
    (\<forall>q. special_name q f' = special_name q f \<and> file_contents q f' = file_contents q f)"
    using c a(1) by (simp add: same_files_contents [OF s])
next
  fix f f' :: memfs and p d :: string and m :: "32 word"
  assume a: "fs_ok f" "\<not> special_name p f" "fa_write (memfs_api cwd now buf nm) p d m f = (Inr (), f')"
  have "write_file p d m now f = (Inr (), f')" using a(3) by (simp add: memfs_api_def)
  from memfs_write [OF a(1,2) this]
  show "fs_ok f' \<and> file_contents p f' = Some d \<and>
    (\<forall>q x. file_contents q f = Some x \<longrightarrow> file_contents q f' = Some x \<or> file_contents p f = Some x \<and> file_contents q f' = Some d)" .
next
  fix f f' :: memfs and p :: string and m :: "32 word"
  assume a: "fs_ok f" "fa_mkdir_all (memfs_api cwd now buf nm) p m f = (Inr (), f')"
  have "mkdir_all p m now f = (Inr (), f')" using a(2) by (simp add: memfs_api_def)
  from memfs_mkdir [OF a(1) this]
  show "fs_ok f' \<and> (\<forall>q. special_name q f' \<longrightarrow> special_name q f) \<and>
    (\<forall>q. file_contents q f' = file_contents q f)" .
next
  fix f :: memfs and p :: string
  assume "fa_stat (memfs_api cwd now buf nm) p f = Inl FsNotExist"
  then show "\<not> special_name p f \<and> file_contents p f = None" by (intro memfs_missing) (simp add: memfs_api_def)
qed

end
