(* ===== verification/FileSamples.thy ===== *)
theory FileSamples
  imports PatchFilesLaws
begin

text \<open>
  A small file system, used to evaluate the operations: a directory, a file in it, a link to the
  directory and a link to a file that does not exist yet. Every state is computed by the operations.
\<close>

definition empty_fs :: memfs where "empty_fs = new_memfs [] 1000 1000 0"

definition dir_fs :: memfs where "dir_fs = snd (mkdir_all ''/srv/app'' 493 1 empty_fs)"

definition file_fs :: memfs where "file_fs = snd (write_file ''/srv/app/a.txt'' ''one'' 420 2 dir_fs)"

definition link_fs :: memfs where "link_fs = snd (fs_symlink ''app'' ''/srv/cur'' 3 file_fs)"

definition sample_fs :: memfs where "sample_fs = snd (fs_symlink ''cur/b.txt'' ''/srv/new'' 4 link_fs)"

lemma empty_root: "clean_root ''/'' = Some []"
  by code_simp

lemma sample_fs_reachable: "fs_reachable empty_fs sample_fs"
proof -
  have "fs_step empty_fs dir_fs" unfolding dir_fs_def by (rule fs_step.MkdirAll)
  moreover have "fs_step dir_fs file_fs" unfolding file_fs_def by (rule fs_step.WriteFile)
  moreover have "fs_step file_fs link_fs" unfolding link_fs_def by (rule fs_step.Symlink)
  moreover have "fs_step link_fs sample_fs" unfolding sample_fs_def by (rule fs_step.Symlink)
  ultimately show ?thesis
    unfolding fs_reachable_def by (meson converse_rtranclp_into_rtranclp rtranclp.rtrancl_refl)
qed

lemma sample_fs_ok: "fs_ok sample_fs"
  using reachable_ok [OF sample_fs_reachable] new_memfs_ok [OF empty_root] by (simp add: empty_fs_def)

lemma sample_resolves:
  "eval_symlinks ''/srv/cur/a.txt'' sample_fs = Inr (Some [''srv'', ''app'', ''a.txt''])"
  by code_simp

lemma sample_write: "fst (write_file ''/srv/new'' ''hi'' 420 5 sample_fs) = Inr ()"
  by code_simp

lemma sample_regular: "\<not> names_fifo ''/srv/new'' sample_fs" "\<not> is_dev_null_path ''/srv/new''"
  by code_simp+

lemma sample_mkdir: "fst (mkdir_all ''/srv/cur/x/y'' 493 5 sample_fs) = Inr ()"
  by code_simp

lemma sample_nested:
  "resolve_path sample_fs (mf_root sample_fs) ''/srv/app'' = Inr [''srv'', ''app'']"
  "[''srv'', ''app''] \<noteq> mf_root sample_fs"
  "lookup_path sample_fs False [''srv'', ''app''] = Inr (3, [''srv'', ''app''])"
  "nd_kind (node_of sample_fs 3) = NodeDirectory"
  "resolve_path sample_fs (mf_root sample_fs) ''/srv/app/sub'' = Inr ([''srv'', ''app''] @ [''sub''])"
  "child_of sample_fs 3 ''sub'' = None"
  by code_simp+

text \<open>Patches on the file system, through the link to the directory.\<close>

definition sample_api :: "(memfs, fs_handle) file_api" where
  "sample_api = memfs_api [''srv''] 7 (\<lambda>n. 2) 438"

definition grow_hunk :: patch_hunk where
  "grow_hunk = \<lparr>h_header = [], h_lines = [(CHR '' '', ''one''), (CHR ''+'', ''two'')]\<rparr>"

definition sample_update :: "((file_failure + string) \<times> memfs) option" where
  "sample_update = apply_update_file_op sample_api ''/srv/cur/a.txt'' [grow_hunk] sample_fs"

definition sample_add :: "(file_failure + string) \<times> memfs" where
  "sample_add = apply_add_file_op sample_api ''/srv/cur/doc/n.md'' [''# n''] sample_fs"

lemma sample_ordinary: "\<not> special_name ''/srv/cur/a.txt'' sample_fs"
  by code_simp

lemma sample_update_result: "map_option fst sample_update = Some (Inr ''update|/srv/cur/a.txt'')"
  by code_simp

lemma sample_add_result: "fst sample_add = Inr ''add|/srv/cur/doc/n.md''"
  by code_simp

end
