(* ===== verification/Capture.thy ===== *)
theory Capture
  imports PatchFiles AgentTypes
begin

text \<open>
  Output of tools: the capturing writer (\<open>pkg/agent/capture.go\<close>), the files large outputs are spilled to
  (\<open>pkg/agent/output_spill.go\<close>) and the output a step keeps (\<open>pkg/agent/tool_runtime.go\<close>), over the
  in-memory file system. The compaction of structured output is an argument here.
\<close>

section \<open>Capturing\<close>

record capture_spill =
  cs_path :: string
  cs_mime :: string
  cs_description :: string

record capture_writer =
  cw_limit :: int
  cw_threshold :: int
  cw_spill :: "capture_spill option"
  cw_mirror :: "string option"
  cw_buf :: string
  cw_truncated :: bool
  cw_total :: int
  cw_file :: "fs_handle option"

record capture_snapshot =
  sn_preview :: string
  sn_truncated :: bool
  sn_total :: int
  sn_file :: "file_ref option"

definition new_capture_writer :: "int \<Rightarrow> int \<Rightarrow> capture_spill option \<Rightarrow> bool \<Rightarrow> capture_writer" where
  "new_capture_writer limit threshold spill mirrored =
     \<lparr>cw_limit = limit, cw_threshold = threshold, cw_spill = spill, cw_mirror = (if mirrored then Some [] else None),
      cw_buf = [], cw_truncated = False, cw_total = 0, cw_file = None\<rparr>"

text \<open>\<open>Write\<close> of an open file; the null device takes everything.\<close>

definition handle_write :: "string \<Rightarrow> go_time \<Rightarrow> fs_handle \<Rightarrow> memfs \<Rightarrow> (fs_error + nat) \<times> fs_handle \<times> memfs" where
  "handle_write p now h f =
     (case h of
        RegularFile r \<Rightarrow> (case file_write p now r f of (x, r', f') \<Rightarrow> (x, RegularFile r', f'))
      | FIFOWriter w \<Rightarrow> (case fifo_write p w f of (x, f') \<Rightarrow> (x, h, f'))
      | FIFOReader w \<Rightarrow> (Inl FsBadFD, h, f)
      | DirFile d \<Rightarrow> (Inl FsBadFD, h, f)
      | NullDevice \<Rightarrow> (Inr (length p), h, f))"

text \<open>Spilling happens to a named file only.\<close>

definition spills :: "capture_writer \<Rightarrow> capture_spill option" where
  "spills w = (case cw_spill w of None \<Rightarrow> None | Some sp \<Rightarrow> if cs_path sp = [] then None else Some sp)"

definition open_spill :: "go_time \<Rightarrow> capture_spill \<Rightarrow> capture_writer \<Rightarrow> memfs \<Rightarrow> (fs_error + fs_handle) \<times> capture_writer \<times> memfs" where
  "open_spill now sp w f =
     (case cw_file w of
        Some h \<Rightarrow> (Inr h, w, f)
      | None \<Rightarrow>
     (case mkdir_all (path_dir (cs_path sp)) 493 now f of
        (Inl e, f1) \<Rightarrow> (Inl e, w, f1)
      | (Inr u, f1) \<Rightarrow>
     (case open_file (cs_path sp) write_flags 420 now f1 of
        (Inl e, f2) \<Rightarrow> (Inl e, w, f2)
      | (Inr h, f2) \<Rightarrow> (Inr h, w\<lparr>cw_file := Some h\<rparr>, f2))))"

definition write_spill :: "string \<Rightarrow> go_time \<Rightarrow> capture_writer \<Rightarrow> memfs \<Rightarrow> (fs_error + unit) \<times> capture_writer \<times> memfs" where
  "write_spill p now w f =
     (case spills w of
        None \<Rightarrow> (Inr (), w, f)
      | Some sp \<Rightarrow>
     (case open_spill now sp w f of
        (Inl e, w1, f1) \<Rightarrow> (Inl e, w1, f1)
      | (Inr h, w1, f1) \<Rightarrow>
     (case handle_write p now h f1 of
        (r, h', f2) \<Rightarrow> (map_sum id (\<lambda>_. ()) r, w1\<lparr>cw_file := Some h'\<rparr>, f2))))"

definition keep_preview :: "string \<Rightarrow> capture_writer \<Rightarrow> capture_writer" where
  "keep_preview p w =
     (if cw_limit w \<le> 0 then w\<lparr>cw_buf := cw_buf w @ p\<rparr>
      else if int (length (cw_buf w)) \<ge> cw_limit w then w\<lparr>cw_truncated := True\<rparr>
      else let remaining = nat (cw_limit w) - length (cw_buf w)
           in if length p > remaining then w\<lparr>cw_buf := cw_buf w @ take remaining p, cw_truncated := True\<rparr>
              else w\<lparr>cw_buf := cw_buf w @ p\<rparr>)"

definition capture_write :: "string \<Rightarrow> go_time \<Rightarrow> capture_writer \<Rightarrow> memfs \<Rightarrow> (fs_error + nat) \<times> capture_writer \<times> memfs" where
  "capture_write p now w f =
     (let w0 = w\<lparr>cw_mirror := map_option (\<lambda>m. m @ p) (cw_mirror w)\<rparr>
      in if p = [] then (Inr 0, w0, f)
         else case write_spill p now w0 f of
             (Inl e, w1, f1) \<Rightarrow> (Inl e, w1, f1)
           | (Inr u, w1, f1) \<Rightarrow>
               (Inr (length p), keep_preview p (w1\<lparr>cw_total := cw_total w1 + int (length p)\<rparr>), f1))"

definition finish_spill :: "capture_writer \<Rightarrow> memfs \<Rightarrow> file_ref option \<times> capture_writer \<times> memfs" where
  "finish_spill w f =
     (let f1 = (case cw_file w of None \<Rightarrow> f | Some h \<Rightarrow> snd (close_handle h f)); w1 = w\<lparr>cw_file := None\<rparr>
      in case spills w of
           None \<Rightarrow> (None, w1, f1)
         | Some sp \<Rightarrow>
             if cw_total w = 0 \<or> 0 < cw_threshold w \<and> cw_total w \<le> cw_threshold w
             then (None, w1, snd (remove_all (cs_path sp) f1))
             else (Some \<lparr>f_path = cs_path sp, f_mime = cs_mime sp, f_description = cs_description sp, f_size = cw_total w\<rparr>,
                   w1, f1))"

definition capture_result :: "capture_writer \<Rightarrow> memfs \<Rightarrow> capture_snapshot \<times> capture_writer \<times> memfs" where
  "capture_result w f =
     (case finish_spill w f of
        (ref, w1, f1) \<Rightarrow>
          (\<lparr>sn_preview = cw_buf w, sn_truncated = cw_truncated w, sn_total = cw_total w, sn_file = ref\<rparr>, w1, f1))"

text \<open>A command's output arrives in writes; the first error ends them.\<close>

fun capture_all ::
    "(string \<times> go_time) list \<Rightarrow> capture_writer \<Rightarrow> memfs \<Rightarrow> (fs_error + unit) \<times> capture_writer \<times> memfs" where
  "capture_all [] w f = (Inr (), w, f)"
| "capture_all ((p, now) # ps) w f =
     (case capture_write p now w f of
        (Inl e, w1, f1) \<Rightarrow> (Inl e, w1, f1)
      | (Inr n, w1, f1) \<Rightarrow> capture_all ps w1 f1)"

section \<open>Spill directories\<close>

text \<open>\<open>filepath.Join\<close> of a clean absolute path and more elements.\<close>

definition path_join :: "string \<Rightarrow> string \<Rightarrow> string" where
  "path_join dir p = path_string (join_path (join_path [] dir) p)"

definition server_run_id_key :: string where "server_run_id_key = ''server_run_id''"

definition output_spill_base_dir :: "memfs \<Rightarrow> string" where
  "output_spill_base_dir f =
     (let temp = trim_space (path_string (temp_dir f));
          root = (if temp \<noteq> [] then temp else path_join (path_string (mf_root f)) ''.tmp'')
      in path_join root ''tool-outputs'')"

definition sweep_stale_output_spill_dirs :: "unit fs_op" where
  "sweep_stale_output_spill_dirs f = remove_all (output_spill_base_dir f) f"

text \<open>The bytes a \<open>range\<close> over a string consumes for one rune; an invalid byte stands for one.\<close>

definition cont_byte :: "nat \<Rightarrow> nat \<Rightarrow> string \<Rightarrow> nat \<Rightarrow> bool" where
  "cont_byte lo hi s i \<longleftrightarrow> i < length s \<and> lo \<le> of_char (s ! i) \<and> of_char (s ! i) \<le> hi"

definition rune_width :: "string \<Rightarrow> nat" where
  "rune_width s =
     (let b = (of_char (hd s) :: nat); tail = cont_byte 0x80 0xBF s
      in if 0xC2 \<le> b \<and> b \<le> 0xDF \<and> tail 1 then 2
         else if (b = 0xE0 \<and> cont_byte 0xA0 0xBF s 1 \<or> b = 0xED \<and> cont_byte 0x80 0x9F s 1 \<or>
                  0xE1 \<le> b \<and> b \<le> 0xEF \<and> b \<noteq> 0xED \<and> tail 1) \<and> tail 2 then 3
         else if (b = 0xF0 \<and> cont_byte 0x90 0xBF s 1 \<or> b = 0xF4 \<and> cont_byte 0x80 0x8F s 1 \<or>
                  0xF1 \<le> b \<and> b \<le> 0xF3 \<and> tail 1) \<and> tail 2 \<and> tail 3 then 4
         else 1)"

definition char_between :: "char \<Rightarrow> char \<times> char \<Rightarrow> bool" where
  "char_between c r \<longleftrightarrow> fst r \<le> c \<and> c \<le> snd r"

definition spill_char :: "char \<Rightarrow> bool" where
  "spill_char c \<longleftrightarrow>
     list_ex (char_between c) [(CHR ''a'', CHR ''z''), (CHR ''A'', CHR ''Z''), (CHR ''0'', CHR ''9'')] \<or> c \<in> set ''-_.''"

function sanitize_runes :: "string \<Rightarrow> string" where
  "sanitize_runes [] = []"
| "sanitize_runes (c # cs) =
     (if spill_char c then c # sanitize_runes cs
      else CHR ''-'' # sanitize_runes (drop (rune_width (c # cs) - 1) cs))"
  by pat_completeness auto
termination by (relation "measure length") auto

definition sanitize_spill_path_segment :: "string \<Rightarrow> string" where
  "sanitize_spill_path_segment s = trim_set ''-'' (sanitize_runes (trim_space s))"

text \<open>\<open>sprint\<close> is \<open>fmt.Sprint\<close> of a metadata value.\<close>

definition derive_run_output_id :: "(gval \<Rightarrow> string) \<Rightarrow> go_time \<Rightarrow> trigger \<Rightarrow> string" where
  "derive_run_output_id sprint now tg =
     (let server_id = (case tg_metadata tg of
                         None \<Rightarrow> []
                       | Some md \<Rightarrow> (case md server_run_id_key of
                                      None \<Rightarrow> []
                                    | Some raw \<Rightarrow> sanitize_spill_path_segment (sprint raw)));
          id = sanitize_spill_path_segment (tg_id tg)
      in if server_id \<noteq> [] then server_id
         else if id \<noteq> [] then id @ ''-'' @ int_str now
         else ''run-'' @ int_str now)"

record spill_state =
  sp_base :: string
  sp_run :: string
  sp_threshold :: int
  sp_max_output :: int

datatype spill_error =
    SpillNotInitialized
  | SpillFs fs_error

text \<open>A run starts with an empty directory of its own; the result is the directory to go back to.\<close>

definition begin_run_spill_dir ::
    "(gval \<Rightarrow> string) \<Rightarrow> go_time \<Rightarrow> trigger \<Rightarrow> spill_state \<Rightarrow> memfs \<Rightarrow> (spill_error + string) \<times> spill_state \<times> memfs" where
  "begin_run_spill_dir sprint now tg sp f =
     (let run_dir = path_join (sp_base sp) (derive_run_output_id sprint now tg)
      in case remove_all run_dir f of
           (Inl e, f1) \<Rightarrow> (Inl (SpillFs e), sp, f1)
         | (Inr u, f1) \<Rightarrow>
        (case mkdir_all run_dir 493 now f1 of
           (Inl e, f2) \<Rightarrow> (Inl (SpillFs e), sp, f2)
         | (Inr u, f2) \<Rightarrow> (Inr (sp_run sp), sp\<lparr>sp_run := run_dir\<rparr>, f2)))"

definition clear_spill_base_dir :: "spill_state \<Rightarrow> memfs \<Rightarrow> (spill_error + unit) \<times> spill_state \<times> memfs" where
  "clear_spill_base_dir sp f =
     (if trim_space (sp_base sp) = [] then (Inr (), sp\<lparr>sp_run := []\<rparr>, f)
      else case remove_all (sp_base sp) f of
        (Inl e, f1) \<Rightarrow> (Inl (SpillFs e), sp, f1)
      | (Inr u, f1) \<Rightarrow> (Inr (), sp\<lparr>sp_run := []\<rparr>, f1))"

definition step_spill_file ::
    "int \<Rightarrow> string \<Rightarrow> string \<Rightarrow> string \<Rightarrow> go_time \<Rightarrow> spill_state \<Rightarrow> memfs \<Rightarrow> (spill_error + string \<times> file_ref) \<times> memfs" where
  "step_spill_file i name mime desc now sp f =
     (if trim_space (sp_run sp) = [] then (Inl SpillNotInitialized, f)
      else let dir = path_join (sp_run sp) (''step_'' @ int_str i)
           in case mkdir_all dir 493 now f of
                (Inl e, f1) \<Rightarrow> (Inl (SpillFs e), f1)
              | (Inr u, f1) \<Rightarrow>
                  (let p = path_join dir name
                   in (Inr (p, \<lparr>f_path = p, f_mime = trim_space mime, f_description = trim_space desc, f_size = 0\<rparr>), f1)))"

definition write_step_spill_file ::
    "int \<Rightarrow> string \<Rightarrow> string \<Rightarrow> string \<Rightarrow> string \<Rightarrow> go_time \<Rightarrow> spill_state \<Rightarrow> memfs \<Rightarrow> (spill_error + file_ref) \<times> memfs" where
  "write_step_spill_file i name mime desc d now sp f =
     (case step_spill_file i name mime desc now sp f of
        (Inl e, f1) \<Rightarrow> (Inl e, f1)
      | (Inr (p, ref), f1) \<Rightarrow>
     (case write_file p d 420 now f1 of
        (Inl e, f2) \<Rightarrow> (Inl (SpillFs e), f2)
      | (Inr u, f2) \<Rightarrow> (Inr (ref\<lparr>f_size := int (length d)\<rparr>), f2)))"

definition output_file_threshold :: "spill_state \<Rightarrow> int" where
  "output_file_threshold sp = (if 0 < sp_threshold sp then sp_threshold sp else sp_max_output sp)"

section \<open>The output a step keeps\<close>

definition default_max_output_bytes :: int where "default_max_output_bytes = 65536"
definition default_json_stub_bytes :: int where "default_json_stub_bytes = 8192"

definition truncate_text :: "string \<Rightarrow> int \<Rightarrow> string \<times> bool" where
  "truncate_text text limit =
     (if limit \<le> 0 \<or> int (length text) \<le> limit then (text, False) else (take (nat limit) text, True))"

text \<open>What \<open>CompactStructuredJSONOutput\<close> gives for a budget and the reference of the full output.\<close>

record compaction =
  cp_output :: string
  cp_files :: "file_ref list"
  cp_compacted :: bool

type_synonym compactor = "int \<Rightarrow> file_ref option \<Rightarrow> string \<Rightarrow> string + compaction option"

fun normalize_refs :: "string set \<Rightarrow> file_ref list \<Rightarrow> file_ref list" where
  "normalize_refs seen [] = []"
| "normalize_refs seen (r # rs) =
     (let p = trim_space (f_path r)
      in if p = [] \<or> p \<in> seen then normalize_refs seen rs
         else \<lparr>f_path = p, f_mime = trim_space (f_mime r), f_description = trim_space (f_description r), f_size = f_size r\<rparr> #
              normalize_refs (insert p seen) rs)"

definition normalize_file_references :: "file_ref list \<Rightarrow> file_ref list" where
  "normalize_file_references rs = normalize_refs {} rs"

definition fallback_preview :: "file_ref \<Rightarrow> int \<Rightarrow> int \<Rightarrow> string" where
  "fallback_preview ref original limit =
     fst (truncate_text
       (''Structured JSON output was spilled to '' @ trim_space (f_path ref) @ '' ('' @ int_str original @
        '' bytes). Read the file for the full payload.'') (max 1 limit))"

definition output_limit :: "spill_state \<Rightarrow> int" where
  "output_limit sp = (if sp_max_output sp \<le> 0 then default_max_output_bytes else sp_max_output sp)"

text \<open>The error of a failed call is its text.\<close>

definition apply_structured ::
    "compactor \<Rightarrow> (spill_error \<Rightarrow> string) \<Rightarrow> go_time \<Rightarrow> spill_state \<Rightarrow> string \<Rightarrow> agent_step \<Rightarrow> memfs \<Rightarrow>
     (string + bool) \<times> agent_step \<times> memfs" where
  "apply_structured stub show_error now sp out st f =
     (let limit = output_limit sp; budget = max 1 (min limit default_json_stub_bytes)
      in if int (length out) \<le> limit then (Inr False, st, f)
         else case stub budget None out of
             Inl e \<Rightarrow> (Inl e, st, f)
           | Inr None \<Rightarrow> (Inr False, st, f)
           | Inr (Some probe) \<Rightarrow>
          (case write_step_spill_file (st_index st) ''full_output.json'' ''application/json'' ''Full structured tool output''
                  out now sp f of
             (Inl e, f1) \<Rightarrow> (Inl (show_error e), st, f1)
           | (Inr ref, f1) \<Rightarrow>
          (case stub budget (Some ref) out of
             Inl e \<Rightarrow> (Inl e, st, f1)
           | Inr again \<Rightarrow>
               let c = (case again of None \<Rightarrow> \<lparr>cp_output = [], cp_files = [], cp_compacted = False\<rparr> | Some c \<Rightarrow> c)
               in if int (length (cp_output c)) > limit
                  then (Inr True, st\<lparr>st_output := fallback_preview ref (st_output_bytes st) limit, st_output_truncated := True,
                          st_output_files := normalize_file_references (cp_files probe @ [ref]), st_output_compacted := False\<rparr>, f1)
                  else (Inr True, st\<lparr>st_output := cp_output c, st_output_truncated := cp_compacted c,
                          st_output_files := (if cp_files c = [] then cp_files probe else cp_files c),
                          st_output_compacted := cp_compacted c\<rparr>, f1))))"

definition keep_text :: "int \<Rightarrow> string \<Rightarrow> agent_step \<Rightarrow> agent_step" where
  "keep_text limit out st =
     st\<lparr>st_output := fst (truncate_text out (max 1 limit)), st_output_truncated := snd (truncate_text out (max 1 limit))\<rparr>"

definition fail_output :: "int \<Rightarrow> string \<Rightarrow> string \<Rightarrow> agent_step \<Rightarrow> agent_step" where
  "fail_output limit out err st = (keep_text limit out st)\<lparr>st_status := StepFatalError, st_error := err\<rparr>"

definition set_tool_output ::
    "compactor \<Rightarrow> (spill_error \<Rightarrow> string) \<Rightarrow> go_time \<Rightarrow> spill_state \<Rightarrow> string \<Rightarrow> agent_step \<Rightarrow> memfs \<Rightarrow> agent_step \<times> memfs" where
  "set_tool_output stub show_error now sp out st f =
     (let limit = output_limit sp;
          st0 = st\<lparr>st_output_bytes := int (length out), st_output_files := [], st_output_compacted := False\<rparr>
      in case apply_structured stub show_error now sp out st0 f of
           (Inl e, st1, f1) \<Rightarrow> (fail_output limit out e st1, f1)
         | (Inr applied, st1, f1) \<Rightarrow>
             if applied then (st1, f1)
             else if 0 < output_file_threshold sp \<and> int (length out) > output_file_threshold sp
             then (case write_step_spill_file (st_index st1) ''action_output.txt'' ''text/plain'' ''Full tool output'' out now sp f1 of
                     (Inl e, f2) \<Rightarrow> (fail_output limit out (show_error e) st1, f2)
                   | (Inr ref, f2) \<Rightarrow> (keep_text limit out (st1\<lparr>st_output_files := [ref]\<rparr>), f2))
             else (keep_text limit out st1, f1))"

end
