(* ===== verification/Compaction.thy ===== *)
theory Compaction
  imports Capture
begin

text \<open>
  Compaction of structured output (\<open>pkg/tools/common/output_compaction.go\<close>): a JSON value that is too large is
  replaced by a stub of it. Decoding JSON is an argument; objects come with their fields sorted by key and no key
  twice, which is how the code goes through a map and how maps are encoded.
\<close>

section \<open>JSON values\<close>

text \<open>Numbers keep their text, as with \<open>UseNumber\<close>. A struct is an object whose fields have the order of the type.\<close>

datatype jval =
    JNull
  | JBool bool
  | JNum string
  | JStr string
  | JList "jval list"
  | JObj "(string \<times> jval) list"

type_synonym fields = "(string \<times> jval) list"

fun jput :: "string \<Rightarrow> jval \<Rightarrow> fields \<Rightarrow> fields" where
  "jput k v [] = [(k, v)]"
| "jput k v ((k', v') # fs) =
     (if k = k' then (k, v) # fs else if k < k' then (k, v) # (k', v') # fs else (k', v') # jput k v fs)"

definition jint :: "nat \<Rightarrow> jval" where
  "jint n = JNum (nat_str n)"

fun is_scalar :: "jval \<Rightarrow> bool" where
  "is_scalar (JList vs) = False"
| "is_scalar (JObj fs) = False"
| "is_scalar v = True"

subsection \<open>Encoding\<close>

definition hex_char :: "nat \<Rightarrow> char" where
  "hex_char n = (if n < 10 then char_of (48 + n) else char_of (87 + n))"

definition escape_byte :: "char \<Rightarrow> string" where
  "escape_byte c =
     (let n = of_char c :: nat
      in if c = CHR 0x22 \<or> c = CHR 0x5C then [CHR 0x5C, c]
         else if n = 8 then [CHR 0x5C, CHR ''b''] else if n = 12 then [CHR 0x5C, CHR ''f'']
         else if n = 10 then [CHR 0x5C, CHR ''n''] else if n = 13 then [CHR 0x5C, CHR ''r'']
         else if n = 9 then [CHR 0x5C, CHR ''t'']
         else if n < 32 then [CHR 0x5C] @ ''u00'' @ [hex_char (n div 16), hex_char (n mod 16)]
         else [c])"

text \<open>Bytes that are no UTF-8 and the two line separators of Unicode are escaped.\<close>

function escape_string :: "string \<Rightarrow> string" where
  "escape_string [] = []"
| "escape_string (c # cs) =
     (let s = c # cs; w = rune_width s
      in if w = 1 \<and> (of_char c :: nat) < 128 then escape_byte c @ escape_string cs
         else if w = 1 then [CHR 0x5C] @ ''ufffd'' @ escape_string cs
         else if take 3 s = [CHR 0xE2, CHR 0x80, CHR 0xA8] then [CHR 0x5C] @ ''u2028'' @ escape_string (drop (w - 1) cs)
         else if take 3 s = [CHR 0xE2, CHR 0x80, CHR 0xA9] then [CHR 0x5C] @ ''u2029'' @ escape_string (drop (w - 1) cs)
         else take w s @ escape_string (drop (w - 1) cs))"
  by pat_completeness auto
termination by (relation "measure length") auto

definition json_string :: "string \<Rightarrow> string" where
  "json_string s = CHR 0x22 # escape_string s @ [CHR 0x22]"

fun jval_text :: "jval \<Rightarrow> string" where
  "jval_text JNull = ''null''"
| "jval_text (JBool b) = (if b then ''true'' else ''false'')"
| "jval_text (JNum n) = n"
| "jval_text (JStr s) = json_string s"
| "jval_text (JList vs) = CHR ''['' # join_char (CHR '','') (map jval_text vs) @ '']''"
| "jval_text (JObj fs) = CHR ''{'' # join_char (CHR '','') (map (\<lambda>(k, v). json_string k @ '':'' @ jval_text v) fs) @ ''}''"

definition file_value :: "file_ref \<Rightarrow> jval" where
  "file_value r =
     JObj ([(''path'', JStr (f_path r))] @
           (if f_mime r = [] then [] else [(''mime_type'', JStr (f_mime r))]) @
           (if f_description r = [] then [] else [(''description'', JStr (f_description r))]) @
           (if f_size r = 0 then [] else [(''size_bytes'', JNum (int_str (f_size r)))]))"

section \<open>Scalars\<close>

text \<open>The first runes of a text; a byte that is none becomes the replacement character.\<close>

fun take_runes :: "nat \<Rightarrow> string \<Rightarrow> string" where
  "take_runes 0 s = []"
| "take_runes (Suc n) s =
     (if s = [] then []
      else let w = rune_width s
           in (if w = 1 \<and> 128 \<le> (of_char (hd s) :: nat) then [CHR 0xEF, CHR 0xBF, CHR 0xBD] else take w s) @
              take_runes n (drop w s))"

function count_runes :: "string \<Rightarrow> nat" where
  "count_runes [] = 0"
| "count_runes (c # cs) = Suc (count_runes (drop (rune_width (c # cs) - 1) cs))"
  by pat_completeness auto
termination by (relation "measure length") auto

definition stub_preview_items :: nat where "stub_preview_items = 3"
definition stub_max_depth :: nat where "stub_max_depth = 2"
definition stub_preview_runes :: nat where "stub_preview_runes = 384"

definition truncate_preview :: "string \<Rightarrow> nat \<Rightarrow> string" where
  "truncate_preview s n =
     (if n = 0 then []
      else if count_runes s \<le> n then s
      else if n \<le> 1 then take_runes n s
      else take_runes (n - 1) s @ [CHR 0xE2, CHR 0x80, CHR 0xA6])"

definition compact_scalar :: "jval \<Rightarrow> jval" where
  "compact_scalar v = (case v of JStr s \<Rightarrow> JStr (truncate_preview (trim_space s) stub_preview_runes) | _ \<Rightarrow> v)"

definition join_json_path :: "string \<Rightarrow> string \<Rightarrow> string" where
  "join_json_path parent key =
     (let k = trim_space key in if parent = [] then k else if k = [] then parent else parent @ ''.'' @ k)"

section \<open>Previews\<close>

text \<open>The size of the values of the fields, which shrinks as the walk descends.\<close>

definition fields_size :: "fields \<Rightarrow> nat" where
  "fields_size fs = size_list (\<lambda>p. size (snd p)) fs"

lemma fields_size_le:
  "3 * fields_size fs < 4 + 3 * size_list (size_prod (\<lambda>x. 0) size) fs"
  "3 * fields_size fs < 5 + 3 * size_list (size_prod (\<lambda>x. 0) size) fs"
proof -
  have "fields_size fs \<le> size_list (size_prod (\<lambda>x. 0) size) fs"
    by (induction fs) (auto simp: fields_size_def)
  then show "3 * fields_size fs < 4 + 3 * size_list (size_prod (\<lambda>x. 0) size) fs"
    "3 * fields_size fs < 5 + 3 * size_list (size_prod (\<lambda>x. 0) size) fs" by linarith+
qed

text \<open>
  \<open>compactField\<close> puts a field into the object under construction and tells the paths it leaves out;
  \<open>compact_fields\<close> is the loop over the fields of an object, \<open>leaf_fields\<close> the one of \<open>compactLeafObject\<close> and
  \<open>preview_list\<close> the one of \<open>previewArray\<close>, with the number of items it may still take.
\<close>

function (sequential)
  compact_field :: "bool \<Rightarrow> string \<Rightarrow> jval \<Rightarrow> nat \<Rightarrow> string \<Rightarrow> bool \<Rightarrow> fields \<Rightarrow> fields \<times> string list"
and compact_fields :: "bool \<Rightarrow> fields \<Rightarrow> nat \<Rightarrow> string \<Rightarrow> fields \<Rightarrow> fields \<times> string list"
and leaf_fields :: "bool \<Rightarrow> fields \<Rightarrow> fields \<Rightarrow> fields"
and preview_value :: "bool \<Rightarrow> nat \<Rightarrow> jval \<Rightarrow> jval"
and preview_list :: "bool \<Rightarrow> nat \<Rightarrow> nat \<Rightarrow> jval list \<Rightarrow> jval list" where
  "compact_field pv key (JList vs) depth p known out =
     (let n = jint (length vs); items = JList (preview_list pv depth stub_preview_items vs)
      in if pv \<and> length vs \<le> stub_preview_items \<and> depth < stub_max_depth then (jput key items out, [])
         else if known \<and> key = ''warnings''
         then (jput (key @ ''_count'') n (jput key (if pv then items else JList []) out), [p])
         else let out' = jput (key @ ''_count'') n out
              in (if pv \<and> vs \<noteq> [] then jput (key @ ''_preview'') items out' else out', [p]))"
| "compact_field pv key (JObj fs) depth p known out =
     (if stub_max_depth \<le> depth then (jput key (JObj (leaf_fields pv fs [])) out, [p])
      else case compact_fields pv fs (depth + 1) p [] of (child, om) \<Rightarrow> (jput key (JObj child) out, om))"
| "compact_field pv key v depth p known out = (jput key (compact_scalar v) out, [])"
| "compact_fields pv [] depth p out = (out, [])"
| "compact_fields pv ((k, v) # fs) depth p out =
     (case compact_field pv k v depth (join_json_path p k) False out of
        (out', om) \<Rightarrow> (case compact_fields pv fs depth p out' of (out'', om') \<Rightarrow> (out'', om @ om')))"
| "leaf_fields pv [] out = out"
| "leaf_fields pv ((k, v) # fs) out =
     leaf_fields pv fs
       (case v of
          JList vs \<Rightarrow>
            (let out' = jput (k @ ''_count'') (jint (length vs)) out
             in if pv \<and> vs \<noteq> [] then jput (k @ ''_preview'') (JList (preview_list pv stub_max_depth stub_preview_items vs)) out' else out')
        | JObj gs \<Rightarrow> jput k (JObj [(''field_count'', jint (length gs)), (''truncated'', JBool True)]) out
        | _ \<Rightarrow> jput k (compact_scalar v) out)"
| "preview_value pv depth (JList vs) =
     (let n = (''count'', jint (length vs))
      in if stub_max_depth \<le> depth \<or> \<not> pv then JObj [n]
         else if length vs \<le> stub_preview_items then JList (preview_list pv depth stub_preview_items vs)
         else JObj [n, (''preview'', JList (preview_list pv depth stub_preview_items vs))])"
| "preview_value pv depth (JObj fs) =
     (if stub_max_depth \<le> depth then JObj (leaf_fields pv fs []) else JObj (fst (compact_fields pv fs depth [] [])))"
| "preview_value pv depth v = compact_scalar v"
| "preview_list pv depth n [] = []"
| "preview_list pv depth n (v # vs) =
     (if n = 0 then [] else preview_value pv (depth + 1) v # preview_list pv depth (n - 1) vs)"
  by pat_completeness auto

termination
  by (relation "measure (\<lambda>x. case x of
      Inl (Inl (pv, key, v, depth, p, known, out)) \<Rightarrow> 3 * size v + 2
    | Inl (Inr (pv, fs, depth, p, out)) \<Rightarrow> 3 * fields_size fs
    | Inr (Inl (pv, fs, out)) \<Rightarrow> 3 * fields_size fs
    | Inr (Inr (Inl (pv, depth, v))) \<Rightarrow> 3 * size v + 1
    | Inr (Inr (Inr (pv, depth, n, vs))) \<Rightarrow> 3 * size_list size vs)")
    (simp_all add: fields_size_le, simp_all add: fields_size_def)

section \<open>Stubs\<close>

text \<open>All files of the output, those the stub names, and the size of the output.\<close>

record stub_context =
  sc_all :: "file_ref list"
  sc_stub :: "file_ref list"
  sc_bytes :: nat

definition normalize_omitted :: "string list \<Rightarrow> string list" where
  "normalize_omitted ps = sort (remdups (filter (\<lambda>p. p \<noteq> []) (map trim_space ps)))"

definition stub_metadata :: "nat \<Rightarrow> string list \<Rightarrow> jval" where
  "stub_metadata bytes omitted =
     JObj [(''compacted'', JBool True), (''kind'', JStr ''json_stub_v1''),
           (''omitted_fields'', JList (map JStr (normalize_omitted omitted))), (''original_bytes'', jint bytes)]"

definition put_files :: "stub_context \<Rightarrow> fields \<Rightarrow> fields" where
  "put_files ctx out =
     (if sc_stub ctx = [] then out
      else let out' = jput ''files'' (JList (map file_value (sc_stub ctx))) out
           in if length (sc_all ctx) > length (sc_stub ctx) then jput ''files_count'' (jint (length (sc_all ctx))) out' else out')"

definition files_left_out :: "stub_context \<Rightarrow> bool" where
  "files_left_out ctx \<longleftrightarrow> sc_stub ctx \<noteq> [] \<and> length (sc_all ctx) > length (sc_stub ctx)"

definition looks_like_tool_envelope :: "fields \<Rightarrow> bool" where
  "looks_like_tool_envelope fs \<longleftrightarrow>
     map_of fs ''tool'' \<noteq> None \<and> map_of fs ''action'' \<noteq> None \<and> map_of fs ''ok'' \<noteq> None"

definition envelope_keys :: "string list" where
  "envelope_keys =
     [''tool'', ''action'', ''ok'', ''status'', ''error'', ''warnings'', ''page_info'', ''next_cursor'', ''next_offset'',
      ''returned_count'', ''truncated'']"

text \<open>The loops of \<open>compactKnownEnvelope\<close> over its keys and over the others.\<close>

fun envelope_fields :: "bool \<Rightarrow> fields \<Rightarrow> string list \<Rightarrow> fields \<Rightarrow> fields \<times> string list" where
  "envelope_fields pv fs [] out = (out, [])"
| "envelope_fields pv fs (k # ks) out =
     (case map_of fs k of
        None \<Rightarrow> envelope_fields pv fs ks out
      | Some v \<Rightarrow>
          (case compact_field pv k v 0 (''summary.'' @ k) True out of
             (out', om) \<Rightarrow> (case envelope_fields pv fs ks out' of (out'', om') \<Rightarrow> (out'', om @ om'))))"

fun other_fields :: "bool \<Rightarrow> fields \<Rightarrow> fields \<Rightarrow> fields \<times> string list" where
  "other_fields pv [] out = (out, [])"
| "other_fields pv ((k, v) # fs) out =
     (if k = ''data'' \<or> k = ''files'' \<or> map_of out k \<noteq> None then other_fields pv fs out
      else case compact_field pv k v 0 k True out of
        (out', om) \<Rightarrow> (case other_fields pv fs out' of (out'', om') \<Rightarrow> (out'', om @ om')))"

definition compact_known_envelope :: "bool \<Rightarrow> stub_context \<Rightarrow> fields \<Rightarrow> fields" where
  "compact_known_envelope pv ctx fs =
     (case envelope_fields pv fs envelope_keys [] of
        (out1, om1) \<Rightarrow>
     (let out2 = put_files ctx out1; om2 = om1 @ (if files_left_out ctx then [''files''] else [])
      in case (case map_of fs ''data'' of None \<Rightarrow> (out2, []) | Some v \<Rightarrow> compact_field pv ''data'' v 0 ''data'' True out2) of
        (out3, om3) \<Rightarrow>
     (case other_fields pv fs out3 of
        (out4, om4) \<Rightarrow> jput ''_meta'' (stub_metadata (sc_bytes ctx) (om2 @ om3 @ om4)) out4)))"

definition compact_generic_object :: "bool \<Rightarrow> stub_context \<Rightarrow> fields \<Rightarrow> fields" where
  "compact_generic_object pv ctx fs =
     (case compact_fields pv (filter (\<lambda>f. fst f \<noteq> ''files'') fs) 0 [] [(''truncated'', JBool True)] of
        (out, om) \<Rightarrow>
          jput ''_meta'' (stub_metadata (sc_bytes ctx) (om @ (if files_left_out ctx then [''files''] else [])))
            (put_files ctx out))"

definition compact_top_array :: "bool \<Rightarrow> stub_context \<Rightarrow> jval list \<Rightarrow> fields" where
  "compact_top_array pv ctx vs =
     (let out = [(''items_count'', jint (length vs)), (''truncated'', JBool True)];
          out' = (if pv \<and> vs \<noteq> [] then jput ''items_preview'' (JList (preview_list pv 0 stub_preview_items vs)) out else out)
      in jput ''_meta'' (stub_metadata (sc_bytes ctx) [''items'']) (put_files ctx out'))"

definition compact_top_scalar :: "stub_context \<Rightarrow> jval \<Rightarrow> fields" where
  "compact_top_scalar ctx v =
     put_files ctx (jput ''_meta'' (stub_metadata (sc_bytes ctx) [''value''])
       [(''truncated'', JBool True), (''value_preview'', compact_scalar v)])"

definition build_json_stub :: "bool \<Rightarrow> stub_context \<Rightarrow> jval \<Rightarrow> jval" where
  "build_json_stub pv ctx v =
     JObj (case v of
             JObj fs \<Rightarrow> if looks_like_tool_envelope fs then compact_known_envelope pv ctx fs else compact_generic_object pv ctx fs
           | JList vs \<Rightarrow> compact_top_array pv ctx vs
           | _ \<Rightarrow> compact_top_scalar ctx v)"

subsection \<open>The smallest stub\<close>

fun collection_counts :: "fields \<Rightarrow> fields \<Rightarrow> fields" where
  "collection_counts [] out = out"
| "collection_counts ((k, v) # fs) out =
     collection_counts fs (case v of JList vs \<Rightarrow> jput (k @ ''_count'') (jint (length vs)) out | _ \<Rightarrow> out)"

fun summary_fields :: "fields \<Rightarrow> string list \<Rightarrow> fields \<Rightarrow> fields" where
  "summary_fields fs [] out = out"
| "summary_fields fs (k # ks) out =
     summary_fields fs ks (case map_of fs k of None \<Rightarrow> out | Some v \<Rightarrow> jput k (compact_scalar v) out)"

definition type_name :: "jval \<Rightarrow> string" where
  "type_name v =
     (case v of JNull \<Rightarrow> ''<nil>'' | JBool b \<Rightarrow> ''bool'' | JNum n \<Rightarrow> ''json.Number'' | JStr s \<Rightarrow> ''string''
      | JList vs \<Rightarrow> ''[]interface {}'' | JObj fs \<Rightarrow> ''map[string]interface {}'')"

definition minimal_summary :: "jval \<Rightarrow> fields" where
  "minimal_summary v =
     (case v of
        JObj fs \<Rightarrow>
          (let s1 = summary_fields fs [''tool'', ''action'', ''ok'', ''status'', ''next_cursor'', ''next_offset''] [];
               s2 = (if map_of fs ''warnings'' \<noteq> None then jput ''warnings_present'' (JBool True) s1 else s1);
               s3 = (case map_of fs ''data'' of
                       Some (JList vs) \<Rightarrow> jput ''items_count'' (jint (length vs)) s2
                     | Some (JObj gs) \<Rightarrow> collection_counts gs s2
                     | _ \<Rightarrow> s2)
           in if s3 = [] then [(''field_count'', jint (length fs))] else s3)
      | JList vs \<Rightarrow> [(''items_count'', jint (length vs))]
      | _ \<Rightarrow> [(''type'', JStr (type_name v))])"

definition build_minimal_stub :: "stub_context \<Rightarrow> jval \<Rightarrow> jval" where
  "build_minimal_stub ctx v =
     JObj (put_files ctx
       (jput ''_meta'' (stub_metadata (sc_bytes ctx) [])
          [(''summary'', JObj (minimal_summary v)), (''truncated'', JBool True)]))"

section \<open>Compaction\<close>

text \<open>The files an output names; \<open>int64\<close> reads the text of a number.\<close>

definition text_field :: "fields \<Rightarrow> string \<Rightarrow> string" where
  "text_field fs k = (case map_of fs k of Some (JStr s) \<Rightarrow> trim_space s | _ \<Rightarrow> [])"

fun listed_files :: "(string \<Rightarrow> int option) \<Rightarrow> jval list \<Rightarrow> file_ref list" where
  "listed_files int64 [] = []"
| "listed_files int64 (v # vs) =
     (case v of
        JObj fs \<Rightarrow>
          (if text_field fs ''path'' = [] then listed_files int64 vs
           else \<lparr>f_path = text_field fs ''path'', f_mime = text_field fs ''mime_type'', f_description = text_field fs ''description'',
                  f_size = (case map_of fs ''size_bytes'' of
                              Some (JNum n) \<Rightarrow> (case int64 n of None \<Rightarrow> 0 | Some i \<Rightarrow> i)
                            | _ \<Rightarrow> 0)\<rparr> # listed_files int64 vs)
      | _ \<Rightarrow> listed_files int64 vs)"

definition top_level_files :: "(string \<Rightarrow> int option) \<Rightarrow> jval \<Rightarrow> file_ref list" where
  "top_level_files int64 v =
     (case v of
        JObj fs \<Rightarrow> (case map_of fs ''files'' of Some (JList vs) \<Rightarrow> normalize_file_references (listed_files int64 vs) | _ \<Rightarrow> [])
      | _ \<Rightarrow> [])"

definition stub_files :: "file_ref list \<Rightarrow> file_ref option \<Rightarrow> file_ref list" where
  "stub_files files full =
     (let fs = normalize_file_references files; p = (case full of None \<Rightarrow> [] | Some r \<Rightarrow> trim_space (f_path r));
          limit = (if p = [] then stub_preview_items else stub_preview_items - 1);
          preview = take limit (filter (\<lambda>r. \<not> (p \<noteq> [] \<and> f_path r = p)) fs)
      in if length fs \<le> stub_preview_items then fs
         else normalize_file_references (preview @ (case full of None \<Rightarrow> [] | Some r \<Rightarrow> if p = [] then [] else [r])))"

definition stub_candidates :: "stub_context \<Rightarrow> file_ref option \<Rightarrow> jval \<Rightarrow> (jval \<times> file_ref list) list" where
  "stub_candidates ctx full v =
     [(build_json_stub True ctx v, sc_stub ctx), (build_json_stub False ctx v, sc_stub ctx), (build_minimal_stub ctx v, sc_stub ctx)] @
     (case full of None \<Rightarrow> [] | Some r \<Rightarrow> [(build_minimal_stub (ctx\<lparr>sc_stub := [r]\<rparr>) v, [r])])"

text \<open>The first candidate within the budget, otherwise the last.\<close>

fun pick_candidate :: "int \<Rightarrow> (jval \<times> file_ref list) list \<Rightarrow> string \<times> file_ref list \<Rightarrow> string \<times> file_ref list" where
  "pick_candidate budget [] chosen = chosen"
| "pick_candidate budget ((v, rs) # cs) chosen =
     (if int (length (jval_text v)) \<le> budget then (jval_text v, rs) else pick_candidate budget cs (jval_text v, rs))"

definition compact_structured ::
    "(string \<Rightarrow> jval option) \<Rightarrow> (string \<Rightarrow> int option) \<Rightarrow> compactor" where
  "compact_structured decode int64 budget full output =
     (let raw = trim_space output; limit = (if budget \<le> 0 then default_json_stub_bytes else budget)
      in if raw = [] then Inr None
         else case decode raw of
           None \<Rightarrow> Inr None
         | Some v \<Rightarrow>
             (let all = normalize_file_references (top_level_files int64 v @ (case full of None \<Rightarrow> [] | Some r \<Rightarrow> [r]));
                  ctx = \<lparr>sc_all = all, sc_stub = stub_files all full, sc_bytes = length raw\<rparr>;
                  chosen = pick_candidate limit (stub_candidates ctx full v) ([], sc_stub ctx)
              in Inr (Some \<lparr>cp_output = fst chosen, cp_files = snd chosen, cp_compacted = (fst chosen \<noteq> raw)\<rparr>)))"

end
