(* ===== verification/CaptureLaws.thy ===== *)
theory CaptureLaws
  imports Capture PatchFilesLaws
begin

text \<open>
  What a captured output keeps does not depend on how it was cut into writes; a spilled file holds the
  whole output; the output of a step is bounded; where the spill directory of a run lies.
\<close>

section \<open>The preview\<close>

text \<open>The preview of a whole output.\<close>

definition preview :: "int \<Rightarrow> string \<Rightarrow> string" where
  "preview limit out = (if limit \<le> 0 then out else take (nat limit) out)"

definition preview_cut :: "int \<Rightarrow> string \<Rightarrow> bool" where
  "preview_cut limit out \<longleftrightarrow> 0 < limit \<and> limit < int (length out)"

definition holds_output :: "string \<Rightarrow> capture_writer \<Rightarrow> bool" where
  "holds_output out w \<longleftrightarrow>
     cw_buf w = preview (cw_limit w) out \<and> cw_truncated w = preview_cut (cw_limit w) out \<and> cw_total w = int (length out)"

lemma keep_preview_holds:
  assumes "cw_buf w = preview (cw_limit w) out" "cw_truncated w = preview_cut (cw_limit w) out" "p \<noteq> []"
  shows "cw_buf (keep_preview p w) = preview (cw_limit w) (out @ p)"
    and "cw_truncated (keep_preview p w) = preview_cut (cw_limit w) (out @ p)"
proof -
  have p: "0 < length p" using assms(3) by simp
  show "cw_buf (keep_preview p w) = preview (cw_limit w) (out @ p)"
    using assms(1) by (auto simp: keep_preview_def preview_def Let_def)
  show "cw_truncated (keep_preview p w) = preview_cut (cw_limit w) (out @ p)"
    using assms(1,2) p by (auto simp: keep_preview_def preview_def preview_cut_def Let_def min_def split: if_splits)
qed

lemma keep_preview_fields [simp]:
  "cw_limit (keep_preview p w) = cw_limit w" "cw_total (keep_preview p w) = cw_total w"
  "cw_spill (keep_preview p w) = cw_spill w" "cw_threshold (keep_preview p w) = cw_threshold w"
  "cw_file (keep_preview p w) = cw_file w" "cw_mirror (keep_preview p w) = cw_mirror w"
  by (simp_all add: keep_preview_def Let_def)

text \<open>Spilling touches only the file of the writer.\<close>

lemma open_spill_fields:
  "open_spill now sp w f = (r, w1, f1) \<Longrightarrow> \<exists>h. w1 = w\<lparr>cw_file := h\<rparr>"
  by (auto simp: open_spill_def split: option.splits sum.splits prod.splits)
    (metis capture_writer.surjective capture_writer.update_convs(8))+

lemma write_spill_fields:
  assumes "write_spill p now w f = (r, w1, f1)"
  shows "\<exists>h. w1 = w\<lparr>cw_file := h\<rparr>"
proof (cases "spills w")
  case None
  then have "w1 = w\<lparr>cw_file := cw_file w\<rparr>" using assms by (simp add: write_spill_def)
  then show ?thesis by blast
next
  case (Some sp)
  obtain r' w' f' where o: "open_spill now sp w f = (r', w', f')" by (cases "open_spill now sp w f")
  obtain h where h: "w' = w\<lparr>cw_file := h\<rparr>" using open_spill_fields [OF o] by blast
  show ?thesis using assms Some o h by (auto simp: write_spill_def split: sum.splits prod.splits)
qed

lemma capture_write_holds:
  assumes h: "holds_output out w" and c: "capture_write p now w f = (Inr n, w1, f1)"
  shows "holds_output (out @ p) w1 \<and> cw_limit w1 = cw_limit w \<and> cw_threshold w1 = cw_threshold w \<and> cw_spill w1 = cw_spill w \<and>
    cw_mirror w1 = map_option (\<lambda>m. m @ p) (cw_mirror w)"
proof (cases "p = []")
  case True then show ?thesis using h c by (auto simp: capture_write_def holds_output_def)
next
  case False
  let ?w0 = "w\<lparr>cw_mirror := map_option (\<lambda>m. m @ p) (cw_mirror w)\<rparr>"
  obtain r w' f' where ws: "write_spill p now ?w0 f = (r, w', f')" by (cases "write_spill p now ?w0 f")
  then obtain x where x: "w' = ?w0\<lparr>cw_file := x\<rparr>" using write_spill_fields by blast
  let ?w2 = "w'\<lparr>cw_total := cw_total w' + int (length p)\<rparr>"
  have w1: "w1 = keep_preview p ?w2" using c ws False by (auto simp: capture_write_def split: sum.splits)
  have "cw_buf ?w2 = preview (cw_limit ?w2) out" "cw_truncated ?w2 = preview_cut (cw_limit ?w2) out"
    using h x by (simp_all add: holds_output_def)
  from keep_preview_holds [OF this False] show ?thesis using h x w1 by (simp add: holds_output_def)
qed

lemma capture_all_holds:
  "\<lbrakk>holds_output out w; capture_all ps w f = (Inr (), w1, f1)\<rbrakk> \<Longrightarrow>
     holds_output (out @ concat (map fst ps)) w1 \<and> cw_limit w1 = cw_limit w \<and> cw_threshold w1 = cw_threshold w \<and>
     cw_spill w1 = cw_spill w \<and> cw_mirror w1 = map_option (\<lambda>m. m @ concat (map fst ps)) (cw_mirror w)"
proof (induction ps w f arbitrary: out rule: capture_all.induct)
  case (1 w f) then show ?case by (simp add: option.map_ident)
next
  case (2 p now ps w f)
  obtain r w' f' where c: "capture_write p now w f = (r, w', f')" by (cases "capture_write p now w f")
  then obtain n where n: "r = Inr n" using 2(3) by (cases r) simp_all
  note S = capture_write_holds [OF 2(2) c [unfolded n]]
  have "capture_all ps w' f' = (Inr (), w1, f1)" using 2(3) c n by simp
  with 2(1) [OF c [symmetric] n refl, of "out @ p"] S show ?case by (auto simp: option.map_comp comp_def)
qed

lemma new_writer_holds: "holds_output [] (new_capture_writer limit threshold spill mirrored)"
  by (simp add: holds_output_def new_capture_writer_def preview_def preview_cut_def)

section \<open>The spilled file\<close>

text \<open>While output is written, the open file and the name hold everything written so far.\<close>

definition spill_holds :: "string \<Rightarrow> string \<Rightarrow> capture_writer \<Rightarrow> memfs \<Rightarrow> bool" where
  "spill_holds name out w f \<longleftrightarrow> fs_ok f \<and>
     (case cw_file w of
        None \<Rightarrow> out = [] \<and> \<not> special_name name f
      | Some h \<Rightarrow>
          (\<exists>r p q. h = RegularFile r \<and> hf_writable r \<and> \<not> hf_append r \<and> \<not> hf_closed r \<and> hf_offset r = length out \<and>
             \<not> is_dev_null_path name \<and> resolve_path f (mf_root f) name = Inr p \<and> lookup_path f True p = Inr (hf_node r, q) \<and>
             nd_kind (node_of f (hf_node r)) = NodeRegular \<and> nd_data (node_of f (hf_node r)) = out))"

lemma spill_holds_contents:
  "\<lbrakk>spill_holds name out w f; cw_file w = Some h\<rbrakk> \<Longrightarrow> file_contents name f = Some out"
  by (auto simp: spill_holds_def intro: file_contentsI)

lemma write_at_end: "write_at (length d) p d = d @ p"
  by (simp add: write_at_def)

lemma handle_write_holds:
  assumes s: "spill_holds name out w f" and h: "cw_file w = Some h" and w: "handle_write p now h f = (r, h', f')"
  shows "r = Inr (length p) \<and> spill_holds name (out @ p) (w\<lparr>cw_file := Some h'\<rparr>) f'"
proof -
  obtain rf pa q where rf: "h = RegularFile rf" "hf_writable rf" "\<not> hf_append rf" "\<not> hf_closed rf" "hf_offset rf = length out"
    "\<not> is_dev_null_path name" "resolve_path f (mf_root f) name = Inr pa" "lookup_path f True pa = Inr (hf_node rf, q)"
    "nd_kind (node_of f (hf_node rf)) = NodeRegular" "nd_data (node_of f (hf_node rf)) = out" and ok: "fs_ok f"
    using s h by (auto simp: spill_holds_def)
  let ?f = "set_node (hf_node rf) (\<lambda>x. x\<lparr>nd_data := out @ p, nd_atime := now, nd_mtime := now\<rparr>) f"
  have fw: "file_write p now rf f = (Inr (length p), rf\<lparr>hf_offset := length out + length p\<rparr>, ?f)"
    using rf(2-5,10) write_at_end [of out p] by (simp add: file_write_def)
  have sh: "shape ?f = shape f" by (rule shape_set_node) simp_all
  have e: "r = Inr (length p)" "h' = RegularFile (rf\<lparr>hf_offset := length out + length p\<rparr>)" "f' = ?f"
    using w fw rf(1) by (simp_all add: handle_write_def)
  have "fs_ok ?f" using ok by (simp add: touch_ok)
  moreover have "resolve_path ?f (mf_root ?f) name = Inr pa" using rf(7) shape_resolve [OF sh] by simp
  moreover have "lookup_path ?f True pa = Inr (hf_node rf, q)" using rf(8) shape_lookup [OF sh] by simp
  ultimately show ?thesis using e rf(2-6,9) by (auto simp: spill_holds_def node_of_set_node)
qed

lemma open_spill_holds:
  assumes s: "spill_holds name out w f" and sp: "cs_path sp = name" and o: "open_spill now sp w f = (Inr h, w1, f1)"
  shows "cw_file w1 = Some h \<and> spill_holds name out w1 f1"
proof (cases "cw_file w")
  case (Some x) then show ?thesis using s o by (simp add: open_spill_def)
next
  case None
  then have ok: "fs_ok f" "out = []" "\<not> special_name name f" using s by (simp_all add: spill_holds_def)
  obtain r g where m: "mkdir_all (path_dir name) 493 now f = (r, g)" by (cases "mkdir_all (path_dir name) 493 now f")
  then have r: "r = Inr ()" using o None sp by (cases r) (simp_all add: open_spill_def)
  note M = memfs_mkdir [OF ok(1) m [unfolded r]]
  have g: "fs_ok g" "\<not> special_name name g" using M ok(3) by auto
  then have n: "\<not> is_dev_null_path name" "\<not> names_fifo name g" by (auto simp: special_name_def)
  have of: "open_file name write_flags 420 now g = (Inr h, f1)" "w1 = w\<lparr>cw_file := Some h\<rparr>"
    using o None sp m r by (auto simp: open_spill_def split: sum.splits prod.splits)
  obtain p where p: "resolve_path g (mf_root g) name = Inr p"
    using of(1) n(1) by (cases "resolve_path g (mf_root g) name") (simp_all add: open_file_def)
  obtain rf q where rf: "h = RegularFile rf" "lookup_path f1 True p = Inr (hf_node rf, q)" "fresh_handle f1 rf" "extends g f1"
    using open_file_found [OF g(1) n(1) p n(2) of(1)] by metis
  have "fs_ok f1" using open_file_ok [OF g(1), of name write_flags 420 now] of(1) by simp
  moreover have "resolve_path f1 (mf_root f1) name = Inr p" using p extends_resolve [OF rf(4)] extends_root [OF rf(4)] by simp
  ultimately show ?thesis using of(2) rf(1-3) n(1) ok(2) by (auto simp: spill_holds_def fresh_handle_def)
qed

lemma write_spill_holds:
  assumes s: "spill_holds name out w f" and sp: "spills w = Some sp" "cs_path sp = name"
    and o: "write_spill p now w f = (Inr u, w1, f1)"
  shows "cw_file w1 \<noteq> None \<and> spill_holds name (out @ p) w1 f1"
proof -
  obtain r w' f' where os: "open_spill now sp w f = (r, w', f')" by (cases "open_spill now sp w f")
  then obtain h where h: "r = Inr h" using o sp by (cases r) (simp_all add: write_spill_def)
  note O = open_spill_holds [OF s sp(2) os [unfolded h]]
  obtain x h' f2 where hw: "handle_write p now h f' = (x, h', f2)" by (cases "handle_write p now h f'")
  have "spill_holds name (out @ p) (w'\<lparr>cw_file := Some h'\<rparr>) f2" using handle_write_holds O hw by blast
  moreover have "w1 = w'\<lparr>cw_file := Some h'\<rparr>" "f1 = f2" using o sp os h hw by (auto simp: write_spill_def)
  ultimately show ?thesis by simp
qed

lemma spill_holds_cong: "cw_file w = cw_file w' \<Longrightarrow> spill_holds name out w f = spill_holds name out w' f"
  by (simp add: spill_holds_def)

lemma capture_write_spills:
  assumes s: "spill_holds name out w f" and sp: "spills w = Some sp" "cs_path sp = name"
    and c: "capture_write p now w f = (Inr n, w1, f1)"
  shows "spill_holds name (out @ p) w1 f1 \<and> (p = [] \<longrightarrow> cw_file w1 = cw_file w) \<and> (p \<noteq> [] \<longrightarrow> cw_file w1 \<noteq> None)"
proof (cases "p = []")
  case True
  then have "w1 = w\<lparr>cw_mirror := map_option (\<lambda>m. m @ p) (cw_mirror w)\<rparr>" "f1 = f" using c by (auto simp: capture_write_def)
  then show ?thesis using s True spill_holds_cong [of w1 w] by simp
next
  case False
  let ?w0 = "w\<lparr>cw_mirror := map_option (\<lambda>m. m @ p) (cw_mirror w)\<rparr>"
  obtain r w' f' where ws: "write_spill p now ?w0 f = (r, w', f')" by (cases "write_spill p now ?w0 f")
  then obtain u where u: "r = Inr u" using c False by (cases r) (simp_all add: capture_write_def)
  have "spill_holds name out ?w0 f" using s spill_holds_cong [of ?w0 w] by simp
  moreover have "spills ?w0 = Some sp" using sp(1) by (simp add: spills_def)
  ultimately have "cw_file w' \<noteq> None \<and> spill_holds name (out @ p) w' f'" using write_spill_holds ws u sp(2) by blast
  moreover have "cw_file w1 = cw_file w'" "f1 = f'" using c False ws u by (auto simp: capture_write_def)
  ultimately show ?thesis using False spill_holds_cong [of w1 w'] by simp
qed

lemma capture_all_spills:
  "\<lbrakk>holds_output out w; spill_holds name out w f; spills w = Some sp; cs_path sp = name; capture_all ps w f = (Inr (), w1, f1);
    out \<noteq> [] \<longrightarrow> cw_file w \<noteq> None\<rbrakk> \<Longrightarrow>
     spill_holds name (out @ concat (map fst ps)) w1 f1 \<and> spills w1 = Some sp \<and>
     (out @ concat (map fst ps) \<noteq> [] \<longrightarrow> cw_file w1 \<noteq> None)"
proof (induction ps w f arbitrary: out rule: capture_all.induct)
  case (2 p now ps w f)
  obtain r w' f' where c: "capture_write p now w f = (r, w', f')" by (cases "capture_write p now w f")
  then obtain n where n: "r = Inr n" using 2(6) by (cases r) simp_all
  note H = capture_write_holds [OF 2(2) c [unfolded n]] and S = capture_write_spills [OF 2(3-5) c [unfolded n]]
  have "capture_all ps w' f' = (Inr (), w1, f1)" using 2(6) c n by simp
  moreover have "spills w' = Some sp" using H 2(4) by (simp add: spills_def)
  moreover have "out @ p \<noteq> [] \<longrightarrow> cw_file w' \<noteq> None" using S 2(7) by auto
  ultimately show ?case using 2(1) [OF c [symmetric] n refl, of "out @ p"] H S 2(5) by simp
qed auto

text \<open>A captured output and the reference its snapshot gives.\<close>

lemma capture_spilled:
  assumes ok: "fs_ok f" "\<not> special_name (cs_path sp) f" "cs_path sp \<noteq> []"
    and c: "capture_all ps (new_capture_writer limit threshold (Some sp) mirrored) f = (Inr (), w, f1)"
    and s: "capture_result w f1 = (sn, w2, f2)"
  shows "(case sn_file sn of
            None \<Rightarrow> concat (map fst ps) = [] \<or> 0 < threshold \<and> int (length (concat (map fst ps))) \<le> threshold
          | Some ref \<Rightarrow> f_path ref = cs_path sp \<and> f_size ref = int (length (concat (map fst ps))) \<and>
                        file_contents (cs_path sp) f2 = Some (concat (map fst ps)))"
proof -
  let ?out = "concat (map fst ps)" and ?w = "new_capture_writer limit threshold (Some sp) mirrored"
  have sp: "spills ?w = Some sp" using ok(3) by (simp add: spills_def new_capture_writer_def)
  have "spill_holds (cs_path sp) [] ?w f" using ok by (simp add: spill_holds_def new_capture_writer_def)
  from capture_all_spills [OF new_writer_holds this sp refl c]
  have S: "spill_holds (cs_path sp) ?out w f1" "spills w = Some sp" "?out \<noteq> [] \<longrightarrow> cw_file w \<noteq> None" by auto
  have H: "cw_total w = int (length ?out)" "cw_threshold w = threshold"
    using capture_all_holds [OF new_writer_holds c] by (auto simp: holds_output_def new_capture_writer_def)
  show ?thesis
  proof (cases "cw_total w = 0 \<or> 0 < cw_threshold w \<and> cw_total w \<le> cw_threshold w")
    case True
    then have "sn_file sn = None" using s S(2) by (auto simp: capture_result_def finish_spill_def Let_def)
    then show ?thesis using True H by simp
  next
    case False
    then have "?out \<noteq> []" using H by simp
    then obtain h where h: "cw_file w = Some h" using S(3) by blast
    then obtain rf where "h = RegularFile rf" using S(1) by (auto simp: spill_holds_def)
    then have cl: "snd (close_handle h f1) = f1" by (simp add: close_handle_def)
    have "sn_file sn = Some \<lparr>f_path = cs_path sp, f_mime = cs_mime sp, f_description = cs_description sp, f_size = cw_total w\<rparr>"
      "f2 = f1" using False s S(2) h cl by (auto simp: capture_result_def finish_spill_def Let_def)
    then show ?thesis using H spill_holds_contents [OF S(1) h] by simp
  qed
qed

text \<open>The snapshot of an output, as a function of the whole output.\<close>

definition snapshot_of :: "int \<Rightarrow> int \<Rightarrow> capture_spill option \<Rightarrow> string \<Rightarrow> capture_snapshot" where
  "snapshot_of limit threshold spill out =
     \<lparr>sn_preview = preview limit out, sn_truncated = preview_cut limit out, sn_total = int (length out),
      sn_file =
        (case spill of
           None \<Rightarrow> None
         | Some sp \<Rightarrow>
             if cs_path sp = [] \<or> out = [] \<or> 0 < threshold \<and> int (length out) \<le> threshold then None
             else Some \<lparr>f_path = cs_path sp, f_mime = cs_mime sp, f_description = cs_description sp, f_size = int (length out)\<rparr>)\<rparr>"

lemma capture_snapshot_of:
  assumes c: "capture_all ps (new_capture_writer limit threshold spill mirrored) f = (Inr (), w, f1)"
  shows "fst (capture_result w f1) = snapshot_of limit threshold spill (concat (map fst ps))"
    and "cw_mirror w = (if mirrored then Some (concat (map fst ps)) else None)"
proof -
  note H = capture_all_holds [OF new_writer_holds c]
  have w: "cw_buf w = preview limit (concat (map fst ps))" "cw_truncated w = preview_cut limit (concat (map fst ps))"
    "cw_total w = int (length (concat (map fst ps)))" "cw_threshold w = threshold" "cw_spill w = spill"
    using H by (auto simp: holds_output_def new_capture_writer_def)
  show "fst (capture_result w f1) = snapshot_of limit threshold spill (concat (map fst ps))"
    by (auto simp: capture_result_def finish_spill_def spills_def snapshot_of_def w Let_def split: option.splits)
  show "cw_mirror w = (if mirrored then Some (concat (map fst ps)) else None)"
    using H by (simp add: new_capture_writer_def)
qed

section \<open>The output of a step\<close>

lemma truncate_bound: "0 < limit \<Longrightarrow> int (length (fst (truncate_text s limit))) \<le> limit"
  by (simp add: truncate_text_def)

lemma output_limit_pos: "0 < output_limit sp"
  by (simp add: output_limit_def default_max_output_bytes_def)

lemma fallback_bound: "0 < limit \<Longrightarrow> int (length (fallback_preview ref n limit)) \<le> limit"
  using truncate_bound [of "max 1 limit"] by (simp add: fallback_preview_def max_def)

lemma keep_text_bound: "int (length (st_output (keep_text (output_limit sp) out st))) \<le> output_limit sp"
  using truncate_bound [of "max 1 (output_limit sp)"] output_limit_pos [of sp] by (simp add: keep_text_def max_def)

lemma apply_structured_bound:
  assumes "apply_structured stub show_error now sp out st f = (Inr True, st1, f1)"
  shows "int (length (st_output st1)) \<le> output_limit sp"
  using assms fallback_bound [OF output_limit_pos] output_limit_pos [of sp]
  by (auto simp: apply_structured_def Let_def split: sum.splits option.splits prod.splits if_splits)

lemma set_tool_output_bound:
  "int (length (st_output (fst (set_tool_output stub show_error now sp out st f)))) \<le> output_limit sp"
  using apply_structured_bound keep_text_bound
  by (auto simp: set_tool_output_def fail_output_def Let_def split: sum.split prod.split)

section \<open>The spill directory of a run\<close>

lemma parse_path_string:
  assumes "list_all proper_name q"
  shows "join_path [] (path_string q) = q"
proof (cases q)
  case Nil then show ?thesis by (simp add: path_string_def join_path_def)
next
  case (Cons x xs)
  have "split_char slash (join_char slash q) = q"
    using assms Cons by (intro split_join) (auto simp: list_all_iff proper_name_def)
  then show ?thesis using assms by (simp add: path_string_def join_path_def clean_from_names)
qed

lemma resolve_path_string:
  "\<lbrakk>list_all proper_name q; prefix (mf_root f) q\<rbrakk> \<Longrightarrow> resolve_path f d (path_string q) = Inr q"
  using parse_path_string [of q]
  by (auto simp: resolve_path_def path_string_def is_rooted_path_def slash_def Let_def)

lemma tmp_proper: "proper_name ''.tmp''" "proper_name ''tool-outputs''"
  by (simp_all add: proper_name_def slash_def)

lemma temp_dir_elems: "temp_dir f = mf_root f @ [''.tmp'']"
  by (simp add: temp_dir_def join_path_def slash_def)

lemma last_join_char: "\<lbrakk>ps \<noteq> []; last ps \<noteq> []\<rbrakk> \<Longrightarrow> last (join_char c ps) = last (last ps)"
proof (induction c ps rule: join_char.induct)
  case (3 c l l2 ls)
  have "join_char c (l2 # ls) \<noteq> []" using 3(3) by (cases ls) (auto split: if_splits)
  then show ?case using 3 by simp
qed simp_all

lemma trim_temp_dir: "trim_space (path_string (temp_dir f)) = path_string (temp_dir f)"
proof (rule trim_space_visible)
  have "join_char slash (mf_root f @ [''.tmp'']) \<noteq> []" by (cases "mf_root f") (simp_all, cases "tl (mf_root f)", simp_all)
  then have "last (path_string (temp_dir f)) = CHR ''p''"
    using last_join_char [of "mf_root f @ [''.tmp'']" slash] by (simp add: path_string_def temp_dir_elems)
  then show "visible (last (path_string (temp_dir f)))" by (simp add: visible_def go_spaces_def)
  show "visible (hd (path_string (temp_dir f)))" by (simp add: path_string_def slash_def visible_def go_spaces_def)
qed (simp add: path_string_def)

lemma base_dir:
  assumes "fs_ok f"
  shows "output_spill_base_dir f = path_string (temp_dir f @ [''tool-outputs''])"
proof -
  have p: "list_all proper_name (temp_dir f)" using fs_ok_root [OF assms] tmp_proper by (simp add: temp_dir_elems)
  have ne: "path_string (temp_dir f) \<noteq> []" by (simp add: path_string_def)
  have "join_path (temp_dir f) ''tool-outputs'' = temp_dir f @ [''tool-outputs'']" by (simp add: join_path_def slash_def)
  then show ?thesis using ne parse_path_string [OF p] by (simp add: output_spill_base_dir_def trim_temp_dir path_join_def)
qed

lemma dotdot_dir:
  assumes "fs_ok f"
  shows "path_join (output_spill_base_dir f) ''..'' = path_string (temp_dir f)"
proof -
  have p: "list_all proper_name (temp_dir f @ [''tool-outputs''])"
    using fs_ok_root [OF assms] tmp_proper by (simp add: temp_dir_elems)
  have "join_path (temp_dir f @ [''tool-outputs'']) ''..'' = temp_dir f" by (simp add: join_path_def slash_def)
  then show ?thesis using parse_path_string [OF p] by (simp add: base_dir [OF assms] path_join_def)
qed

text \<open>A sanitized segment is one path element, unless it is a dot name.\<close>

lemma sanitize_runes_plain: "slash \<notin> set (sanitize_runes s)"
  by (induction s rule: sanitize_runes.induct) (auto simp: spill_char_def char_between_def slash_def)

lemma sanitize_plain: "slash \<notin> set (sanitize_spill_path_segment s)"
proof -
  have "set (trim_set cs x) \<subseteq> set x" for cs x by (auto simp: trim_set_def dest!: set_dropWhileD)
  then show ?thesis using sanitize_runes_plain unfolding sanitize_spill_path_segment_def by blast
qed

lemma digits_plain: "slash \<notin> set (nat_str n)"
proof (induction n rule: nat_str.induct)
  case (1 n)
  have d: "digit_char m \<noteq> slash" if "m < 10" for m
  proof
    assume "digit_char m = slash"
    then have "of_char (digit_char m) = (of_char slash :: nat)" by simp
    then show False using that by (simp add: digit_char_def slash_def)
  qed
  show ?case
  proof (cases "n < 10")
    case True then show ?thesis using d [of n] by (auto simp: nat_str_small)
  next
    case False then show ?thesis using 1 [OF False] d [of "n mod 10"] by (auto simp: nat_str_step)
  qed
qed

lemma int_str_plain: "slash \<notin> set (int_str i)"
  using digits_plain by (simp add: int_str_def slash_def)

lemma derived_id_plain:
  "derive_run_output_id sprint now tg \<noteq> [] \<and> slash \<notin> set (derive_run_output_id sprint now tg)"
  using sanitize_plain int_str_plain
  by (auto simp: derive_run_output_id_def Let_def slash_def split: option.splits)

lemma run_dir_inside:
  assumes "fs_ok f" "derive_run_output_id sprint now tg \<notin> {''.'', ''..''}"
  shows "proper_name (derive_run_output_id sprint now tg) \<and>
    path_join (output_spill_base_dir f) (derive_run_output_id sprint now tg) =
      path_string (temp_dir f @ [''tool-outputs'', derive_run_output_id sprint now tg])"
proof -
  let ?id = "derive_run_output_id sprint now tg"
  have id: "proper_name ?id" using assms(2) derived_id_plain [of sprint now tg] by (simp add: proper_name_def)
  have p: "list_all proper_name (temp_dir f @ [''tool-outputs''])"
    using fs_ok_root [OF assms(1)] tmp_proper by (simp add: temp_dir_elems)
  have "join_path (temp_dir f @ [''tool-outputs'']) ?id = temp_dir f @ [''tool-outputs'', ?id]"
    using join_path_names [of "[?id]" "temp_dir f @ [''tool-outputs'']"] id by simp
  then show ?thesis using id parse_path_string [OF p] by (simp add: base_dir [OF assms(1)] path_join_def)
qed

text \<open>Removing and making again a directory of the root leaves it empty.\<close>

lemma drop_link_root [simp]: "mf_next (drop_link i f) = mf_next f"
  by simp

text \<open>Removal leaves the kinds of the nodes and takes entries away, no more.\<close>

definition smaller :: "memfs \<Rightarrow> memfs \<Rightarrow> bool" where
  "smaller f g \<longleftrightarrow> mf_root g = mf_root f \<and>
     (\<forall>j m. child_of g j m = child_of f j m \<or> child_of g j m = None) \<and>
     (\<forall>j. nd_kind (node_of g j) = nd_kind (node_of f j))"

lemma smaller_refl [simp]: "smaller f f"
  by (simp add: smaller_def)

lemma smaller_trans: "smaller f g \<Longrightarrow> smaller g h \<Longrightarrow> smaller f h"
  unfolding smaller_def by metis

lemma smaller_remove [simp]: "smaller f (remove_child i n f)"
  by (simp add: smaller_def child_of_remove)

lemma discard_child: "smaller f (discard_tree n i f)"
proof (induction n arbitrary: i f)
  case (Suc n)
  have "smaller f (fold (\<lambda>(name, child) g. discard_tree n child (remove_child i name g)) cs f)" for cs :: "(string \<times> nat) list"
  proof (rule fold_keeps [where P = "smaller f"])
    fix x :: "string \<times> nat" and g
    assume g: "smaller f g"
    obtain name child where x: "x = (name, child)" by (cases x)
    show "smaller f ((\<lambda>(name, child) g. discard_tree n child (remove_child i name g)) x g)"
      unfolding x prod.case by (rule smaller_trans [OF smaller_trans [OF g smaller_remove] Suc])
  qed simp
  moreover have "smaller f (drop_link i f)" by (simp add: smaller_def)
  ultimately show ?case by simp
qed simp

lemma remove_top:
  assumes ok: "fs_ok f" and b: "proper_name b"
  shows "\<exists>g. remove_all (path_string (mf_root f @ [b])) f = (Inr (), g) \<and> fs_ok g \<and> mf_root g = mf_root f \<and> child_of g root_ino b = None"
proof -
  have p: "list_all proper_name (mf_root f @ [b])" using fs_ok_root [OF ok] b by simp
  have r: "resolve_path f (mf_root f) (path_string (mf_root f @ [b])) = Inr (mf_root f @ [b])"
    by (rule resolve_path_string [OF p]) simp
  have l: "lookup_parent f (mf_root f @ [b]) = Inr (root_ino, mf_root f, b)"
    using fs_ok_root [OF ok] by (simp add: lookup_parent_def lookup_path_def path_base_def)
  obtain g where g: "remove_all (path_string (mf_root f @ [b])) f = (Inr (), g)"
    "g = (case child_of f root_ino b of None \<Rightarrow> f | Some c \<Rightarrow> discard_tree (mf_next f) c (remove_child root_ino b f))"
    using r l by (simp add: remove_all_def split: option.split)
  have "fs_ok g" using remove_all_ok [OF ok, of "path_string (mf_root f @ [b])"] g(1) by simp
  moreover have "mf_root g = mf_root f \<and> child_of g root_ino b = None"
  proof (cases "child_of f root_ino b")
    case (Some c)
    then have e: "g = discard_tree (mf_next f) c (remove_child root_ino b f)" using g(2) by simp
    have "child_of g root_ino b = child_of (remove_child root_ino b f) root_ino b \<or> child_of g root_ino b = None"
      "mf_root g = mf_root f"
      unfolding e using discard_child [of "remove_child root_ino b f" "mf_next f" c] by (auto simp: smaller_def)
    then show ?thesis by (simp add: child_of_remove)
  qed (use g(2) in simp)
  ultimately show ?thesis using g(1) by blast
qed

lemma make_top:
  assumes ok: "fs_ok g" and b: "proper_name b" "child_of g root_ino b = None"
  shows "\<exists>h. mkdir_all (path_string (mf_root g @ [b])) perm now g = (Inr (), h) \<and>
    read_dir (path_string (mf_root g @ [b])) h = Inr []"
proof -
  have p: "list_all proper_name (mf_root g @ [b])" using fs_ok_root [OF ok] b by simp
  obtain i g1 where n: "new_node NodeDirectory (mode_dir OR perm_bits perm) now g = (i, g1)"
    by (cases "new_node NodeDirectory (mode_dir OR perm_bits perm) now g")
  note N = new_node_fields [OF n]
  let ?h = "add_child root_ino b i g1"
  have i: "i \<noteq> root_ino" using fs_ok_root [OF ok] N(1) by simp
  have m: "mkdir_all (path_string (mf_root g @ [b])) perm now g = (Inr (), ?h)"
    using resolve_path_string [OF p] b(2) n by (simp add: mkdir_all_def)
  have "resolve_path ?h (mf_root ?h) (path_string (mf_root g @ [b])) = Inr (mf_root g @ [b])"
    using resolve_path_string [OF p, of ?h] N(3) by simp
  moreover have "lookup_path ?h True (mf_root g @ [b]) = Inr (i, mf_root g @ [b])"
    using N i fs_ok_root [OF ok] by (simp add: lookup_path_def walk_step through_link_def child_of_add)
  moreover have "nd_children (node_of ?h i) = []" using N(7) i by (simp add: children_add)
  ultimately have "read_dir (path_string (mf_root g @ [b])) ?h = Inr []"
    using N(6) by (simp add: read_dir_def dir_entries_def)
  with m show ?thesis by blast
qed

lemma run_dir_escapes:
  assumes ok: "fs_ok f" and sp: "sp_base sp = output_spill_base_dir f"
    and id: "derive_run_output_id sprint now tg = ''..''"
  shows "\<exists>f'. begin_run_spill_dir sprint now tg sp f = (Inr (sp_run sp), sp\<lparr>sp_run := path_string (temp_dir f)\<rparr>, f') \<and>
    read_dir (path_string (temp_dir f)) f' = Inr []"
proof -
  obtain g where g: "remove_all (path_string (mf_root f @ [''.tmp''])) f = (Inr (), g)" "fs_ok g" "mf_root g = mf_root f"
    "child_of g root_ino ''.tmp'' = None" using remove_top [OF ok tmp_proper(1)] by blast
  obtain h where "mkdir_all (path_string (mf_root f @ [''.tmp''])) 493 now g = (Inr (), h)"
    "read_dir (path_string (mf_root f @ [''.tmp''])) h = Inr []" using make_top [OF g(2) tmp_proper(1) g(4)] g(3) by metis
  with g(1) show ?thesis by (simp add: begin_run_spill_dir_def sp id dotdot_dir [OF ok] temp_dir_elems)
qed

text \<open>A run that begins takes a directory of the spill directory, or the temporary directory.\<close>

lemma begun_run_dir:
  assumes ok: "fs_ok f" and sp: "sp_base sp = output_spill_base_dir f"
    and b: "begin_run_spill_dir sprint now tg sp f = (Inr previous, sp', f')"
  shows "(derive_run_output_id sprint now tg \<notin> {''.'', ''..''} \<longrightarrow> proper_name (derive_run_output_id sprint now tg) \<and>
            sp_run sp' = path_string (temp_dir f @ [''tool-outputs'', derive_run_output_id sprint now tg])) \<and>
         (derive_run_output_id sprint now tg = ''..'' \<longrightarrow> sp_run sp' = path_string (temp_dir f) \<and>
            read_dir (path_string (temp_dir f)) f' = Inr [])"
proof -
  have "sp_run sp' = path_join (output_spill_base_dir f) (derive_run_output_id sprint now tg)"
    using b by (auto simp: begin_run_spill_dir_def sp Let_def split: sum.splits prod.splits)
  then show ?thesis using run_dir_inside [OF ok, of sprint now tg] run_dir_escapes [OF ok sp, of sprint now tg] b by auto
qed

end
