(* ===== verification/CompactionLaws.thy ===== *)
theory CompactionLaws
  imports Compaction CaptureLaws
begin

text \<open>
  What a stub keeps of an output: the reference of the file with all of it, and previews of bounded size.
\<close>

section \<open>Files\<close>

lemma normalize_refs_paths: "f_path ` set (normalize_refs seen rs) = (trim_space \<circ> f_path) ` set rs - seen - {[]}"
  by (induction seen rs rule: normalize_refs.induct) (auto simp: Let_def)

lemma normalized_paths: "f_path ` set (normalize_file_references rs) = (trim_space \<circ> f_path) ` set rs - {[]}"
  by (simp add: normalize_file_references_def normalize_refs_paths)

text \<open>The paths of a list of files.\<close>

definition names_file :: "string \<Rightarrow> file_ref list \<Rightarrow> bool" where
  "names_file p rs \<longleftrightarrow> (\<exists>r \<in> set rs. trim_space (f_path r) = p)"

lemma names_normalized: "names_file p rs \<Longrightarrow> p \<noteq> [] \<Longrightarrow> names_file p (normalize_file_references rs)"
proof -
  assume "names_file p rs" "p \<noteq> []"
  then have "p \<in> f_path ` set (normalize_file_references rs)" unfolding normalized_paths names_file_def by auto
  moreover have "trim_space p = p" using \<open>names_file p rs\<close> by (auto simp: names_file_def)
  ultimately show ?thesis by (auto simp: names_file_def)
qed

lemma names_append: "names_file p (rs @ [r]) \<longleftrightarrow> names_file p rs \<or> trim_space (f_path r) = p"
  by (auto simp: names_file_def)

lemma stub_files_full:
  assumes "trim_space (f_path r) \<noteq> []"
  shows "names_file (trim_space (f_path r)) (stub_files (normalize_file_references (fs @ [r])) (Some r))"
proof -
  have "names_file (trim_space (f_path r)) (normalize_file_references (fs @ [r]))"
    by (rule names_normalized) (use assms in \<open>simp_all add: names_append\<close>)
  then show ?thesis
    using assms by (auto simp: stub_files_def Let_def names_append intro: names_normalized)
qed

lemma picked_files: "snd (pick_candidate budget cs chosen) \<in> insert (snd chosen) (snd ` set cs)"
  by (induction budget cs chosen rule: pick_candidate.induct) auto

lemma compacted_names_full:
  assumes "compact_structured decode int64 budget (Some r) out = Inr (Some c)" "trim_space (f_path r) \<noteq> []"
  shows "names_file (trim_space (f_path r)) (cp_files c)"
proof -
  obtain v where v: "decode (trim_space out) = Some v"
    using assms(1) by (auto simp: compact_structured_def Let_def split: if_splits option.splits)
  define all where "all = normalize_file_references (top_level_files int64 v @ [r])"
  define ctx where "ctx = \<lparr>sc_all = all, sc_stub = stub_files all (Some r), sc_bytes = length (trim_space out)\<rparr>"
  have "cp_files c = snd (pick_candidate (if budget \<le> 0 then default_json_stub_bytes else budget)
      (stub_candidates ctx (Some r) v) ([], sc_stub ctx))"
    using assms(1) v by (auto simp: compact_structured_def Let_def all_def ctx_def split: if_splits)
  then have "cp_files c \<in> insert (sc_stub ctx) (snd ` set (stub_candidates ctx (Some r) v))"
    using picked_files [of _ "stub_candidates ctx (Some r) v" "([], sc_stub ctx)"] by simp
  then have "cp_files c = stub_files all (Some r) \<or> cp_files c = [r]"
    by (auto simp: stub_candidates_def ctx_def)
  then show ?thesis
    using stub_files_full [OF assms(2), of "top_level_files int64 v"] by (auto simp: all_def names_file_def)
qed

lemma compacted_again:
  "compact_structured decode int64 budget full out = Inr (Some c) \<Longrightarrow> \<exists>d. compact_structured decode int64 budget full' out = Inr (Some d)"
  by (auto simp: compact_structured_def Let_def split: if_splits option.splits)

lemma compact_no_error: "compact_structured decode int64 budget full out \<noteq> Inl e"
  by (auto simp: compact_structured_def Let_def split: option.splits)

text \<open>An output that is JSON and too long is in a file that the step names.\<close>

definition spilled_whole :: "int \<Rightarrow> string \<Rightarrow> go_time \<Rightarrow> spill_state \<Rightarrow> string \<Rightarrow> memfs \<Rightarrow> memfs \<Rightarrow> bool" where
  "spilled_whole i name now sp out f f' \<longleftrightarrow>
     (\<exists>g. mkdir_all (path_join (sp_run sp) (''step_'' @ int_str i)) 493 now f = (Inr (), g) \<and>
          write_file (path_join (path_join (sp_run sp) (''step_'' @ int_str i)) name) out 420 now g = (Inr (), f'))"

lemma written_step_file:
  assumes "write_step_spill_file i name mime desc out now sp f = (Inr ref, f')"
  shows "f_path ref = path_join (path_join (sp_run sp) (''step_'' @ int_str i)) name \<and> spilled_whole i name now sp out f f'"
  using assms
  by (auto simp: write_step_spill_file_def step_spill_file_def Let_def spilled_whole_def split: sum.splits prod.splits if_splits)

lemma structured_kept:
  assumes a: "apply_structured (compact_structured decode int64) show_error now sp out st f = (Inr True, st', f')"
    and p: "trim_space (path_join (path_join (sp_run sp) (''step_'' @ int_str (st_index st))) ''full_output.json'') \<noteq> []"
  shows "spilled_whole (st_index st) ''full_output.json'' now sp out f f' \<and>
    names_file (trim_space (path_join (path_join (sp_run sp) (''step_'' @ int_str (st_index st))) ''full_output.json'')) (st_output_files st')"
proof -
  let ?stub = "compact_structured decode int64" and ?limit = "output_limit sp"
  let ?budget = "max 1 (min ?limit default_json_stub_bytes)"
  obtain probe where probe: "?stub ?budget None out = Inr (Some probe)" "\<not> int (length out) \<le> ?limit"
    using a by (auto simp: apply_structured_def Let_def split: sum.splits option.splits if_splits)
  obtain r f1 where w: "write_step_spill_file (st_index st) ''full_output.json'' ''application/json'' ''Full structured tool output''
      out now sp f = (r, f1)" by fastforce
  then obtain ref where r: "r = Inr ref" using a probe by (cases r) (simp_all add: apply_structured_def Let_def)
  note W = written_step_file [OF w [unfolded r]]
  obtain c where c: "?stub ?budget (Some ref) out = Inr (Some c)" using compacted_again [OF probe(1)] by blast
  have n: "names_file (trim_space (f_path ref)) (cp_files c)"
    by (rule compacted_names_full [OF c]) (use W p in simp)
  then have "cp_files c \<noteq> []" by (auto simp: names_file_def)
  moreover have "names_file (trim_space (f_path ref)) (normalize_file_references (cp_files probe @ [ref]))"
    by (rule names_normalized) (use W p in \<open>simp_all add: names_append\<close>)
  ultimately show ?thesis
    using a probe w r c n W by (auto simp: apply_structured_def Let_def split: if_splits)
qed

lemma structured_applies:
  assumes "trim_space out \<noteq> []" "decode (trim_space out) = Some v" "output_limit sp < int (length out)"
  shows "apply_structured (compact_structured decode int64) show_error now sp out st f \<noteq> (Inr False, st', f')"
proof -
  have "\<exists>c. compact_structured decode int64 b full out = Inr (Some c)" for b full
    using assms(1,2) by (simp add: compact_structured_def Let_def)
  then obtain c where c: "\<And>b full. compact_structured decode int64 b full out = Inr (Some (c b full))" by metis
  show ?thesis using assms(3) by (auto simp: apply_structured_def Let_def c split: sum.splits prod.splits)
qed

text \<open>The step of a tool whose output was set: either its call failed, or nothing of the output is lost.\<close>

lemma tool_output_kept:
  assumes s: "set_tool_output (compact_structured decode int64) show_error now sp out st f = (st', f')"
    and j: "trim_space out \<noteq> []" "decode (trim_space out) = Some v" "output_limit sp < int (length out)"
    and p: "trim_space (path_join (path_join (sp_run sp) (''step_'' @ int_str (st_index st))) ''full_output.json'') \<noteq> []"
  shows "st_status st' = StepFatalError \<or> spilled_whole (st_index st) ''full_output.json'' now sp out f f' \<and>
    names_file (trim_space (path_join (path_join (sp_run sp) (''step_'' @ int_str (st_index st))) ''full_output.json'')) (st_output_files st')"
proof -
  let ?st = "st\<lparr>st_output_bytes := int (length out), st_output_files := [], st_output_compacted := False\<rparr>"
  obtain r st1 f1 where a: "apply_structured (compact_structured decode int64) show_error now sp out ?st f = (r, st1, f1)"
    by (metis prod.exhaust)
  show ?thesis
  proof (cases r)
    case (Inl e)
    then show ?thesis using s a by (auto simp: set_tool_output_def Let_def fail_output_def)
  next
    case (Inr applied)
    have "applied" using structured_applies [where decode = decode and out = out and st = ?st, OF j] a Inr by (cases applied) auto
    then have t: "apply_structured (compact_structured decode int64) show_error now sp out ?st f = (Inr True, st1, f1)"
      using a Inr by simp
    then have "st' = st1" "f' = f1" using s by (auto simp: set_tool_output_def Let_def)
    then show ?thesis using structured_kept [OF t] p by simp
  qed
qed

text \<open>The name of that file has no spaces around it.\<close>

lemma spill_name_trimmed: "trim_space (path_join d ''full_output.json'') = path_join d ''full_output.json''"
proof -
  let ?q = "join_path [] d @ [''full_output.json'']"
  have "join_path (join_path [] d) ''full_output.json'' = ?q" by (simp add: join_path_def slash_def)
  then have q: "path_join d ''full_output.json'' = slash # join_char slash ?q" by (simp add: path_join_def path_string_def)
  have "join_char slash ?q \<noteq> []" by (cases "join_path [] d") (simp_all, cases "tl (join_path [] d)", simp_all)
  then have "last (slash # join_char slash ?q) = CHR ''n''" using last_join_char [of ?q slash] by simp
  then have "visible (last (slash # join_char slash ?q))" by (simp add: visible_def go_spaces_def)
  moreover have "visible (hd (slash # join_char slash ?q))" by (simp add: slash_def visible_def go_spaces_def)
  ultimately show ?thesis unfolding q by (intro trim_space_visible) simp_all
qed

lemma spill_name_filled: "trim_space (path_join d ''full_output.json'') \<noteq> []"
  unfolding spill_name_trimmed by (simp add: path_join_def path_string_def)

lemma json_output_kept:
  assumes s: "set_tool_output (compact_structured decode int64) show_error now sp out st f = (st', f')"
    and j: "trim_space out \<noteq> []" "decode (trim_space out) = Some v" "output_limit sp < int (length out)"
    and p: "p = path_join (path_join (sp_run sp) (''step_'' @ int_str (st_index st))) ''full_output.json''"
  shows "int (length (st_output st')) \<le> output_limit sp \<and>
    (st_status st' = StepFatalError \<or>
     (\<exists>ref \<in> set (st_output_files st'). trim_space (f_path ref) = p) \<and> (\<exists>g. write_file p out 420 now g = (Inr (), f')))"
proof -
  have "int (length (st_output st')) \<le> output_limit sp"
    using set_tool_output_bound [of "compact_structured decode int64" show_error now sp out st f] s by simp
  then show ?thesis
    using tool_output_kept [OF s j spill_name_filled] unfolding p spilled_whole_def names_file_def spill_name_trimmed by blast
qed

text \<open>The call fails only with the file.\<close>

lemma structured_status:
  assumes "trim_space out \<noteq> []" "decode (trim_space out) = Some v" "output_limit sp < int (length out)"
    and w: "write_step_spill_file (st_index st) ''full_output.json'' ''application/json'' ''Full structured tool output'' out now sp f =
      (Inr ref, f1)"
  shows "st_status (fst (set_tool_output (compact_structured decode int64) show_error now sp out st f)) = st_status st"
proof -
  have "\<exists>c. compact_structured decode int64 b full out = Inr (Some c)" for b full
    using assms(1,2) by (simp add: compact_structured_def Let_def)
  then obtain c where c: "\<And>b full. compact_structured decode int64 b full out = Inr (Some (c b full))" by metis
  show ?thesis using assms(3) w by (simp add: set_tool_output_def apply_structured_def Let_def c)
qed

section \<open>Previews\<close>

text \<open>A rune has at most four bytes, so a preview text has at most four times as many bytes as it may have runes.\<close>

lemma rune_width_le: "rune_width s \<le> 4"
  by (simp add: rune_width_def Let_def)

lemma count_runes_bytes: "length s \<le> 4 * count_runes s"
proof (induction s rule: count_runes.induct)
  case (2 c cs)
  have "length (drop (rune_width (c # cs) - 1) cs) \<ge> length (c # cs) - 4" using rune_width_le [of "c # cs"] by simp
  then show ?case using 2 by simp
qed simp

lemma take_runes_bytes: "length (take_runes n s) \<le> 4 * n"
proof (induction n s rule: take_runes.induct)
  case (2 n s)
  define u where "u = (if rune_width s = 1 \<and> 128 \<le> (of_char (hd s) :: nat) then [CHR 0xEF, CHR 0xBF, CHR 0xBD] else take (rune_width s) s)"
  have "length u \<le> 4" using rune_width_le [of s] by (simp add: u_def min.coboundedI2)
  moreover have "take_runes (Suc n) s = (if s = [] then [] else u @ take_runes n (drop (rune_width s) s))"
    by (simp add: u_def Let_def)
  ultimately show ?case using 2 [OF _ refl] by (cases "s = []") (auto simp del: take_runes.simps)
qed simp

lemma truncate_preview_bytes:
  assumes "1 < n"
  shows "length (truncate_preview s n) \<le> 4 * n"
proof (cases "count_runes s \<le> n")
  case True
  then show ?thesis using assms count_runes_bytes [of s] by (simp add: truncate_preview_def)
next
  case False
  then show ?thesis using assms take_runes_bytes [of "n - 1" s] by (simp add: truncate_preview_def)
qed

fun small_value :: "jval \<Rightarrow> bool" where
  "small_value (JStr s) = (length s \<le> 1536)"
| "small_value (JList vs) = (length vs \<le> 3 \<and> list_all small_value vs)"
| "small_value (JObj fs) = list_all (\<lambda>(k, v). small_value v) fs"
| "small_value v = True"

lemma compact_scalar_small: "is_scalar v \<Longrightarrow> small_value (compact_scalar v)"
  using truncate_preview_bytes [of stub_preview_runes] by (cases v) (simp_all add: compact_scalar_def stub_preview_runes_def)

definition small_fields :: "fields \<Rightarrow> bool" where
  "small_fields fs \<longleftrightarrow> (\<forall>p \<in> set fs. small_value (snd p))"

lemma small_obj [simp]: "small_value (JObj fs) \<longleftrightarrow> small_fields fs"
  by (auto simp: small_fields_def list_all_iff)

declare small_value.simps(3) [simp del]

lemma small_fields_Cons [simp]: "small_fields (p # fs) \<longleftrightarrow> small_value (snd p) \<and> small_fields fs"
  by (auto simp: small_fields_def)

lemma small_jint [simp]: "small_value (jint n)"
  by (simp add: jint_def)

lemma small_empty [simp]: "small_fields []"
  by (simp add: small_fields_def)

lemma set_jput: "set (jput k v fs) \<subseteq> insert (k, v) (set fs)"
  by (induction k v fs rule: jput.induct) auto

text \<open>What is new in an object that grew from another is small.\<close>

definition grown :: "fields \<Rightarrow> fields \<Rightarrow> bool" where
  "grown out out' \<longleftrightarrow> (\<forall>p \<in> set out'. p \<in> set out \<or> small_value (snd p))"

lemma grown_refl [simp]: "grown out out"
  by (simp add: grown_def)

lemma grown_trans: "\<lbrakk>grown a b; grown b c\<rbrakk> \<Longrightarrow> grown a c"
  by (auto simp: grown_def)

lemma grown_empty [simp]: "grown [] out \<longleftrightarrow> small_fields out"
  by (simp add: grown_def small_fields_def)

lemma grown_jput [simp]: "\<lbrakk>grown out out'; small_value v\<rbrakk> \<Longrightarrow> grown out (jput k v out')"
  using set_jput [of k v out'] by (auto simp: grown_def)

lemma length_preview_list: "length (preview_list pv depth n vs) \<le> n"
proof (induction vs arbitrary: n)
  case (Cons v vs)
  then show ?case using Cons [of "n - 1"] by (cases n) auto
qed simp

lemma preview_items [simp]: "length (preview_list pv depth stub_preview_items vs) \<le> 3"
  using length_preview_list [of pv depth stub_preview_items vs] by (simp add: stub_preview_items_def)

lemma previews_small:
  "grown out (fst (compact_field pv key v depth p known out))"
  "grown out (fst (compact_fields pv fs depth p out))"
  "grown out (leaf_fields pv fs out)"
  "small_value (preview_value pv depth v)"
  "list_all small_value (preview_list pv depth n vs)"
proof (induction pv key v depth p known out and pv fs depth p out and pv fs out and pv depth v and pv depth n vs
    rule: compact_field_compact_fields_leaf_fields_preview_value_preview_list.induct)
  case (1 pv key vs depth p known out)
  then have "small_value (JList (preview_list pv depth stub_preview_items vs))" by simp
  then show ?case by (auto simp: Let_def)
next
  case (5 pv k v fs depth p out)
  obtain out' om where f: "compact_field pv k v depth (join_json_path p k) False out = (out', om)" by fastforce
  then have "grown out out'" "grown out' (fst (compact_fields pv fs depth p out'))" using 5 by simp_all
  then show ?case using f by (auto simp: split: prod.splits intro: grown_trans)
next
  case (7 pv k v fs out)
  have "small_value (JList (preview_list True stub_max_depth stub_preview_items vs))" if "v = JList vs" "pv" "vs \<noteq> []" for vs
    using 7(1) that by auto
  then have "grown out (case v of
          JList vs \<Rightarrow>
            (let out' = jput (k @ ''_count'') (jint (length vs)) out
             in if pv \<and> vs \<noteq> [] then jput (k @ ''_preview'') (JList (preview_list pv stub_max_depth stub_preview_items vs)) out' else out')
        | JObj gs \<Rightarrow> jput k (JObj [(''field_count'', jint (length gs)), (''truncated'', JBool True)]) out
        | _ \<Rightarrow> jput k (compact_scalar v) out)"
    using compact_scalar_small [of v] by (cases v) (auto simp: Let_def)
  from grown_trans [OF this 7(2)] show ?case by simp
qed (auto simp: Let_def compact_scalar_small split: prod.splits)

section \<open>The stub\<close>

text \<open>Everything but the list of files and the metadata is small.\<close>

definition small_but_files :: "fields \<Rightarrow> bool" where
  "small_but_files fs \<longleftrightarrow> (\<forall>p \<in> set fs. fst p = ''files'' \<or> fst p = ''_meta'' \<or> small_value (snd p))"

lemma small_but_grown: "\<lbrakk>small_but_files fs; grown fs gs\<rbrakk> \<Longrightarrow> small_but_files gs"
  by (auto simp: small_but_files_def grown_def)

lemma small_but_jput: "\<lbrakk>small_but_files fs; k = ''files'' \<or> k = ''_meta'' \<or> small_value v\<rbrakk> \<Longrightarrow> small_but_files (jput k v fs)"
  using set_jput [of k v fs] by (auto simp: small_but_files_def)

lemma put_files_small: "small_but_files fs \<Longrightarrow> small_but_files (put_files ctx fs)"
  by (auto simp: put_files_def Let_def intro!: small_but_jput)

lemma small_but_fields: "small_fields fs \<Longrightarrow> small_but_files fs"
  by (simp add: small_but_files_def small_fields_def)

lemma envelope_grown: "grown out (fst (envelope_fields pv fs ks out))"
proof (induction pv fs ks out rule: envelope_fields.induct)
  case (2 pv fs k ks out)
  show ?case
  proof (cases "map_of fs k")
    case (Some v)
    obtain out' om where f: "compact_field pv k v 0 (''summary.'' @ k) True out = (out', om)" by fastforce
    then have "grown out out'" using previews_small(1) [of out pv k v 0 "''summary.'' @ k" True] by simp
    moreover have "grown out' (fst (envelope_fields pv fs ks out'))" using 2(2) [OF Some f [symmetric]] by simp
    ultimately show ?thesis using f Some by (auto split: prod.splits intro: grown_trans)
  qed (use 2(1) in simp)
qed simp

lemma other_grown: "grown out (fst (other_fields pv fs out))"
proof (induction pv fs out rule: other_fields.induct)
  case (2 pv k v fs out)
  show ?case
  proof (cases "k = ''data'' \<or> k = ''files'' \<or> map_of out k \<noteq> None")
    case False
    obtain out' om where f: "compact_field pv k v 0 k True out = (out', om)" by fastforce
    then have "grown out out'" using previews_small(1) [of out pv k v 0 k True] by simp
    moreover have "grown out' (fst (other_fields pv fs out'))" using 2(2) [OF False f [symmetric]] by simp
    ultimately show ?thesis using f False by (auto split: prod.splits intro: grown_trans)
  qed (use 2(1) in simp)
qed simp

lemma known_envelope_small: "small_but_files (compact_known_envelope pv ctx fs)"
proof -
  obtain out1 om1 where 1: "envelope_fields pv fs envelope_keys [] = (out1, om1)" by fastforce
  have s1: "small_but_files out1" using envelope_grown [of "[]" pv fs envelope_keys] 1 by (simp add: small_but_fields)
  define out2 where "out2 = put_files ctx out1"
  have s2: "small_but_files out2" unfolding out2_def by (rule put_files_small [OF s1])
  obtain out3 om3 where 3: "(case map_of fs ''data'' of None \<Rightarrow> (out2, []) | Some v \<Rightarrow> compact_field pv ''data'' v 0 ''data'' True out2) = (out3, om3)"
    by fastforce
  have "grown out2 out3" using previews_small(1) [of out2 pv "''data''" _ 0 "''data''" True] 3
    by (cases "map_of fs ''data''") (auto, metis fst_conv)
  then have s3: "small_but_files out3" using s2 by (rule small_but_grown [rotated])
  obtain out4 om4 where 4: "other_fields pv fs out3 = (out4, om4)" by fastforce
  have "small_but_files out4" using small_but_grown [OF s3 other_grown, of pv fs] 4 by simp
  then show ?thesis unfolding compact_known_envelope_def Let_def
    by (simp add: 1 4 3 [unfolded out2_def] small_but_jput)
qed

lemma generic_object_small: "small_but_files (compact_generic_object pv ctx fs)"
proof -
  let ?gs = "filter (\<lambda>f. fst f \<noteq> ''files'') fs" and ?start = "[(''truncated'', JBool True)]"
  obtain out om where f: "compact_fields pv ?gs 0 [] ?start = (out, om)" by fastforce
  have "small_but_files ?start" by (simp add: small_but_files_def)
  then have "small_but_files out" using small_but_grown [OF _ previews_small(2) [of ?start pv ?gs 0 "[]"]] f by simp
  then show ?thesis using f by (simp add: compact_generic_object_def small_but_jput put_files_small)
qed

lemma stub_small: "\<exists>fs. build_json_stub pv ctx v = JObj fs \<and> small_but_files fs"
proof -
  have t: "small_but_files (compact_top_scalar ctx w)" if "is_scalar w" for w
    unfolding compact_top_scalar_def using compact_scalar_small [OF that]
    by (intro put_files_small small_but_jput) (simp_all add: small_but_files_def)
  have a: "small_but_files (compact_top_array pv ctx vs)" for vs
  proof -
    have "small_but_files [(''items_count'', jint (length vs)), (''truncated'', JBool True)]" by (simp add: small_but_files_def)
    moreover have "small_value (JList (preview_list pv 0 stub_preview_items vs))" using previews_small(5) by simp
    ultimately show ?thesis unfolding compact_top_array_def Let_def
      by (intro small_but_jput put_files_small) (auto intro: small_but_jput simp del: jput.simps)
  qed
  then show ?thesis using t a known_envelope_small generic_object_small by (cases v) (auto simp: build_json_stub_def)
qed

lemma stub_files_few: "length (stub_files files full) \<le> 3"
proof -
  have "length (normalize_refs seen rs) \<le> length rs" for seen rs
    by (induction seen rs rule: normalize_refs.induct) (auto simp: Let_def le_SucI)
  then have n: "length (normalize_file_references rs) \<le> length rs" for rs by (simp add: normalize_file_references_def)
  have "length (normalize_file_references (take n xs @ ys)) \<le> 3" if "n + length ys \<le> 3" for n xs ys
    using n [of "take n xs @ ys"] that by simp
  then show ?thesis by (auto simp: stub_files_def Let_def stub_preview_items_def split: option.split)
qed

text \<open>The chosen candidate fits the budget or is the last.\<close>

lemma picked_candidate:
  "cs \<noteq> [] \<Longrightarrow> \<exists>x \<in> set cs. pick_candidate budget cs chosen = (jval_text (fst x), snd x) \<and>
     (int (length (jval_text (fst x))) \<le> budget \<or> x = last cs)"
proof (induction budget cs chosen rule: pick_candidate.induct)
  case (2 budget v rs cs chosen)
  show ?case
  proof (cases "int (length (jval_text v)) \<le> budget")
    case False
    then show ?thesis using 2 by (cases "cs = []") auto
  qed auto
qed simp

lemma compaction_bounded:
  assumes "compact_structured decode int64 budget full out = Inr (Some c)"
  shows "length (cp_files c) \<le> 3 \<and>
    (\<exists>ctx v. decode (trim_space out) = Some v \<and>
       (cp_output c = jval_text (build_minimal_stub ctx v) \<or>
        int (length (cp_output c)) \<le> (if budget \<le> 0 then default_json_stub_bytes else budget) \<and>
        (\<exists>pv fs. build_json_stub pv ctx v = JObj fs \<and> cp_output c = jval_text (JObj fs) \<and> small_but_files fs)))"
proof -
  let ?limit = "if budget \<le> 0 then default_json_stub_bytes else budget"
  obtain v where v: "decode (trim_space out) = Some v"
    using assms by (auto simp: compact_structured_def Let_def split: if_splits option.splits)
  define all where "all = normalize_file_references (top_level_files int64 v @ (case full of None \<Rightarrow> [] | Some r \<Rightarrow> [r]))"
  define ctx where "ctx = \<lparr>sc_all = all, sc_stub = stub_files all full, sc_bytes = length (trim_space out)\<rparr>"
  have c: "(cp_output c, cp_files c) = pick_candidate ?limit (stub_candidates ctx full v) ([], sc_stub ctx)"
    using assms v by (auto simp: compact_structured_def Let_def all_def ctx_def split: if_splits)
  have "stub_candidates ctx full v \<noteq> []" by (simp add: stub_candidates_def)
  from picked_candidate [OF this, of ?limit "([], sc_stub ctx)"] obtain x
    where x1: "x \<in> set (stub_candidates ctx full v)" "(cp_output c, cp_files c) = (jval_text (fst x), snd x)"
      "int (length (jval_text (fst x))) \<le> ?limit \<or> x = last (stub_candidates ctx full v)" unfolding c by blast
  then have x: "x \<in> set (stub_candidates ctx full v)" "cp_output c = jval_text (fst x)" "cp_files c = snd x"
    "int (length (jval_text (fst x))) \<le> ?limit \<or> x = last (stub_candidates ctx full v)" by blast+
  have few: "length (sc_stub ctx) \<le> 3" using stub_files_few by (simp add: ctx_def)
  have l: "\<exists>ctx'. last (stub_candidates ctx full v) = (build_minimal_stub ctx' v, sc_stub ctx')"
    by (cases full) (auto simp: stub_candidates_def intro: exI [of _ "ctx\<lparr>sc_stub := [r]\<rparr>" for r])
  have few: "length (cp_files c) \<le> 3" using x(1,3) few by (cases full) (auto simp: stub_candidates_def)
  consider ctx' where "fst x = build_minimal_stub ctx' v" | pv where "fst x = build_json_stub pv ctx v" "int (length (jval_text (fst x))) \<le> ?limit"
  proof (cases "x = last (stub_candidates ctx full v)")
    case True
    then show thesis using l that(1) by auto
  next
    case False
    then have "int (length (jval_text (fst x))) \<le> ?limit" using x(4) by blast
    moreover have "(\<exists>pv. fst x = build_json_stub pv ctx v) \<or> (\<exists>ctx'. fst x = build_minimal_stub ctx' v)"
      using x(1) by (cases full) (auto simp: stub_candidates_def)
    ultimately show thesis using that by blast
  qed
  then show ?thesis
  proof cases
    case 1
    then show ?thesis using few v x(2) by auto
  next
    case 2
    obtain fs where "build_json_stub pv ctx v = JObj fs" "small_but_files fs" using stub_small by blast
    then show ?thesis using few v x(2) 2 by (intro conjI exI [of _ ctx] exI [of _ v] disjI2 exI [of _ pv] exI [of _ fs]) auto
  qed
qed

end
