(* ===== verification/RuntimeManager.thy ===== *)
theory RuntimeManager
  imports Agents Patch "HOL-Library.AList" "HOL-Library.Multiset"
begin

text \<open>
  The runtime manager (\<open>pkg/server/runtime_manager.go\<close>): one synchronisation of the workers with the
  runnable agents of the store. A worker is a goroutine \<open>worker_proc\<close> that runs until it is cancelled or
  fails and then is done; the manager's map holds handles of the ones it has not cancelled. Setting a
  worker up (driver, configuration, file system, mounts) is the argument \<open>start\<close>, which fails with a text.
\<close>

section \<open>Workers\<close>

record worker_handle =
  wh_fingerprint :: string
  wh_proc :: nat

record worker_proc =
  wp_namespace :: string
  wp_agent :: string
  wp_cancelled :: bool
  wp_done :: bool

record manager =
  mg_workers :: "(string \<times> worker_handle) list"
  mg_procs :: "worker_proc list"

text \<open>The text of a stored configuration and the hash of what it takes from the environment.\<close>

record worker_env =
  we_config :: "env_text \<Rightarrow> string"
  we_env_hash :: "env_text \<Rightarrow> string"

definition worker_key :: "string \<Rightarrow> string \<Rightarrow> string" where
  "worker_key ns ag = ns @ CHR '':'' # ag"

definition agent_key :: "runnable_agent \<Rightarrow> string" where
  "agent_key r = worker_key (a_namespace (ra_record r)) (a_id (ra_record r))"

definition worker_fingerprint :: "worker_env \<Rightarrow> runnable_agent \<Rightarrow> string" where
  "worker_fingerprint env r =
     (let a = ra_record r
      in join_char (CHR ''|'')
           [a_prompt_version a, a_root a, a_provider a, a_model a, int_str (to_millis (a_updated a)), int_str (a_max_steps a),
            int_str (to_duration_millis (a_step_timeout a)), int_str (a_max_output a),
            int_str (to_duration_millis (a_lease_duration a)), a_base_url a, ra_prompt r, we_config env (a_config a),
            we_env_hash env (a_config a)])"

section \<open>One synchronisation\<close>

definition proc_of :: "manager \<Rightarrow> worker_handle \<Rightarrow> worker_proc" where
  "proc_of m h = mg_procs m ! wh_proc h"

definition reap_workers :: "manager \<Rightarrow> manager" where
  "reap_workers m = m\<lparr>mg_workers := filter (\<lambda>(k, h). \<not> wp_done (proc_of m h)) (mg_workers m)\<rparr>"

text \<open>A later agent with the same key replaces an earlier one.\<close>

definition desired_workers :: "runnable_agent list \<Rightarrow> (string \<times> runnable_agent) list" where
  "desired_workers rs = fold (\<lambda>r d. AList.update (agent_key r) r d) rs []"

definition cancel_worker :: "string \<Rightarrow> worker_handle \<Rightarrow> manager \<Rightarrow> manager" where
  "cancel_worker key h m =
     m\<lparr>mg_workers := AList.delete key (mg_workers m),
       mg_procs := (mg_procs m)[wh_proc h := (proc_of m h)\<lparr>wp_cancelled := True\<rparr>]\<rparr>"

definition worker_stale :: "worker_env \<Rightarrow> (string \<times> runnable_agent) list \<Rightarrow> string \<Rightarrow> worker_handle \<Rightarrow> bool" where
  "worker_stale env desired key h \<longleftrightarrow>
     (case map_of desired key of None \<Rightarrow> True | Some r \<Rightarrow> worker_fingerprint env r \<noteq> wh_fingerprint h)"

fun stop_stale ::
    "worker_env \<Rightarrow> (string \<times> runnable_agent) list \<Rightarrow> (string \<times> worker_handle) list \<Rightarrow> manager \<Rightarrow> manager" where
  "stop_stale env desired [] m = m"
| "stop_stale env desired ((key, h) # hs) m =
     stop_stale env desired hs (if worker_stale env desired key h then cancel_worker key h m else m)"

definition has_worker :: "string \<Rightarrow> string \<Rightarrow> manager \<Rightarrow> bool" where
  "has_worker key fp m \<longleftrightarrow>
     (case map_of (mg_workers m) key of None \<Rightarrow> False | Some h \<Rightarrow> wh_fingerprint h = fp)"

definition start_worker ::
    "worker_env \<Rightarrow> (runnable_agent \<Rightarrow> string option) \<Rightarrow> runnable_agent \<Rightarrow> manager \<Rightarrow> (string + unit) \<times> manager" where
  "start_worker env start r m =
     (case start r of
        Some e \<Rightarrow> (Inl e, m)
      | None \<Rightarrow>
          (Inr (),
           m\<lparr>mg_workers := AList.update (agent_key r)
                 \<lparr>wh_fingerprint = worker_fingerprint env r, wh_proc = length (mg_procs m)\<rparr> (mg_workers m),
             mg_procs := mg_procs m @
               [\<lparr>wp_namespace = a_namespace (ra_record r), wp_agent = a_id (ra_record r), wp_cancelled = False,
                 wp_done = False\<rparr>]\<rparr>))"

fun start_missing ::
    "worker_env \<Rightarrow> (runnable_agent \<Rightarrow> string option) \<Rightarrow> (string \<times> runnable_agent) list \<Rightarrow> manager \<Rightarrow> (string + unit) \<times> manager" where
  "start_missing env start [] m = (Inr (), m)"
| "start_missing env start ((key, r) # rs) m =
     (if has_worker key (worker_fingerprint env r) m then start_missing env start rs m
      else case start_worker env start r m of
        (Inl e, m1) \<Rightarrow> (Inl e, m1)
      | (Inr u, m1) \<Rightarrow> start_missing env start rs m1)"

text \<open>\<open>order\<close> is the order in which the map of desired workers is gone through.\<close>

definition sync_once ::
    "worker_env \<Rightarrow> (runnable_agent \<Rightarrow> string option) \<Rightarrow> ((string \<times> runnable_agent) list \<Rightarrow> (string \<times> runnable_agent) list) \<Rightarrow>
     store \<Rightarrow> manager \<Rightarrow> (string + unit) \<times> manager" where
  "sync_once env start order s m =
     (let m1 = reap_workers m; desired = desired_workers (list_runnable_agents s);
          m2 = stop_stale env desired (mg_workers m1) m1
      in start_missing env start (order desired) m2)"

text \<open>\<open>stopAll\<close> cancels every worker of the map and then waits until they are done.\<close>

fun cancel_all :: "(string \<times> worker_handle) list \<Rightarrow> manager \<Rightarrow> manager" where
  "cancel_all [] m = m"
| "cancel_all ((key, h) # hs) m = cancel_all hs (cancel_worker key h m)"

definition stop_all :: "manager \<Rightarrow> manager" where
  "stop_all m = cancel_all (mg_workers m) m"

definition stopped :: "(string \<times> worker_handle) list \<Rightarrow> manager \<Rightarrow> bool" where
  "stopped hs m \<longleftrightarrow> list_all (\<lambda>(k, h). wp_done (proc_of m h)) hs"

section \<open>Steps\<close>

text \<open>
  The manager synchronises and stops; a goroutine ends when it was cancelled or its queue or handlers fail.
\<close>

datatype manager_event =
    Synced "string + unit"
  | StopRequested
  | WorkerEnded nat

inductive manager_step :: "worker_env \<Rightarrow> manager_event \<Rightarrow> manager \<Rightarrow> manager \<Rightarrow> bool" for env where
  sync: "\<lbrakk>\<And>xs. mset (order xs) = mset xs; sync_once env start order s m = (r, m')\<rbrakk> \<Longrightarrow> manager_step env (Synced r) m m'"
| stop: "manager_step env StopRequested m (stop_all m)"
| ended: "\<lbrakk>i < length (mg_procs m); \<not> wp_done (mg_procs m ! i)\<rbrakk> \<Longrightarrow>
      manager_step env (WorkerEnded i) m (m\<lparr>mg_procs := (mg_procs m)[i := (mg_procs m ! i)\<lparr>wp_done := True\<rparr>]\<rparr>)"

definition new_manager :: manager where
  "new_manager = \<lparr>mg_workers = [], mg_procs = []\<rparr>"

end
