(* ===== verification/RuntimeManagerLaws.thy ===== *)
theory RuntimeManagerLaws
  imports RuntimeManager
begin

text \<open>
  The invariant of the runtime manager: a worker that was not cancelled is one the manager's map holds. A
  successful synchronisation makes the map agree with the runnable agents of the store.
\<close>

section \<open>The invariant\<close>

definition proc_key :: "worker_proc \<Rightarrow> string" where
  "proc_key p = worker_key (wp_namespace p) (wp_agent p)"

definition live_proc :: "worker_proc \<Rightarrow> bool" where
  "live_proc p \<longleftrightarrow> \<not> wp_cancelled p \<and> \<not> wp_done p"

definition handle_ok :: "manager \<Rightarrow> string \<times> worker_handle \<Rightarrow> bool" where
  "handle_ok m x \<longleftrightarrow> wh_proc (snd x) < length (mg_procs m) \<and> \<not> wp_cancelled (proc_of m (snd x)) \<and> fst x = proc_key (proc_of m (snd x))"

definition held :: "manager \<Rightarrow> nat \<Rightarrow> bool" where
  "held m i \<longleftrightarrow> list_ex (\<lambda>x. wh_proc (snd x) = i) (mg_workers m)"

definition manager_ok :: "manager \<Rightarrow> bool" where
  "manager_ok m \<longleftrightarrow>
     distinct (map fst (mg_workers m)) \<and> list_all (handle_ok m) (mg_workers m) \<and>
     (\<forall>i < length (mg_procs m). live_proc (mg_procs m ! i) \<longrightarrow> held m i)"

lemma manager_okD:
  assumes "manager_ok m"
  shows "distinct (map fst (mg_workers m))"
    and "x \<in> set (mg_workers m) \<Longrightarrow> handle_ok m x"
    and "\<lbrakk>i < length (mg_procs m); live_proc (mg_procs m ! i)\<rbrakk> \<Longrightarrow> \<exists>x \<in> set (mg_workers m). wh_proc (snd x) = i"
  using assms by (auto simp: manager_ok_def list_all_iff held_def list_ex_iff)

lemma manager_okI:
  assumes "distinct (map fst (mg_workers m))" "\<And>x. x \<in> set (mg_workers m) \<Longrightarrow> handle_ok m x"
    and "\<And>i. \<lbrakk>i < length (mg_procs m); live_proc (mg_procs m ! i)\<rbrakk> \<Longrightarrow> \<exists>x \<in> set (mg_workers m). wh_proc (snd x) = i"
  shows "manager_ok m"
  using assms by (auto simp: manager_ok_def list_all_iff held_def list_ex_iff)

lemma new_manager_ok: "manager_ok new_manager"
  by (simp add: manager_ok_def new_manager_def)

text \<open>Two handles of one worker are one handle.\<close>

lemma handle_unique:
  assumes ok: "manager_ok m" and x: "x \<in> set (mg_workers m)" "y \<in> set (mg_workers m)" "wh_proc (snd x) = wh_proc (snd y)"
  shows "x = y"
proof -
  have "fst x = fst y" using manager_okD(2) [OF ok x(1)] manager_okD(2) [OF ok x(2)] x(3) by (simp add: handle_ok_def proc_of_def)
  then show ?thesis using manager_okD(1) [OF ok] x(1,2) by (metis eq_key_imp_eq_value prod.collapse)
qed

lemma reap_ok:
  assumes ok: "manager_ok m"
  shows "manager_ok (reap_workers m)"
proof (rule manager_okI)
  show "distinct (map fst (mg_workers (reap_workers m)))"
    using manager_okD(1) [OF ok] by (simp add: reap_workers_def distinct_map_filter)
  show "handle_ok (reap_workers m) x" if "x \<in> set (mg_workers (reap_workers m))" for x
    using that manager_okD(2) [OF ok] by (auto simp: reap_workers_def handle_ok_def proc_of_def)
  show "\<exists>x \<in> set (mg_workers (reap_workers m)). wh_proc (snd x) = i"
    if "i < length (mg_procs (reap_workers m))" "live_proc (mg_procs (reap_workers m) ! i)" for i
    using that manager_okD(3) [OF ok, of i] by (fastforce simp: reap_workers_def live_proc_def proc_of_def)
qed

lemma cancel_workers: "set (mg_workers (cancel_worker k h m)) = {x \<in> set (mg_workers m). fst x \<noteq> k}"
  by (auto simp: cancel_worker_def AList.delete_eq)

lemma cancel_ok:
  assumes ok: "manager_ok m" and x: "(k, h) \<in> set (mg_workers m)"
  shows "manager_ok (cancel_worker k h m)"
proof (rule manager_okI)
  show "distinct (map fst (mg_workers (cancel_worker k h m)))"
    using manager_okD(1) [OF ok] by (simp add: cancel_worker_def distinct_delete)
  have other: "wh_proc (snd y) \<noteq> wh_proc h" if "y \<in> set (mg_workers m)" "fst y \<noteq> k" for y
    using handle_unique [OF ok that(1) x] that(2) by auto
  show "handle_ok (cancel_worker k h m) y" if "y \<in> set (mg_workers (cancel_worker k h m))" for y
  proof -
    have y: "y \<in> set (mg_workers m)" "fst y \<noteq> k" using that by (auto simp: cancel_workers)
    show ?thesis using manager_okD(2) [OF ok y(1)] other [OF y] by (simp add: handle_ok_def proc_of_def cancel_worker_def)
  qed
  show "\<exists>y \<in> set (mg_workers (cancel_worker k h m)). wh_proc (snd y) = i"
    if i: "i < length (mg_procs (cancel_worker k h m))" "live_proc (mg_procs (cancel_worker k h m) ! i)" for i
  proof -
    have ne: "i \<noteq> wh_proc h" using i by (auto simp: cancel_worker_def live_proc_def)
    then obtain y where "y \<in> set (mg_workers m)" "wh_proc (snd y) = i"
      using manager_okD(3) [OF ok, of i] i by (auto simp: cancel_worker_def)
    moreover from this ne have "fst y \<noteq> k"
      using manager_okD(1) [OF ok] x by (metis eq_key_imp_eq_value prod.collapse snd_conv)
    ultimately show ?thesis by (intro bexI [of _ y]) (simp_all add: cancel_workers)
  qed
qed

lemma cancel_all_ok:
  "\<lbrakk>manager_ok m; set hs \<subseteq> set (mg_workers m); distinct (map fst hs)\<rbrakk> \<Longrightarrow>
     manager_ok (cancel_all hs m) \<and> set (mg_workers (cancel_all hs m)) = set (mg_workers m) - set hs"
proof (induction hs m rule: cancel_all.induct)
  case (2 key h hs m)
  have x: "(key, h) \<in> set (mg_workers m)" using 2(3) by simp
  have ok: "manager_ok (cancel_worker key h m)" by (rule cancel_ok [OF 2(2) x])
  have only: "fst y = key \<longleftrightarrow> y = (key, h)" if "y \<in> set (mg_workers m)" for y
    using manager_okD(1) [OF 2(2)] x that by (metis eq_key_imp_eq_value prod.collapse fst_conv)
  have ws: "set (mg_workers (cancel_worker key h m)) = set (mg_workers m) - {(key, h)}"
    using only by (auto simp: cancel_workers)
  have "set hs \<subseteq> set (mg_workers (cancel_worker key h m))" using 2(3,4) ws by force
  with 2(1) [OF ok] 2(4) ws show ?case by auto
qed simp

lemma stop_stale_ok:
  "\<lbrakk>manager_ok m; set hs \<subseteq> set (mg_workers m); distinct (map fst hs)\<rbrakk> \<Longrightarrow>
     manager_ok (stop_stale env desired hs m) \<and>
     set (mg_workers (stop_stale env desired hs m)) = set (mg_workers m) - {x \<in> set hs. worker_stale env desired (fst x) (snd x)}"
proof (induction env desired hs m rule: stop_stale.induct)
  case (2 env desired key h hs m)
  show ?case
  proof (cases "worker_stale env desired key h")
    case True
    have x: "(key, h) \<in> set (mg_workers m)" using 2(3) by simp
    have ok: "manager_ok (cancel_worker key h m)" by (rule cancel_ok [OF 2(2) x])
    have only: "fst y = key \<longleftrightarrow> y = (key, h)" if "y \<in> set (mg_workers m)" for y
      using manager_okD(1) [OF 2(2)] x that by (metis eq_key_imp_eq_value prod.collapse fst_conv)
    have ws: "set (mg_workers (cancel_worker key h m)) = set (mg_workers m) - {(key, h)}"
      using only by (auto simp: cancel_workers)
    have "set hs \<subseteq> set (mg_workers (cancel_worker key h m))" using 2(3,4) ws by force
    with 2(1) 2(4) ok ws True show ?thesis by auto
  next
    case False
    with 2 show ?thesis by auto
  qed
qed simp

text \<open>No held worker is done.\<close>

definition undone :: "manager \<Rightarrow> bool" where
  "undone m \<longleftrightarrow> list_all (\<lambda>x. \<not> wp_done (proc_of m (snd x))) (mg_workers m)"

lemma reap_undone: "undone (reap_workers m)"
  by (auto simp: undone_def list_all_iff reap_workers_def proc_of_def)

lemma cancel_undone:
  assumes "undone m"
  shows "undone (cancel_worker k h m)"
proof -
  have "wp_done (proc_of (cancel_worker k h m) x) = wp_done (proc_of m x)" for x
    by (cases "wh_proc h < length (mg_procs m)") (simp_all add: proc_of_def cancel_worker_def nth_list_update list_update_beyond)
  then show ?thesis using assms by (auto simp: undone_def list_all_iff cancel_workers)
qed

lemma stop_stale_undone: "undone m \<Longrightarrow> undone (stop_stale env desired hs m)"
  by (induction env desired hs m rule: stop_stale.induct) (simp_all add: cancel_undone)

section \<open>Starting workers\<close>

lemma start_worker_ok:
  assumes ok: "manager_ok m" and free: "map_of (mg_workers m) (agent_key r) = None" and s: "start_worker env start r m = (Inr u, m1)"
  shows "manager_ok m1 \<and> (undone m \<longrightarrow> undone m1) \<and> set (mg_workers m1) =
    insert (agent_key r, \<lparr>wh_fingerprint = worker_fingerprint env r, wh_proc = length (mg_procs m)\<rparr>) (set (mg_workers m))"
proof -
  let ?h = "\<lparr>wh_fingerprint = worker_fingerprint env r, wh_proc = length (mg_procs m)\<rparr>"
  have m1: "m1 = m\<lparr>mg_workers := AList.update (agent_key r) ?h (mg_workers m),
      mg_procs := mg_procs m @ [\<lparr>wp_namespace = a_namespace (ra_record r), wp_agent = a_id (ra_record r), wp_cancelled = False,
                 wp_done = False\<rparr>]\<rparr>"
    using s by (auto simp: start_worker_def split: option.splits)
  have "AList.update k h xs = xs @ [(k, h)]" if "map_of xs k = None" for k and h :: worker_handle and xs
    using that by (induction xs) (auto split: if_splits)
  then have ws: "mg_workers m1 = mg_workers m @ [(agent_key r, ?h)]" using free m1 by simp
  have ps: "mg_procs m1 = mg_procs m @ [\<lparr>wp_namespace = a_namespace (ra_record r), wp_agent = a_id (ra_record r),
      wp_cancelled = False, wp_done = False\<rparr>]" by (simp add: m1)
  have "agent_key r \<notin> fst ` set (mg_workers m)" using free by (simp add: map_of_eq_None_iff)
  then have "distinct (map fst (mg_workers m1))" using manager_okD(1) [OF ok] ws by simp
  moreover have "handle_ok m1 x" if "x \<in> set (mg_workers m1)" for x
    using that manager_okD(2) [OF ok, of x] by (auto simp: ws ps handle_ok_def proc_of_def nth_append proc_key_def agent_key_def)
  moreover have "\<exists>x \<in> set (mg_workers m1). wh_proc (snd x) = i"
    if "i < length (mg_procs m1)" "live_proc (mg_procs m1 ! i)" for i
    using that manager_okD(3) [OF ok, of i] by (auto simp: ws ps nth_append less_Suc_eq split: if_splits)
  ultimately have "manager_ok m1" by (rule manager_okI)
  moreover have "undone m \<longrightarrow> undone m1"
    using manager_okD(2) [OF ok] by (auto simp: undone_def list_all_iff ws ps proc_of_def nth_append handle_ok_def)
  ultimately show ?thesis using ws by auto
qed

text \<open>Every worker of the map belongs to a desired agent and has its fingerprint.\<close>

definition fresh :: "worker_env \<Rightarrow> (string \<times> runnable_agent) list \<Rightarrow> manager \<Rightarrow> bool" where
  "fresh env desired m \<longleftrightarrow>
     (\<forall>x \<in> set (mg_workers m). \<exists>r. map_of desired (fst x) = Some r \<and> wh_fingerprint (snd x) = worker_fingerprint env r)"

lemma start_missing_ok:
  "\<lbrakk>manager_ok m; fresh env desired m; set rs \<subseteq> set desired; distinct (map fst desired);
    \<forall>x \<in> set desired. fst x = agent_key (snd x)\<rbrakk> \<Longrightarrow>
   manager_ok (snd (start_missing env start rs m)) \<and> (undone m \<longrightarrow> undone (snd (start_missing env start rs m))) \<and>
   fresh env desired (snd (start_missing env start rs m)) \<and>
   set (mg_workers m) \<subseteq> set (mg_workers (snd (start_missing env start rs m))) \<and>
   (fst (start_missing env start rs m) = Inr () \<longrightarrow>
      fst ` set rs \<subseteq> fst ` set (mg_workers (snd (start_missing env start rs m))))"
proof (induction env start rs m rule: start_missing.induct)
  case (2 env start key r rs m)
  have r: "map_of desired key = Some r" "agent_key r = key" using 2(5,6,7) by auto
  show ?case
  proof (cases "has_worker key (worker_fingerprint env r) m")
    case True
    then obtain h where "map_of (mg_workers m) key = Some h" by (auto simp: has_worker_def split: option.splits)
    then have "key \<in> fst ` set (mg_workers m)" by (metis fst_conv image_eqI map_of_SomeD)
    with 2(1) [OF True 2(3,4) _ 2(6,7)] 2(5) True show ?thesis by auto
  next
    case False
    have free: "map_of (mg_workers m) (agent_key r) = None"
    proof (rule ccontr)
      assume "map_of (mg_workers m) (agent_key r) \<noteq> None"
      then obtain h where h: "map_of (mg_workers m) key = Some h" using r(2) by auto
      then have "(key, h) \<in> set (mg_workers m)" by (rule map_of_SomeD)
      then have "wh_fingerprint h = worker_fingerprint env r" using 2(4) r(1) by (auto simp: fresh_def)
      with False h show False by (simp add: has_worker_def)
    qed
    obtain x m1 where s: "start_worker env start r m = (x, m1)" by (cases "start_worker env start r m")
    show ?thesis
    proof (cases x)
      case (Inl e)
      then have "m1 = m" using s by (auto simp: start_worker_def split: option.splits)
      then show ?thesis using False s Inl 2(3,4) by simp
    next
      case (Inr u)
      note S = start_worker_ok [OF 2(3) free s [unfolded Inr]]
      have f1: "fresh env desired m1" using S 2(4) r by (auto simp: fresh_def)
      have "set rs \<subseteq> set desired" using 2(5) by simp
      note IH = 2(2) [OF False s [symmetric] Inr _ f1 this 2(6,7)]
      have st: "start_missing env start ((key, r) # rs) m = start_missing env start rs m1" using False s Inr by simp
      have "key \<in> fst ` set (mg_workers m1)" using S r(2) by simp
      then have "key \<in> fst ` set (mg_workers (snd (start_missing env start rs m1)))" using IH S by blast
      then show ?thesis unfolding st using IH S by auto
    qed
  qed
qed simp

lemma start_missing_all:
  assumes "\<And>r. start r = None"
  shows "fst (start_missing env start rs m) = Inr ()"
  using assms by (induction env start rs m rule: start_missing.induct) (auto simp: start_worker_def split: sum.splits prod.splits)

section \<open>A synchronisation\<close>

lemma ball_subset: "\<lbrakk>A \<subseteq> B; \<forall>x \<in> B. P x\<rbrakk> \<Longrightarrow> \<forall>x \<in> A. P x"
  by blast

lemma desired_keys:
  "\<lbrakk>distinct (map fst d); \<forall>x \<in> set d. fst x = agent_key (snd x)\<rbrakk> \<Longrightarrow>
   distinct (map fst (fold (\<lambda>r d. AList.update (agent_key r) r d) rs d)) \<and>
   (\<forall>x \<in> set (fold (\<lambda>r d. AList.update (agent_key r) r d) rs d). fst x = agent_key (snd x))"
proof (induction rs arbitrary: d)
  case (Cons r rs)
  have "set (AList.update k v xs) \<subseteq> insert (k, v) (set xs)" for k and v :: runnable_agent and xs
    by (induction xs) auto
  then have "set (AList.update (agent_key r) r d) \<subseteq> insert (agent_key r, r) (set d)" .
  moreover have "\<forall>x \<in> insert (agent_key r, r) (set d). fst x = agent_key (snd x)" using Cons(3) by simp
  ultimately have "\<forall>x \<in> set (AList.update (agent_key r) r d). fst x = agent_key (snd x)" by (rule ball_subset)
  from Cons.IH [OF distinct_update [OF Cons(2)] this] show ?case unfolding fold_simps .
qed simp

lemma desired_ok:
  "distinct (map fst (desired_workers rs))" "\<forall>x \<in> set (desired_workers rs). fst x = agent_key (snd x)"
  using desired_keys [of "[]" rs] by (auto simp: desired_workers_def)

lemma desired_all: "fst ` set (desired_workers rs) = agent_key ` set rs"
proof -
  have "fst ` set (fold (\<lambda>r d. AList.update (agent_key r) r d) rs d) = fst ` set d \<union> agent_key ` set rs" for d
    by (induction rs arbitrary: d) (auto simp: dom_update)
  then show ?thesis by (simp add: desired_workers_def)
qed

lemma sync_once_ok:
  assumes ok: "manager_ok m" and order: "\<And>xs. mset (order xs) = mset xs" and s: "sync_once env start order s m = (r, m')"
  shows "manager_ok m'" and "fresh env (desired_workers (list_runnable_agents s)) m'"
    and "undone m'" and "r = Inr () \<Longrightarrow> fst ` set (mg_workers m') = fst ` set (desired_workers (list_runnable_agents s))"
proof -
  let ?d = "desired_workers (list_runnable_agents s)" and ?m1 = "reap_workers m"
  let ?m2 = "stop_stale env ?d (mg_workers ?m1) ?m1"
  have ok1: "manager_ok ?m1" by (rule reap_ok [OF ok])
  note S = stop_stale_ok [OF ok1 order_refl manager_okD(1) [OF ok1], of env ?d]
  have f2: "fresh env ?d ?m2" using S by (auto simp: fresh_def worker_stale_def split: option.splits)
  have "set (order ?d) \<subseteq> set ?d" using order [of ?d] by (metis set_mset_mset order_refl)
  note M = start_missing_ok [OF conjunct1 [OF S] f2 this desired_ok, of start]
  have m': "start_missing env start (order ?d) ?m2 = (r, m')" using s by (simp add: sync_once_def Let_def)
  show "manager_ok m'" "fresh env ?d m'" using M m' by auto
  show "undone m'" using M m' stop_stale_undone [OF reap_undone] by simp
  show "fst ` set (mg_workers m') = fst ` set ?d" if "r = Inr ()"
  proof
    show "fst ` set ?d \<subseteq> fst ` set (mg_workers m')"
      using M m' that order [of ?d] by (metis fst_conv set_mset_mset snd_conv)
    show "fst ` set (mg_workers m') \<subseteq> fst ` set ?d"
      using \<open>fresh env ?d m'\<close> by (force simp: fresh_def dest: map_of_SomeD)
  qed
qed

lemma desired_agents: "x \<in> set (desired_workers rs) \<Longrightarrow> snd x \<in> set rs"
proof -
  have u: "snd ` set (AList.update k v d) \<subseteq> insert v (snd ` set d)" for k and v :: runnable_agent and d
    by (induction d) auto
  have "snd ` set (fold (\<lambda>r d. AList.update (agent_key r) r d) rs d) \<subseteq> snd ` set d \<union> set rs" for d
  proof (induction rs arbitrary: d)
    case (Cons r rs)
    have "snd ` set (fold (\<lambda>r d. AList.update (agent_key r) r d) (r # rs) d) \<subseteq> snd ` set (AList.update (agent_key r) r d) \<union> set rs"
      unfolding fold_simps by (rule Cons.IH)
    also have "\<dots> \<subseteq> insert r (snd ` set d) \<union> set rs" by (rule Un_mono [OF u order_refl])
    finally show ?case by simp
  qed simp
  then show "x \<in> set (desired_workers rs) \<Longrightarrow> snd x \<in> set rs" by (force simp: desired_workers_def)
qed

lemma fresh_agents:
  assumes "fresh env (desired_workers rs) m" "x \<in> set (mg_workers m)"
  shows "\<exists>r \<in> set rs. fst x = agent_key r \<and> wh_fingerprint (snd x) = worker_fingerprint env r"
proof -
  obtain r where r: "map_of (desired_workers rs) (fst x) = Some r" "wh_fingerprint (snd x) = worker_fingerprint env r"
    using assms by (auto simp: fresh_def)
  then have d: "(fst x, r) \<in> set (desired_workers rs)" by (auto dest: map_of_SomeD)
  show ?thesis using desired_agents [OF d] desired_ok(2) d r(2) by force
qed

text \<open>After a synchronisation every key of a runnable agent has one worker that runs, and no other runs.\<close>

lemma synced_workers:
  assumes ok: "manager_ok m" and order: "\<And>xs. mset (order xs) = mset xs" and s: "sync_once env start order s m = (Inr (), m')"
  shows "(\<forall>k. k \<in> agent_key ` set (list_runnable_agents s) \<longleftrightarrow>
              (\<exists>i < length (mg_procs m'). live_proc (mg_procs m' ! i) \<and> proc_key (mg_procs m' ! i) = k)) \<and>
    (\<forall>i j. i < length (mg_procs m') \<and> j < length (mg_procs m') \<and> live_proc (mg_procs m' ! i) \<and> live_proc (mg_procs m' ! j) \<and>
           proc_key (mg_procs m' ! i) = proc_key (mg_procs m' ! j) \<longrightarrow> i = j)"
proof -
  note S = sync_once_ok [OF ok order s]
  have keys: "fst ` set (mg_workers m') = agent_key ` set (list_runnable_agents s)" using S(4) desired_all by simp
  have live: "wh_proc (snd x) < length (mg_procs m') \<and> live_proc (mg_procs m' ! wh_proc (snd x)) \<and>
      proc_key (mg_procs m' ! wh_proc (snd x)) = fst x" if "x \<in> set (mg_workers m')" for x
    using manager_okD(2) [OF S(1) that] S(3) that by (simp add: handle_ok_def undone_def list_all_iff live_proc_def proc_of_def)
  have held: "\<exists>x \<in> set (mg_workers m'). wh_proc (snd x) = i" if "i < length (mg_procs m')" "live_proc (mg_procs m' ! i)" for i
    by (rule manager_okD(3) [OF S(1) that])
  have "k \<in> agent_key ` set (list_runnable_agents s) \<longleftrightarrow>
      (\<exists>i < length (mg_procs m'). live_proc (mg_procs m' ! i) \<and> proc_key (mg_procs m' ! i) = k)" for k
    unfolding keys [symmetric] using live held by (metis (no_types, lifting) image_iff)
  moreover have "i = j" if i: "i < length (mg_procs m')" "live_proc (mg_procs m' ! i)"
      and j: "j < length (mg_procs m')" "live_proc (mg_procs m' ! j)"
      and k: "proc_key (mg_procs m' ! i) = proc_key (mg_procs m' ! j)" for i j
  proof -
    obtain x y where xy: "x \<in> set (mg_workers m')" "wh_proc (snd x) = i" "y \<in> set (mg_workers m')" "wh_proc (snd y) = j"
      using held i j by blast
    then have "fst x = fst y" using live k by metis
    then have "x = y" using manager_okD(1) [OF S(1)] xy(1,3) by (metis eq_key_imp_eq_value prod.collapse)
    then show ?thesis using xy(2,4) by simp
  qed
  ultimately show ?thesis by blast
qed

lemma ended_ok:
  assumes ok: "manager_ok m" and i: "i < length (mg_procs m)"
  shows "manager_ok (m\<lparr>mg_procs := (mg_procs m)[i := (mg_procs m ! i)\<lparr>wp_done := True\<rparr>]\<rparr>)"
proof (rule manager_okI)
  let ?m = "m\<lparr>mg_procs := (mg_procs m)[i := (mg_procs m ! i)\<lparr>wp_done := True\<rparr>]\<rparr>"
  show "distinct (map fst (mg_workers ?m))" using manager_okD(1) [OF ok] by simp
  show "handle_ok ?m x" if "x \<in> set (mg_workers ?m)" for x
    using that i manager_okD(2) [OF ok, of x] by (auto simp: handle_ok_def proc_of_def nth_list_update proc_key_def)
  show "\<exists>x \<in> set (mg_workers ?m). wh_proc (snd x) = j" if "j < length (mg_procs ?m)" "live_proc (mg_procs ?m ! j)" for j
    using that i manager_okD(3) [OF ok, of j] by (auto simp: nth_list_update live_proc_def split: if_splits)
qed

lemma manager_step_ok: "\<lbrakk>manager_step env e m m'; manager_ok m\<rbrakk> \<Longrightarrow> manager_ok m'"
proof (induction rule: manager_step.induct)
  case (stop m)
  then show ?case using cancel_all_ok [OF _ order_refl manager_okD(1)] by (simp add: stop_all_def)
qed (auto intro: sync_once_ok(1) ended_ok)

interpretation managers: invariant_system "manager_step env" manager_ok for env
  by unfold_locales (rule manager_step_ok)

end
