(* ===== verification/RunDirLaws.thy ===== *)
theory RunDirLaws
  imports CaptureLaws
begin

text \<open>
  The directory a run spills into is empty when the run begins: what \<open>RemoveAll\<close> leaves of a path and what
  \<open>MkdirAll\<close> makes of the rest, for paths whose directories are no links.
\<close>

section \<open>Paths without links\<close>

text \<open>As far as the path exists, none of its elements is a link.\<close>

fun no_links :: "memfs \<Rightarrow> nat \<Rightarrow> string list \<Rightarrow> bool" where
  "no_links f i [] \<longleftrightarrow> True"
| "no_links f i (p # ps) \<longleftrightarrow>
     (case child_of f i p of None \<Rightarrow> True | Some c \<Rightarrow> nd_kind (node_of f c) \<noteq> NodeSymlink \<and> no_links f c ps)"

lemma no_links_end: "no_links f i ps \<Longrightarrow> nd_kind (node_of f i) \<noteq> NodeSymlink \<Longrightarrow> plain_walk f i ps = Some c \<Longrightarrow>
    nd_kind (node_of f c) \<noteq> NodeSymlink"
  by (induction ps arbitrary: i) (auto split: option.splits)

lemma no_links_snoc: "no_links f i ps \<Longrightarrow> plain_walk f i (ps @ [b]) = None \<Longrightarrow> no_links f i (ps @ [b])"
  by (induction ps arbitrary: i) (auto split: option.splits)

lemma smaller_gone: "smaller f g \<Longrightarrow> child_of f i n = None \<Longrightarrow> child_of g i n = None"
  unfolding smaller_def by metis

lemma smaller_no_links: "smaller f g \<Longrightarrow> no_links f i ps \<Longrightarrow> no_links g i ps"
proof (induction ps arbitrary: i)
  case (Cons p ps)
  from Cons.prems(1) have "child_of g i p = child_of f i p \<or> child_of g i p = None"
    "nd_kind (node_of g c) = nd_kind (node_of f c)" for c by (simp_all add: smaller_def)
  with Cons show ?case by (auto split: option.splits)
qed simp

lemma smaller_walk: "smaller f g \<Longrightarrow> plain_walk g i ps = Some c \<Longrightarrow> plain_walk f i ps = Some c"
proof (induction ps arbitrary: i)
  case (Cons p ps)
  then obtain d where d: "child_of g i p = Some d" "plain_walk g d ps = Some c" by (auto split: option.splits)
  moreover from Cons.prems(1) have "child_of g i p = child_of f i p \<or> child_of g i p = None" by (simp add: smaller_def)
  with d(1) have "child_of f i p = Some d" by auto
  ultimately show ?case using Cons by simp
qed simp

section \<open>Removing a path\<close>

lemma remove_all_smaller:
  assumes "remove_all name f = (r, g)" "resolve_path f (mf_root f) name = Inr p" "p \<noteq> mf_root f"
  shows "smaller f g"
proof -
  have "smaller f (discard_tree k c (remove_child i n f))" for k c i n
    by (rule smaller_trans [OF smaller_remove discard_child])
  with assms show ?thesis by (auto simp: remove_all_def split: sum.splits prod.splits option.splits if_splits)
qed

lemma remove_all_gone:
  assumes ok: "fs_ok f" and names: "list_all proper_name (ns @ [b])" and plain: "no_links f root_ino ns"
    and r: "remove_all (path_string (mf_root f @ ns @ [b])) f = (Inr (), g)"
  shows "fs_ok g \<and> smaller f g \<and> no_links g root_ino (ns @ [b]) \<and> plain_walk g root_ino (ns @ [b]) = None"
proof -
  let ?p = "mf_root f @ ns @ [b]"
  have p: "resolve_path f (mf_root f) (path_string ?p) = Inr ?p"
    by (rule resolve_path_string) (use fs_ok_root [OF ok] names in simp_all)
  have s: "smaller f g" by (rule remove_all_smaller [OF r p]) simp
  have gone: "plain_walk g root_ino (ns @ [b]) = None"
  proof (cases "plain_walk f root_ino ns")
    case None
    then have "plain_walk g root_ino ns = None" using smaller_walk [OF s] by (metis not_None_eq)
    then show ?thesis by (simp add: plain_walk_append)
  next
    case (Some par)
    have "nd_kind (node_of f par) \<noteq> NodeSymlink"
      using no_links_end [OF plain _ Some] fs_ok_root [OF ok] by simp
    then have "lookup_path f True (mf_root f @ ns) = Inr (par, mf_root f @ ns)"
      using walk_of_plain [OF ok Some, of True] fs_ok_root [OF ok] by (simp add: lookup_path_def)
    then have l: "lookup_parent f ?p =
        (if nd_kind (node_of f par) \<noteq> NodeDirectory then Inl FsNotDirectory else Inr (par, mf_root f @ ns, b))"
      by (simp add: lookup_parent_def path_base_def butlast_append)
    then have "nd_kind (node_of f par) = NodeDirectory" using r p by (auto simp: remove_all_def split: if_splits)
    with l r p have g: "g = (case child_of f par b of None \<Rightarrow> f | Some c \<Rightarrow> discard_tree (mf_next f) c (remove_child par b f))"
      by (auto simp: remove_all_def split: option.splits)
    have "child_of g par b = None"
    proof (cases "child_of f par b")
      case (Some c)
      have "child_of (discard_tree (mf_next f) c (remove_child par b f)) par b = None"
        by (rule smaller_gone [OF discard_child]) (simp add: child_of_remove)
      with Some show ?thesis by (simp add: g)
    qed (simp add: g)
    then show ?thesis
      using smaller_walk [OF s, of root_ino ns] Some by (auto simp: plain_walk_append split: option.splits)
  qed
  have "fs_ok g" using remove_all_ok [OF ok, of "path_string ?p"] r by simp
  with s gone no_links_snoc [OF smaller_no_links [OF s plain] gone] show ?thesis by blast
qed

section \<open>Making it again\<close>

lemma fresh_walk: "nd_children (node_of f i) = [] \<Longrightarrow> ps \<noteq> [] \<Longrightarrow> plain_walk f i ps = None \<and> no_links f i ps"
  by (cases ps) (simp_all add: child_of_def)

lemma mkdir_parts_fresh:
  "\<lbrakk>fs_ok f; cur < mf_next f; nd_kind (node_of f cur) = NodeDirectory; list_all proper_name ps; no_links f cur ps;
    plain_walk f cur ps = None; mkdir_parts perm now cur here ps f = (Inr (), h)\<rbrakk> \<Longrightarrow>
     \<exists>n. plain_walk h cur ps = Some n \<and> nd_kind (node_of h n) = NodeDirectory \<and> nd_children (node_of h n) = []"
proof (induction perm now cur here ps f rule: mkdir_parts.induct)
  case (2 perm now cur here p ps f)
  note ok = 2(4) and cur = 2(5)
  show ?case
  proof (cases "child_of f cur p")
    case None
    obtain i f1 where n: "new_node NodeDirectory (mode_dir OR perm_bits perm) now f = (i, f1)"
      by (cases "new_node NodeDirectory (mode_dir OR perm_bits perm) now f")
    note N = new_node_fields [OF n]
    let ?f2 = "add_child cur p i f1"
    have ok2: "fs_ok ?f2" using insert_node_ok [OF ok n, of f1] 2(5-7) by simp
    have i: "i < mf_next ?f2" "nd_kind (node_of ?f2 i) = NodeDirectory" "cur < mf_next ?f2" "i \<noteq> cur"
      using N(1,2,6) cur by simp_all
    have ch: "nd_children (node_of ?f2 i) = []" using N(7) i(4) by (simp add: children_add)
    have m: "mkdir_parts perm now i (here @ [p]) ps ?f2 = (Inr (), h)" using 2(10) None n by simp
    have names: "list_all proper_name ps" using 2(7) by simp
    have "child_of h cur p = Some i"
      using extendsD(3) [OF conjunct1 [OF mkdir_parts_again [OF ok2 i(1,2) names m]] i(3), of p i]
      by (simp add: child_of_add)
    moreover have "\<exists>n. plain_walk h i ps = Some n \<and> nd_kind (node_of h n) = NodeDirectory \<and> nd_children (node_of h n) = []"
    proof (cases "ps = []")
      case True
      then show ?thesis using m i(2) ch by simp
    next
      case False
      note w = fresh_walk [OF ch False]
      show ?thesis
        by (rule 2(1) [OF None n [symmetric] ok2 i(1,2) names conjunct2 [OF w] conjunct1 [OF w] m])
    qed
    ultimately show ?thesis by simp
  next
    case (Some c)
    have c: "c < mf_next f" using fs_ok_child [OF ok cur Some] by simp
    have nl: "nd_kind (node_of f c) \<noteq> NodeSymlink" "no_links f c ps" "plain_walk f c ps = None"
      using 2(8,9) Some by simp_all
    have d: "nd_kind (node_of f c) = NodeDirectory" using 2(10) Some nl(1) by (auto split: if_splits)
    have m: "mkdir_parts perm now c (here @ [p]) ps f = (Inr (), h)" using 2(10) Some nl(1) d by simp
    have "child_of h cur p = Some c"
      using extendsD(3) [OF conjunct1 [OF mkdir_parts_again [OF ok cur 2(6,7,10)]] cur Some] .
    moreover have "\<exists>n. plain_walk h c ps = Some n \<and> nd_kind (node_of h n) = NodeDirectory \<and> nd_children (node_of h n) = []"
      by (rule 2(3) [OF Some nl(1) _ ok c d _ nl(2,3) m]) (use d 2(7) in simp_all)
    ultimately show ?thesis by simp
  qed
qed simp

lemma mkdir_all_fresh:
  assumes ok: "fs_ok f" and names: "list_all proper_name ns" and plain: "no_links f root_ino ns"
    and none: "plain_walk f root_ino ns = None"
    and m: "mkdir_all (path_string (mf_root f @ ns)) perm now f = (Inr (), h)"
  shows "read_dir (path_string (mf_root f @ ns)) h = Inr []"
proof -
  let ?p = "mf_root f @ ns"
  note root = fs_ok_root [OF ok]
  have p: "resolve_path f (mf_root f) (path_string ?p) = Inr ?p"
    by (rule resolve_path_string) (use root names in simp_all)
  have parts: "mkdir_parts perm now root_ino (mf_root f) ns f = (Inr (), h)" using m p by (simp add: mkdir_all_def)
  have r: "root_ino < mf_next f" "nd_kind (node_of f root_ino) = NodeDirectory" using root by simp_all
  obtain n where n: "plain_walk h root_ino ns = Some n" "nd_kind (node_of h n) = NodeDirectory" "nd_children (node_of h n) = []"
    using mkdir_parts_fresh [OF ok r names plain none parts] by blast
  have e: "extends f h" using mkdir_parts_again [OF ok r names parts] by blast
  have okh: "fs_ok h" using mkdir_all_ok [OF ok, of "path_string ?p" perm now] m by simp
  have "resolve_path h (mf_root h) (path_string ?p) = Inr ?p" using p extends_resolve [OF e] extends_root [OF e] by simp
  moreover have "lookup_path h True ?p = Inr (n, ?p)"
    using walk_of_plain [OF okh n(1), of True] n(2) fs_ok_root [OF okh] extends_root [OF e] by (simp add: lookup_path_def)
  ultimately show ?thesis using n(2,3) by (simp add: read_dir_def dir_entries_def)
qed

section \<open>The directory of a run\<close>

lemma begun_run_empty:
  assumes ok: "fs_ok f" and sp: "sp_base sp = output_spill_base_dir f"
    and plain: "no_links f root_ino [''.tmp'', ''tool-outputs'']"
    and id: "derive_run_output_id sprint now tg \<notin> {''.'', ''..''}"
    and b: "begin_run_spill_dir sprint now tg sp f = (Inr previous, sp', f')"
  shows "read_dir (sp_run sp') f' = Inr []"
proof -
  let ?id = "derive_run_output_id sprint now tg"
  let ?ns = "[''.tmp'', ''tool-outputs'']"
  note D = run_dir_inside [OF ok id]
  have dir: "path_join (sp_base sp) ?id = path_string (mf_root f @ ?ns @ [?id])"
    using D by (simp add: sp temp_dir_elems)
  obtain g where g: "remove_all (path_string (mf_root f @ ?ns @ [?id])) f = (Inr (), g)"
      "mkdir_all (path_string (mf_root f @ ?ns @ [?id])) 493 now g = (Inr (), f')"
    and run: "sp_run sp' = path_string (mf_root f @ ?ns @ [?id])"
    using b unfolding begin_run_spill_dir_def Let_def dir by (auto split: sum.splits prod.splits)
  have names: "list_all proper_name (?ns @ [?id])" using D tmp_proper by simp
  note R = remove_all_gone [OF ok names plain g(1)]
  have "mf_root g = mf_root f" using R by (simp add: smaller_def)
  then show ?thesis using mkdir_all_fresh [of g "?ns @ [?id]" 493 now f'] R names g(2) run by simp
qed

end
