(* ===== verification/RunSamples.thy ===== *)
theory RunSamples
  imports Samples FileSamples CompactionLaws RuntimeManagerLaws RunDirLaws
begin

text \<open>
  A captured output on the sample file system, a run's spill directory and a manager whose worker runs the
  agent of the sample store.
\<close>

section \<open>Captured output\<close>

definition sample_spill :: capture_spill where
  "sample_spill = \<lparr>cs_path = ''/srv/cur/out/log.txt'', cs_mime = ''text/plain'', cs_description = ''log''\<rparr>"

definition sample_writes :: "(string \<times> go_time) list" where
  "sample_writes = [(''ab'', 5), ([], 6), (''cdef'', 7)]"

definition sample_capture :: "(fs_error + unit) \<times> capture_writer \<times> memfs" where
  "sample_capture = capture_all sample_writes (new_capture_writer 3 4 (Some sample_spill) True) sample_fs"

definition sample_result :: "capture_snapshot \<times> capture_writer \<times> memfs" where
  "sample_result = capture_result (fst (snd sample_capture)) (snd (snd sample_capture))"

lemma sample_capture_done: "fst sample_capture = Inr ()"
  by code_simp

lemma sample_spill_ordinary: "\<not> special_name (cs_path sample_spill) sample_fs" "cs_path sample_spill \<noteq> []"
  by code_simp+

definition spill_trigger :: "string \<Rightarrow> trigger" where
  "spill_trigger v =
     \<lparr>tg_id = ''msg-1'', tg_kind = [], tg_payload = GNil, tg_metadata = Some [server_run_id_key \<mapsto> GStr v], tg_enqueued = 0\<rparr>"

definition show_value :: "gval \<Rightarrow> string" where
  "show_value v = (case v of GStr s \<Rightarrow> s | _ \<Rightarrow> ''?'')"

definition spill_start :: "memfs \<Rightarrow> spill_state" where
  "spill_start f = \<lparr>sp_base = output_spill_base_dir f, sp_run = [], sp_threshold = 0, sp_max_output = 16\<rparr>"

definition sample_run_dir :: "string \<Rightarrow> (spill_error + string) \<times> spill_state \<times> memfs" where
  "sample_run_dir v = begin_run_spill_dir show_value 9 (spill_trigger v) (spill_start sample_fs) sample_fs"

lemma sample_run_dirs: "fst (sample_run_dir ''a/../b c'') = Inr []" "fst (sample_run_dir ''..'') = Inr []"
  by code_simp+

lemma sample_run_ids:
  "derive_run_output_id show_value 9 (spill_trigger ''a/../b c'') = ''a-..-b-c''"
  "derive_run_output_id show_value 9 (spill_trigger ''..'') = ''..''"
  by code_simp+

lemma sample_no_links: "no_links sample_fs root_ino [''.tmp'', ''tool-outputs'']"
  by code_simp

lemma sample_temp_dir:
  "path_string (temp_dir sample_fs) = ''/.tmp''"
  "path_string (temp_dir sample_fs @ [''tool-outputs'', ''a-..-b-c'']) = ''/.tmp/tool-outputs/a-..-b-c''"
  by code_simp+

section \<open>Structured output\<close>

definition sample_value :: jval where
  "sample_value = JObj [(''text'', JStr ''abcdefghijklmnop'')]"

definition sample_json :: string where
  "sample_json = jval_text sample_value"

definition sample_decode :: "string \<Rightarrow> jval option" where
  "sample_decode s = (if s = sample_json then Some sample_value else None)"

definition sample_compactor :: compactor where
  "sample_compactor = compact_structured sample_decode (\<lambda>_. None)"

definition json_step :: agent_step where
  "json_step = hd (rs_steps (fst sample_turn))"

definition kept_output :: "agent_step \<times> memfs" where
  "kept_output = set_tool_output sample_compactor (\<lambda>_. ''error'') 10 (fst (snd (sample_run_dir ''a/../b c''))) sample_json json_step
     (snd (snd (sample_run_dir ''a/../b c'')))"

lemma sample_json_facts:
  "trim_space sample_json = sample_json" "sample_json \<noteq> []" "output_limit (fst (snd (sample_run_dir ''a/../b c''))) = 16"
  "length sample_json = 27"
  by code_simp+

lemma sample_decoded: "sample_decode (trim_space sample_json) = Some sample_value"
  by (simp add: sample_decode_def sample_json_facts)

lemma kept_output_status: "st_status (fst kept_output) = StepOK"
proof -
  let ?sp = "fst (snd (sample_run_dir ''a/../b c''))" and ?f = "snd (snd (sample_run_dir ''a/../b c''))"
  let ?w = "write_step_spill_file (st_index json_step) ''full_output.json'' ''application/json'' ''Full structured tool output''
      sample_json 10 ?sp ?f"
  have "\<not> isl (fst ?w)" "st_status json_step = StepOK" by code_simp+
  then have "?w = (Inr (projr (fst ?w)), snd ?w)" by (simp add: prod_eq_iff)
  then obtain ref f1 where w: "?w = (Inr ref, f1)" by blast
  have "trim_space sample_json \<noteq> []" "output_limit ?sp < int (length sample_json)" by (simp_all add: sample_json_facts)
  from structured_status [where decode = sample_decode and out = sample_json, OF this(1) sample_decoded this(2) w]
  show ?thesis using \<open>st_status json_step = StepOK\<close> by (simp add: kept_output_def sample_compactor_def)
qed

lemma kept_output_path:
  "path_join (path_join (sp_run (fst (snd (sample_run_dir ''a/../b c'')))) (''step_'' @ int_str (st_index json_step))) ''full_output.json'' =
     ''/.tmp/tool-outputs/a-..-b-c/step_1/full_output.json''"
  by code_simp

definition sample_stub :: compaction where
  "sample_stub = the (projr (sample_compactor 160 None sample_json))"

lemma sample_stub_made: "sample_compactor 160 None sample_json = Inr (Some sample_stub)"
proof -
  have "\<exists>c. sample_compactor 160 None sample_json = Inr (Some c)"
    using sample_json_facts(1,2) by (simp add: sample_compactor_def compact_structured_def sample_decode_def Let_def)
  then show ?thesis by (auto simp: sample_stub_def)
qed

section \<open>A manager\<close>

definition sample_env :: worker_env where
  "sample_env = \<lparr>we_config = (\<lambda>_. ''config''), we_env_hash = (\<lambda>_. [])\<rparr>"

definition sample_sync :: "store \<Rightarrow> manager \<Rightarrow> (string + unit) \<times> manager" where
  "sample_sync s m = sync_once sample_env (\<lambda>_. None) (\<lambda>xs. xs) s m"

definition running_manager :: manager where
  "running_manager = snd (sample_sync sample_store new_manager)"

lemma sample_sync_done: "fst (sample_sync sample_store new_manager) = Inr ()"
  by (simp add: sample_sync_def sync_once_def Let_def start_missing_all)

lemma sample_runnable: "''ops:scout'' \<in> agent_key ` set (list_runnable_agents sample_store)"
  by code_simp

end
