(* ===== verification/Hosts.thy ===== *)
theory Hosts
  imports Capture Agents
begin

text \<open>
  The network policy: host matchers (\<open>pkg/sh/interp/host_matcher.go\<close>), the dialer that allows matching
  hosts only (\<open>network.go\<close>), the client that adds headers to matching requests (\<open>http.go\<close>), and how an
  agent and its specification choose the matchers (\<open>pkg/agent/agent.go\<close>, \<open>pkg/server/network.go\<close>,
  \<open>http.go\<close>).
\<close>

section \<open>Library functions\<close>

text \<open>
  \<open>strings.ToLower\<close> on all of Unicode and regular expressions are arguments: compiling an expression gives
  its matcher or nothing.
\<close>

record net_lib =
  nl_lower :: "string \<Rightarrow> string"
  nl_regex :: "string \<Rightarrow> (string \<Rightarrow> bool) option"

text \<open>\<open>utf8.DecodeRuneInString\<close> of a non-empty string: the code point and its width.\<close>

definition cont_bits :: "string \<Rightarrow> nat \<Rightarrow> nat" where
  "cont_bits s i = of_char (s ! i) mod 64"

definition decode_rune :: "string \<Rightarrow> nat \<times> nat" where
  "decode_rune s =
     (let w = rune_width s; b = (of_char (hd s) :: nat)
      in if w = 2 then (b mod 32 * 64 + cont_bits s 1, 2)
         else if w = 3 then (b mod 16 * 4096 + cont_bits s 1 * 64 + cont_bits s 2, 3)
         else if w = 4 then (b mod 8 * 262144 + cont_bits s 1 * 4096 + cont_bits s 2 * 64 + cont_bits s 3, 4)
         else (if b < 128 then b else 0xFFFD, 1))"

subsection \<open>\<open>path.Match\<close>\<close>

datatype glob_item =
    GlobStar
  | GlobAny
  | GlobByte char
  | GlobClass bool "(nat \<times> nat) list"

text \<open>A possibly escaped character of a class; the class goes on behind it.\<close>

definition glob_esc :: "string \<Rightarrow> (nat \<times> string) option" where
  "glob_esc s =
     (if s = [] \<or> hd s = CHR ''-'' \<or> hd s = CHR '']'' then None
      else let s1 = (if hd s = CHR 0x5C then tl s else s)
           in if s1 = [] then None
              else case decode_rune s1 of
                (r, n) \<Rightarrow> if r = 0xFFFD \<and> n = 1 \<or> drop n s1 = [] then None else Some (r, drop n s1))"

lemma decode_rune_pos: "0 < snd (decode_rune s)"
  by (simp add: decode_rune_def Let_def)

lemma glob_esc_shorter: "glob_esc s = Some (r, s') \<Longrightarrow> length s' < length s"
  using decode_rune_pos [of s] decode_rune_pos [of "tl s"]
  by (cases s) (auto simp: glob_esc_def Let_def split: if_splits prod.splits)

function (sequential) glob_ranges :: "bool \<Rightarrow> string \<Rightarrow> ((nat \<times> nat) list \<times> string) option" where
  "glob_ranges some s =
     (if some \<and> s \<noteq> [] \<and> hd s = CHR '']'' then Some ([], tl s)
      else case glob_esc s of
        None \<Rightarrow> None
      | Some (lo, s1) \<Rightarrow>
          (if hd s1 = CHR ''-''
           then case glob_esc (tl s1) of
             None \<Rightarrow> None
           | Some (hi, s2) \<Rightarrow> map_option (\<lambda>(rs, t). ((lo, hi) # rs, t)) (glob_ranges True s2)
           else map_option (\<lambda>(rs, t). ((lo, lo) # rs, t)) (glob_ranges True s1)))"
  by pat_completeness auto
termination
proof (relation "measure (\<lambda>(some, s). length s)")
  fix some :: bool and s x lo s1 y hi s2
  assume "glob_esc s = Some x" "(lo, s1) = x" "glob_esc (tl s1) = Some y" "(hi, s2) = y"
  then have "length s1 < length s" "length s2 < length (tl s1)"
    using glob_esc_shorter [of s lo s1] glob_esc_shorter [of "tl s1" hi s2] by simp_all
  then show "((True, s2), some, s) \<in> measure (\<lambda>(some, s). length s)" by simp
next
  fix some :: bool and s x lo s1
  assume "glob_esc s = Some x" "(lo, s1) = x"
  then show "((True, s1), some, s) \<in> measure (\<lambda>(some, s). length s)" using glob_esc_shorter by auto
qed simp

declare glob_ranges.simps [simp del]

lemma glob_ranges_shorter: "glob_ranges some s = Some (rs, t) \<Longrightarrow> length t < length s"
proof (induction some s arbitrary: rs t rule: glob_ranges.induct)
  case (1 some s)
  show ?case
  proof (cases "some \<and> s \<noteq> [] \<and> hd s = CHR '']''")
    case True
    then have "glob_ranges some s = Some ([], tl s)" by (subst glob_ranges.simps) simp
    then have "t = tl s" using 1(3) by simp
    then show ?thesis using True by simp
  next
    case False
    then obtain lo s1 where e: "glob_esc s = Some (lo, s1)"
      using 1(3) by (auto simp: glob_ranges.simps [of some s] split: option.splits)
    note l = glob_esc_shorter [OF e]
    show ?thesis
    proof (cases "hd s1 = CHR ''-''")
      case True
      then obtain hi s2 where f: "glob_esc (tl s1) = Some (hi, s2)"
        using 1(3) False e by (auto simp: glob_ranges.simps [of some s] split: option.splits)
      then obtain rs' where "glob_ranges True s2 = Some (rs', t)"
        using 1(3) False e True by (auto simp: glob_ranges.simps [of some s])
      then show ?thesis using 1(1) [OF False e refl True f refl] l glob_esc_shorter [OF f] by force
    next
      case F: False
      then obtain rs' where "glob_ranges True s1 = Some (rs', t)"
        using 1(3) False e by (auto simp: glob_ranges.simps [of some s])
      then show ?thesis using 1(2) [OF False e refl F] l by force
    qed
  qed
qed

text \<open>A malformed pattern is an error whatever the name is.\<close>

function (sequential) parse_glob :: "string \<Rightarrow> glob_item list option" where
  "parse_glob [] = Some []"
| "parse_glob (c # s) =
     (if c = CHR ''*'' then map_option (Cons GlobStar) (parse_glob s)
      else if c = CHR ''?'' then map_option (Cons GlobAny) (parse_glob s)
      else if c = CHR ''['' then
        (let neg = (s \<noteq> [] \<and> hd s = CHR ''^'')
         in case glob_ranges False (if neg then tl s else s) of
              None \<Rightarrow> None
            | Some (rs, t) \<Rightarrow> map_option (Cons (GlobClass neg rs)) (parse_glob t))
      else if c = CHR 0x5C then
        (case s of [] \<Rightarrow> None | d # s' \<Rightarrow> map_option (Cons (GlobByte d)) (parse_glob s'))
      else map_option (Cons (GlobByte c)) (parse_glob s))"
  by pat_completeness auto
termination
proof (relation "measure length")
  fix c and s :: string and neg x rs t
  assume "neg = (s \<noteq> [] \<and> hd s = CHR ''^'')" "glob_ranges False (if neg then tl s else s) = Some x" "(rs, t) = x"
  then have "length t < length (if neg then tl s else s)"
    using glob_ranges_shorter [of False "if neg then tl s else s" rs t] by simp
  also have "\<dots> \<le> length s" by simp
  finally have "length t < length s" .
  then show "(t, c # s) \<in> measure length" by simp
qed auto

definition class_matches :: "bool \<Rightarrow> (nat \<times> nat) list \<Rightarrow> nat \<Rightarrow> bool" where
  "class_matches neg rs r \<longleftrightarrow> list_ex (\<lambda>(lo, hi). lo \<le> r \<and> r \<le> hi) rs \<noteq> neg"

text \<open>A chunk, which has no star, takes a prefix of the name and leaves the rest.\<close>

fun match_chunk :: "glob_item list \<Rightarrow> string \<Rightarrow> string option" where
  "match_chunk [] n = Some n"
| "match_chunk (i # is) n =
     (if n = [] then None
      else case i of
        GlobStar \<Rightarrow> None
      | GlobAny \<Rightarrow> if hd n = CHR ''/'' then None else match_chunk is (drop (snd (decode_rune n)) n)
      | GlobByte c \<Rightarrow> if hd n = c then match_chunk is (tl n) else None
      | GlobClass neg rs \<Rightarrow>
          if class_matches neg rs (fst (decode_rune n)) then match_chunk is (drop (snd (decode_rune n)) n) else None)"

text \<open>The chunks of a pattern, each with whether stars stand before it.\<close>

fun glob_chunks :: "bool \<Rightarrow> glob_item list \<Rightarrow> glob_item list \<Rightarrow> (bool \<times> glob_item list) list" where
  "glob_chunks star acc [] = (if star \<or> acc \<noteq> [] then [(star, rev acc)] else [])"
| "glob_chunks star acc (i # is) =
     (if i = GlobStar
      then (if acc = [] then glob_chunks True [] is else (star, rev acc) # glob_chunks True [] is)
      else glob_chunks star (i # acc) is)"

text \<open>Behind a star a chunk is looked for further to the right, up to a slash.\<close>

fun skip_match :: "glob_item list \<Rightarrow> bool \<Rightarrow> string \<Rightarrow> string option" where
  "skip_match is final [] = None"
| "skip_match is final (c # n) =
     (if c = CHR ''/'' then None
      else case match_chunk is n of
        Some t \<Rightarrow> if final \<and> t \<noteq> [] then skip_match is final n else Some t
      | None \<Rightarrow> skip_match is final n)"

fun match_chunks :: "(bool \<times> glob_item list) list \<Rightarrow> string \<Rightarrow> bool" where
  "match_chunks [] n \<longleftrightarrow> n = []"
| "match_chunks ((star, is) # cs) n \<longleftrightarrow>
     (if star \<and> is = [] then CHR ''/'' \<notin> set n
      else let skip = (if star then skip_match is (cs = []) n else None)
           in case match_chunk is n of
                Some t \<Rightarrow>
                  if t = [] \<or> cs \<noteq> [] then match_chunks cs t
                  else (case skip of Some u \<Rightarrow> match_chunks cs u | None \<Rightarrow> False)
              | None \<Rightarrow> (case skip of Some u \<Rightarrow> match_chunks cs u | None \<Rightarrow> False))"

definition path_match :: "string \<Rightarrow> string \<Rightarrow> bool option" where
  "path_match pattern name = map_option (\<lambda>is. match_chunks (glob_chunks False [] is) name) (parse_glob pattern)"

section \<open>Host matchers\<close>

record host_matcher =
  hm_glob :: string
  hm_regex :: string

datatype compiled_matcher =
    CompiledGlob string
  | CompiledRegex "string \<Rightarrow> bool"

datatype host_error =
    HostEmpty
  | HostProtocol
  | HostBadGlob
  | HostBadRegex
  | HostUndefined
  | HostsEmpty
  | HeaderNameEmpty

definition matcher_matches :: "compiled_matcher \<Rightarrow> string \<Rightarrow> bool" where
  "matcher_matches m host =
     (case m of CompiledGlob g \<Rightarrow> path_match g host = Some True | CompiledRegex r \<Rightarrow> r host)"

definition strip_anchors :: "string \<Rightarrow> string" where
  "strip_anchors p = trim_suffix (trim_prefix p ''^'') ''$''"

definition validate_host_pattern :: "string \<Rightarrow> host_error option" where
  "validate_host_pattern p =
     (if blank p then Some HostEmpty
      else let q = strip_anchors (trim_space p)
           in if q = [] then Some HostEmpty
              else if str_contains q ''://'' \<or> str_contains q ('':'' @ [CHR 0x5C, CHR ''/'', CHR 0x5C, CHR ''/'']) then Some HostProtocol
              else None)"

definition normalize_host_regex :: "net_lib \<Rightarrow> string \<Rightarrow> host_error + string" where
  "normalize_host_regex lib p =
     (let q = trim_space p
      in if q = [] then Inl HostEmpty
         else case validate_host_pattern q of
           Some e \<Rightarrow> Inl e
         | None \<Rightarrow>
             (let r = strip_anchors q; anchored = ''^(?:'' @ r @ '')$''
              in if r = [] then Inl HostEmpty
                 else if nl_regex lib anchored = None then Inl HostBadRegex else Inr anchored))"

definition compile_host_glob :: "net_lib \<Rightarrow> string \<Rightarrow> host_error + compiled_matcher" where
  "compile_host_glob lib glob =
     (let g = nl_lower lib (trim_space glob)
      in case validate_host_pattern g of
           Some e \<Rightarrow> Inl e
         | None \<Rightarrow> if path_match g ''example.test'' = None then Inl HostBadGlob else Inr (CompiledGlob g))"

definition compile_host_regex :: "net_lib \<Rightarrow> string \<Rightarrow> host_error + compiled_matcher" where
  "compile_host_regex lib regex =
     (case normalize_host_regex lib regex of
        Inl e \<Rightarrow> Inl e
      | Inr p \<Rightarrow> (case nl_regex lib (''(?i)'' @ p) of None \<Rightarrow> Inl HostBadRegex | Some r \<Rightarrow> Inr (CompiledRegex r)))"

definition compile_host_matcher :: "net_lib \<Rightarrow> host_matcher \<Rightarrow> host_error + compiled_matcher" where
  "compile_host_matcher lib m =
     (if trim_space (hm_glob m) \<noteq> [] then compile_host_glob lib (hm_glob m)
      else if trim_space (hm_regex m) \<noteq> [] then compile_host_regex lib (hm_regex m)
      else Inl HostUndefined)"

fun compile_host_matchers :: "net_lib \<Rightarrow> host_matcher list \<Rightarrow> host_error + compiled_matcher list" where
  "compile_host_matchers lib [] = Inr []"
| "compile_host_matchers lib (m # ms) =
     (case compile_host_matcher lib m of
        Inl e \<Rightarrow> Inl e
      | Inr c \<Rightarrow> map_sum id (Cons c) (compile_host_matchers lib ms))"

definition host_matches_any :: "compiled_matcher list \<Rightarrow> string \<Rightarrow> bool" where
  "host_matches_any ms host = list_ex (\<lambda>m. matcher_matches m host) ms"

section \<open>Dialing\<close>

text \<open>
  A dialer gets whether its context is done, the network and the address, and acts on a world; a
  connection is a value of the type \<open>'c\<close>.
\<close>

datatype dial_error =
    DialCancelled
  | DialRejected string string
  | HostRejected string string string
  | DialFailed string

type_synonym ('w, 'c) dialer = "bool \<Rightarrow> string \<Rightarrow> string \<Rightarrow> 'w \<Rightarrow> (dial_error + 'c) \<times> 'w"

definition reject_all :: "('w, 'c) dialer" where
  "reject_all = (\<lambda>cancelled network address w.
     (Inl (if cancelled then DialCancelled else DialRejected network address), w))"

text \<open>\<open>net.SplitHostPort\<close>: the host, if the address has a port.\<close>

definition split_host_port :: "string \<Rightarrow> string option" where
  "split_host_port s =
     (let colon = CHR '':''; i = length s - 1 - length (takeWhile (\<lambda>c. c \<noteq> colon) (rev s));
          check = (\<lambda>host j k. if CHR ''['' \<in> set (drop j s) \<or> CHR '']'' \<in> set (drop k s) then None else Some host)
      in if colon \<notin> set s then None
         else if hd s = CHR ''['' then
           (let e = length (takeWhile (\<lambda>c. c \<noteq> CHR '']'') s)
            in if CHR '']'' \<notin> set s \<or> e + 1 \<noteq> i then None else check (drop 1 (take e s)) 1 (e + 1))
         else if colon \<in> set (take i s) then None else check (take i s) 0 0)"

definition dial_address_host :: "net_lib \<Rightarrow> string \<Rightarrow> string" where
  "dial_address_host lib address =
     (let a = trim_space address
      in if a = [] then []
         else case split_host_port a of
           Some host \<Rightarrow> nl_lower lib (trim_set ''[]'' (trim_space host))
         | None \<Rightarrow> nl_lower lib (trim_set ''[]'' a))"

definition allowlist_dial :: "net_lib \<Rightarrow> ('w, 'c) dialer \<Rightarrow> compiled_matcher list \<Rightarrow> ('w, 'c) dialer" where
  "allowlist_dial lib base ms = (\<lambda>cancelled network address w.
     (let host = dial_address_host lib address
      in if trim_space host = [] \<or> \<not> host_matches_any ms host
         then (Inl (if cancelled then DialCancelled else HostRejected network address host), w)
         else base cancelled network address w))"

text \<open>No base dialer is the one that rejects everything.\<close>

definition new_allowlist_dialer :: "net_lib \<Rightarrow> ('w, 'c) dialer option \<Rightarrow> host_matcher list \<Rightarrow> host_error + ('w, 'c) dialer" where
  "new_allowlist_dialer lib base ms =
     (case compile_host_matchers lib ms of
        Inl e \<Rightarrow> Inl e
      | Inr cs \<Rightarrow>
          if cs = [] then Inl HostsEmpty
          else Inr (allowlist_dial lib (case base of None \<Rightarrow> reject_all | Some b \<Rightarrow> b) cs))"

section \<open>The HTTP client\<close>

record http_header_rule =
  hr_name :: string
  hr_value :: string
  hr_domains :: "host_matcher list"

record compiled_header_rule =
  ch_name :: string
  ch_value :: string
  ch_domains :: "compiled_matcher list"

fun compile_header_rules :: "net_lib \<Rightarrow> http_header_rule list \<Rightarrow> host_error + compiled_header_rule list" where
  "compile_header_rules lib [] = Inr []"
| "compile_header_rules lib (r # rs) =
     (if trim_space (hr_name r) = [] then Inl HeaderNameEmpty
      else case compile_host_matchers lib (hr_domains r) of
        Inl e \<Rightarrow> Inl e
      | Inr ds \<Rightarrow>
          map_sum id (Cons \<lparr>ch_name = trim_space (hr_name r), ch_value = hr_value r, ch_domains = ds\<rparr>)
            (compile_header_rules lib rs))"

definition rule_matches :: "compiled_header_rule \<Rightarrow> string \<Rightarrow> bool" where
  "rule_matches r host \<longleftrightarrow> ch_domains r = [] \<or> host_matches_any (ch_domains r) host"

text \<open>\<open>textproto.CanonicalMIMEHeaderKey\<close>: a name with a byte that no header has is left as it is.\<close>

definition token_char :: "char \<Rightarrow> bool" where
  "token_char c \<longleftrightarrow>
     list_ex (char_between c) [(CHR ''a'', CHR ''z''), (CHR ''A'', CHR ''Z''), (CHR ''0'', CHR ''9'')] \<or>
     c \<in> set (''!#$%&*+-.^_|~'' @ [CHR 0x27, CHR 0x60])"

fun canonical_from :: "bool \<Rightarrow> string \<Rightarrow> string" where
  "canonical_from upper [] = []"
| "canonical_from upper (c # s) =
     (let c' = (if upper \<and> char_between c (CHR ''a'', CHR ''z'') then char_of (of_char c - 32 :: nat)
                else if \<not> upper \<and> char_between c (CHR ''A'', CHR ''Z'') then char_of (of_char c + 32 :: nat) else c)
      in c' # canonical_from (c = CHR ''-'') s)"

definition canonical_header :: "string \<Rightarrow> string" where
  "canonical_header name = (if list_all token_char name then canonical_from True name else name)"

text \<open>The header map of a request and the host its URL and its \<open>Host\<close> line name.\<close>

record http_request =
  rq_url_host :: string
  rq_host :: string
  rq_header :: "string \<Rightarrow> string list option"

definition header_set :: "string \<Rightarrow> string \<Rightarrow> http_request \<Rightarrow> http_request" where
  "header_set name v rq = rq\<lparr>rq_header := (rq_header rq)(canonical_header name \<mapsto> [v])\<rparr>"

text \<open>\<open>strings.EqualFold\<close> with \<open>Host\<close>: the long s folds to s.\<close>

definition is_host_name :: "string \<Rightarrow> bool" where
  "is_host_name name \<longleftrightarrow> fold_name name = ''host''"

fun apply_header_rules :: "compiled_header_rule list \<Rightarrow> string \<Rightarrow> http_request \<Rightarrow> http_request" where
  "apply_header_rules [] host rq = rq"
| "apply_header_rules (r # rs) host rq =
     apply_header_rules rs host
       (if \<not> rule_matches r host then rq
        else if is_host_name (ch_name r) then rq\<lparr>rq_host := ch_value r\<rparr>
        else header_set (ch_name r) (ch_value r) rq)"

text \<open>\<open>RoundTrip\<close>: the request that is sent.\<close>

definition round_trip_request :: "net_lib \<Rightarrow> compiled_header_rule list \<Rightarrow> http_request \<Rightarrow> http_request" where
  "round_trip_request lib rules rq = apply_header_rules rules (nl_lower lib (trim_space (rq_url_host rq))) rq"

text \<open>A client is its dialer and its rules; without rules requests go to the transport as they are.\<close>

record ('w, 'c) http_factory =
  hf_dialer :: "('w, 'c) dialer"
  hf_rules :: "compiled_header_rule list"

definition new_http_factory ::
    "net_lib \<Rightarrow> ('w, 'c) dialer option \<Rightarrow> http_header_rule list \<Rightarrow> host_error + ('w, 'c) http_factory" where
  "new_http_factory lib dialer rules =
     map_sum id (\<lambda>rs. \<lparr>hf_dialer = (case dialer of None \<Rightarrow> reject_all | Some d \<Rightarrow> d), hf_rules = rs\<rparr>)
       (compile_header_rules lib rules)"

section \<open>The policy of an agent\<close>

definition agent_scoped_dialer ::
    "net_lib \<Rightarrow> ('w, 'c) dialer option \<Rightarrow> host_matcher list \<Rightarrow> host_error + ('w, 'c) dialer option" where
  "agent_scoped_dialer lib base reachable =
     (if reachable = [] \<or> base = None then Inr None
      else map_sum id Some (new_allowlist_dialer lib base reachable))"

definition agent_http_factory ::
    "net_lib \<Rightarrow> ('w, 'c) dialer option \<Rightarrow> host_matcher list \<Rightarrow> http_header_rule list \<Rightarrow> host_error + ('w, 'c) http_factory" where
  "agent_http_factory lib base reachable headers =
     (case agent_scoped_dialer lib base reachable of
        Inl e \<Rightarrow> Inl e
      | Inr d \<Rightarrow> new_http_factory lib d headers)"

datatype network_scope = ScopeNone | ScopeGlobal | ScopeScoped | ScopeOther string

definition normalized_scope :: "string \<Rightarrow> network_scope" where
  "normalized_scope s =
     (let t = trim_space s
      in if t = [] \<or> t = ''none'' then ScopeNone else if t = ''global'' then ScopeGlobal
         else if t = ''scoped'' then ScopeScoped else ScopeOther t)"

fun merge_matchers :: "host_matcher set \<Rightarrow> host_matcher list \<Rightarrow> host_matcher list" where
  "merge_matchers seen [] = []"
| "merge_matchers seen (m # ms) =
     (if m \<in> seen then merge_matchers seen ms else m # merge_matchers (insert m seen) ms)"

definition merge_host_matchers :: "host_matcher list \<Rightarrow> host_matcher list \<Rightarrow> host_matcher list" where
  "merge_host_matchers left right = merge_matchers {} (left @ right)"

definition effective_tool_hosts :: "string \<Rightarrow> host_matcher list \<Rightarrow> host_matcher list \<Rightarrow> host_matcher list" where
  "effective_tool_hosts scope global required =
     (case normalized_scope scope of
        ScopeNone \<Rightarrow> []
      | ScopeGlobal \<Rightarrow> global
      | ScopeScoped \<Rightarrow> merge_host_matchers global required
      | ScopeOther s \<Rightarrow> [])"

end
