(* ===== verification/Specs.thy ===== *)
theory Specs
  imports Hosts Agents
begin

text \<open>
  Agent specifications and their synchronisation with the store (\<open>pkg/server/specs.go\<close>, the parameters of
  \<open>sync_plan.go\<close>). Reading and decoding the YAML files gives the list of specifications, sorted by
  namespace and agent. Mounts and tools belong to other packages: \<open>spec_lib\<close> holds what is used of them.
\<close>

section \<open>Paths\<close>

text \<open>\<open>filepath.Clean\<close>: the elements so far are in reverse.\<close>

fun clean_elems :: "bool \<Rightarrow> string list \<Rightarrow> string list \<Rightarrow> string list" where
  "clean_elems rooted acc [] = rev acc"
| "clean_elems rooted acc (p # ps) =
     (if p = [] \<or> p = ''.'' then clean_elems rooted acc ps
      else if p \<noteq> ''..'' then clean_elems rooted (p # acc) ps
      else case acc of
        [] \<Rightarrow> clean_elems rooted (if rooted then [] else [''..'']) ps
      | a # as \<Rightarrow> clean_elems rooted (if a = ''..'' then ''..'' # acc else as) ps)"

definition path_is_abs :: "string \<Rightarrow> bool" where
  "path_is_abs p \<longleftrightarrow> has_prefix p ''/''"

definition path_clean :: "string \<Rightarrow> string" where
  "path_clean p =
     (let rooted = path_is_abs p; q = join_char (CHR ''/'') (clean_elems rooted [] (split_char (CHR ''/'') p))
      in if rooted then CHR ''/'' # q else if q = [] then ''.'' else q)"

definition path_join_all :: "string list \<Rightarrow> string" where
  "path_join_all ps =
     (let qs = filter (\<lambda>p. p \<noteq> []) ps in if qs = [] then [] else path_clean (join_char (CHR ''/'') qs))"

definition filepath_base :: "string \<Rightarrow> string" where
  "filepath_base p =
     (let q = rev (dropWhile (\<lambda>c. c = CHR ''/'') (rev p)); b = rev (takeWhile (\<lambda>c. c \<noteq> CHR ''/'') (rev q))
      in if p = [] then ''.'' else if b = [] then ''/'' else b)"

section \<open>Durations\<close>

text \<open>
  \<open>time.ParseDuration\<close>. A fraction counts with the digits that fit 63 bits; its product with the unit is
  rounded down exactly here, in Go by way of \<open>float64\<close>.
\<close>

definition duration_units :: "(string \<times> int) list" where
  "duration_units =
     [(''ns'', 1), (''us'', 1000), ([CHR 0xC2, CHR 0xB5, CHR ''s''], 1000), ([CHR 0xCE, CHR 0xBC, CHR ''s''], 1000),
      (''ms'', 1000000), (''s'', second), (''m'', minute), (''h'', 60 * minute)]"

fun leading_fraction :: "string \<Rightarrow> int \<Rightarrow> int \<Rightarrow> int \<times> int" where
  "leading_fraction [] x scale = (x, scale)"
| "leading_fraction (c # cs) x scale =
     (let y = x * 10 + digit_val c
      in if x > (2 ^ 63 - 1) div 10 \<or> y > 2 ^ 63 then (x, scale) else leading_fraction cs y (scale * 10))"

function duration_parts :: "string \<Rightarrow> int \<Rightarrow> int option" where
  "duration_parts s d =
     (if s = [] then Some d
      else if hd s \<noteq> CHR ''.'' \<and> \<not> is_digit (hd s) then None
      else
        (let ds = takeWhile is_digit s; s1 = dropWhile is_digit s; v = digits_val ds;
             dot = (s1 \<noteq> [] \<and> hd s1 = CHR ''.''); s2 = (if dot then tl s1 else s1);
             fs = (if dot then takeWhile is_digit s2 else []); s3 = drop (length fs) s2;
             u = takeWhile (\<lambda>c. c \<noteq> CHR ''.'' \<and> \<not> is_digit c) s3; s4 = drop (length u) s3
         in if v > 2 ^ 63 \<or> ds = [] \<and> fs = [] \<or> u = [] then None
            else case map_of duration_units u of
              None \<Rightarrow> None
            | Some unit \<Rightarrow>
                (case leading_fraction fs 0 1 of
                   (f, scale) \<Rightarrow>
                     (let w = v * unit + f * unit div scale
                      in if v > 2 ^ 63 div unit \<or> w > 2 ^ 63 \<or> d + w > 2 ^ 63 then None
                         else duration_parts s4 (d + w)))))"
  by pat_completeness auto
termination
proof (relation "measure (\<lambda>(s, d). length s)", goal_cases)
  case (2 s d ds s1 v dot s2 fs s3 u s4)
  have "length s1 \<le> length s" using 2(4) by (simp add: length_dropWhile_le)
  moreover have "length s2 \<le> length s1" using 2(7) by simp
  moreover have "length s3 \<le> length s2" using 2(9) by simp
  moreover have "length u \<le> length s3" "0 < length u" using 2(10,12) by (simp_all add: length_takeWhile_le)
  moreover have "length s4 = length s3 - length u" using 2(11) by simp
  ultimately have "length s4 < length s" by linarith
  then show ?case by simp
qed simp

definition parse_duration :: "string \<Rightarrow> duration option" where
  "parse_duration s =
     (let signed = (s \<noteq> [] \<and> (hd s = CHR ''-'' \<or> hd s = CHR ''+'')); neg = (signed \<and> hd s = CHR ''-'');
          t = (if signed then tl s else s)
      in if t = ''0'' then Some 0
         else if t = [] then None
         else case duration_parts t 0 of
           None \<Rightarrow> None
         | Some d \<Rightarrow> if neg then Some (- d) else if d > 2 ^ 63 - 1 then None else Some d)"

definition parse_optional_duration :: "string \<Rightarrow> duration option" where
  "parse_optional_duration raw = (if trim_space raw = [] then Some 0 else parse_duration (trim_space raw))"

section \<open>Specifications\<close>

record header_spec =
  hs_name :: string
  hs_value :: "string option"
  hs_env :: string
  hs_domains :: "host_matcher list"

record runtime_spec =
  rn_desired :: string
  rn_filesystem :: string
  rn_preserve :: bool
  rn_max_steps :: int
  rn_step_timeout :: string
  rn_max_output :: int
  rn_file_threshold :: int
  rn_lease_duration :: string
  rn_retry_delay :: string
  rn_max_attempts :: int

record schedule_spec =
  ss_id :: string
  ss_cron :: string
  ss_zone :: string
  ss_enabled :: "bool option"
  ss_payload :: gval

text \<open>Mounts and tools are the YAML values of their entries.\<close>

record agent_spec =
  sp_source :: string
  sp_namespace :: string
  sp_version :: "int option"
  sp_agent :: string
  sp_name :: string
  sp_description :: string
  sp_provider :: string
  sp_model :: string
  sp_base_url :: string
  sp_prompt :: string
  sp_root :: string
  sp_memory_disable :: bool
  sp_memory_prompt :: string
  sp_mounts :: "gval list"
  sp_headers :: "header_spec list"
  sp_network :: "host_matcher list option"
  sp_capabilities :: "(string \<times> gval) list"
  sp_tools :: "gval list"
  sp_runtime :: runtime_spec
  sp_schedules :: "schedule_spec list"
  sp_config :: "(string \<times> gval) list option"

text \<open>
  The regular expressions, the cron library and the directories of \<open>normalize_create_agent_params\<close>; the
  mounts and the tools of a specification: whether they are valid, what the configuration holds of them
  and the schema of the actions.
\<close>

record spec_lib =
  sl_net :: net_lib
  sl_cron :: cron_lib
  sl_mkdir :: "string \<Rightarrow> bool"
  sl_check_mounts :: "agent_spec \<Rightarrow> string option"
  sl_mounts :: "agent_spec \<Rightarrow> string + gval"
  sl_tools :: "gval list \<Rightarrow> string + gval list"
  sl_check_tools :: "gval list \<Rightarrow> host_matcher list \<Rightarrow> string option"
  sl_schema :: "gval list \<Rightarrow> host_matcher list \<Rightarrow> string + gval"

datatype spec_error =
    SpecNamespaceEmpty
  | SpecVersionMissing
  | SpecVersion int
  | SpecAgentEmpty
  | SpecAgentDots string
  | SpecAgentUnsafe string
  | SpecProvider
  | SpecModelEmpty
  | SpecPromptEmpty
  | SpecMemory
  | SpecFilesystem
  | SpecAllowNetwork
  | SpecMounts string
  | SpecHeaderName nat
  | SpecHeaderValue nat
  | SpecHostsEmpty
  | SpecHostChoice nat
  | SpecHost nat host_error
  | SpecTools string
  | SpecDuration string
  | SpecCronEmpty nat
  | SpecCron nat
  | SpecZone nat
  | SpecScheduleTwice string
  | SpecAgentTwice string
  | SpecRootMissing
  | SpecRootRelative string
  | SpecRootShared string string
  | SpecSchema string
  | SpecEncode
  | SpecStore store_error

text \<open>Checks in order: the first that fails.\<close>

fun first_error :: "'e option list \<Rightarrow> 'e option" where
  "first_error [] = None"
| "first_error (None # es) = first_error es"
| "first_error (Some e # es) = Some e"

section \<open>Validation\<close>

definition safe_identifier :: "string \<Rightarrow> bool" where
  "safe_identifier s \<longleftrightarrow>
     (let alnum = (\<lambda>c. list_ex (char_between c) [(CHR ''A'', CHR ''Z''), (CHR ''a'', CHR ''z''), (CHR ''0'', CHR ''9'')])
      in s \<noteq> [] \<and> alnum (hd s) \<and> list_all (\<lambda>c. alnum c \<or> c \<in> set ''._-'') (tl s))"

definition validate_agent_id :: "string \<Rightarrow> spec_error option" where
  "validate_agent_id raw =
     (let i = trim_space raw
      in if i = [] then Some SpecAgentEmpty
         else if i = ''.'' \<or> i = ''..'' then Some (SpecAgentDots i)
         else if \<not> safe_identifier i then Some (SpecAgentUnsafe i) else None)"

definition validate_model_provider :: "string \<Rightarrow> spec_error option" where
  "validate_model_provider p = (if trim_space p \<in> {[], ''openai'', ''anthropic''} then None else Some SpecProvider)"

definition spec_filesystem_kind :: "string \<Rightarrow> string" where
  "spec_filesystem_kind kind = (if trim_space kind = [] then ''disk'' else trim_space kind)"

definition validate_filesystem :: "string \<Rightarrow> spec_error option" where
  "validate_filesystem kind = (if spec_filesystem_kind kind \<in> {''disk'', ''memory''} then None else Some SpecFilesystem)"

definition validate_capabilities :: "(string \<times> gval) list \<Rightarrow> spec_error option" where
  "validate_capabilities cs = (if map_of cs ''allow_network'' \<noteq> None then Some SpecAllowNetwork else None)"

definition validate_host_matcher :: "net_lib \<Rightarrow> nat \<Rightarrow> host_matcher \<Rightarrow> spec_error option" where
  "validate_host_matcher lib i m =
     (let glob = trim_space (hm_glob m); has_glob = (glob \<noteq> []); has_regex = (trim_space (hm_regex m) \<noteq> [])
      in if has_glob = has_regex then Some (SpecHostChoice i)
         else if has_glob then
           (case validate_host_pattern glob of
              Some e \<Rightarrow> Some (SpecHost i e)
            | None \<Rightarrow> if path_match glob ''example.test'' = None then Some (SpecHost i HostBadGlob) else None)
         else (case normalize_host_regex lib (hm_regex m) of Inl e \<Rightarrow> Some (SpecHost i e) | Inr r \<Rightarrow> None))"

definition validate_host_matchers :: "net_lib \<Rightarrow> bool \<Rightarrow> host_matcher list \<Rightarrow> spec_error option" where
  "validate_host_matchers lib required ms =
     (if required \<and> ms = [] then Some SpecHostsEmpty
      else first_error (map (\<lambda>(i, m). validate_host_matcher lib i m) (enumerate 0 ms)))"

definition validate_network :: "net_lib \<Rightarrow> host_matcher list option \<Rightarrow> spec_error option" where
  "validate_network lib network =
     (case network of None \<Rightarrow> None | Some ms \<Rightarrow> validate_host_matchers lib True ms)"

definition validate_header :: "net_lib \<Rightarrow> nat \<Rightarrow> header_spec \<Rightarrow> spec_error option" where
  "validate_header lib i h =
     (if trim_space (hs_name h) = [] then Some (SpecHeaderName i)
      else if (hs_value h \<noteq> None) = (trim_space (hs_env h) \<noteq> []) then Some (SpecHeaderValue i)
      else validate_host_matchers lib False (hs_domains h))"

definition normalize_time_zone :: "cron_lib \<Rightarrow> string \<Rightarrow> string option" where
  "normalize_time_zone lib raw =
     (let z = trim_space raw in if z = [] then Some ''UTC'' else if zone_known lib z then Some z else None)"

definition derived_schedule_id :: "string \<Rightarrow> nat \<Rightarrow> string" where
  "derived_schedule_id agent i = agent @ ''-schedule-'' @ nat_str (i + 1)"

definition schedule_id_of :: "agent_spec \<Rightarrow> nat \<Rightarrow> schedule_spec \<Rightarrow> string" where
  "schedule_id_of spec i sc =
     (if trim_space (ss_id sc) \<noteq> [] then trim_space (ss_id sc) else trim_space (derived_schedule_id (sp_agent spec) i))"

fun validate_schedules :: "cron_lib \<Rightarrow> agent_spec \<Rightarrow> string set \<Rightarrow> nat \<Rightarrow> schedule_spec list \<Rightarrow> spec_error option" where
  "validate_schedules lib spec seen i [] = None"
| "validate_schedules lib spec seen i (sc # scs) =
     (if trim_space (ss_cron sc) = [] then Some (SpecCronEmpty i)
      else if cron_parse lib (trim_space (ss_cron sc)) = None then Some (SpecCron i)
      else if normalize_time_zone lib (ss_zone sc) = None then Some (SpecZone i)
      else let sid = schedule_id_of spec i sc
           in if sid \<in> seen then Some (SpecScheduleTwice sid)
              else validate_schedules lib spec (insert sid seen) (i + 1) scs)"

definition network_matchers :: "host_matcher list option \<Rightarrow> host_matcher list" where
  "network_matchers network =
     (case network of
        None \<Rightarrow> []
      | Some ms \<Rightarrow> map (\<lambda>m. \<lparr>hm_glob = trim_space (hm_glob m), hm_regex = trim_space (hm_regex m)\<rparr>) ms)"

definition validate_tools :: "spec_lib \<Rightarrow> agent_spec \<Rightarrow> spec_error option" where
  "validate_tools lib spec =
     (case sl_tools lib (sp_tools spec) of
        Inl e \<Rightarrow> Some (SpecTools e)
      | Inr ts \<Rightarrow> map_option SpecTools (sl_check_tools lib ts (network_matchers (sp_network spec))))"

definition check_duration :: "string \<Rightarrow> string \<Rightarrow> spec_error option" where
  "check_duration field raw = (if parse_optional_duration raw = None then Some (SpecDuration field) else None)"

definition validate_agent_spec :: "spec_lib \<Rightarrow> agent_spec \<Rightarrow> spec_error option" where
  "validate_agent_spec lib spec =
     first_error
       [if blank (sp_namespace spec) then Some SpecNamespaceEmpty else None,
        (case sp_version spec of None \<Rightarrow> Some SpecVersionMissing | Some v \<Rightarrow> if v \<noteq> 1 then Some (SpecVersion v) else None),
        validate_agent_id (sp_agent spec),
        validate_model_provider (sp_provider spec),
        if blank (sp_model spec) then Some SpecModelEmpty else None,
        if blank (sp_prompt spec) then Some SpecPromptEmpty else None,
        if sp_memory_disable spec \<and> \<not> blank (sp_memory_prompt spec) then Some SpecMemory else None,
        validate_filesystem (rn_filesystem (sp_runtime spec)),
        validate_capabilities (sp_capabilities spec),
        map_option SpecMounts (sl_check_mounts lib spec),
        first_error (map (\<lambda>(i, h). validate_header (sl_net lib) i h) (enumerate 0 (sp_headers spec))),
        validate_network (sl_net lib) (sp_network spec),
        validate_tools lib spec,
        check_duration ''step_timeout'' (rn_step_timeout (sp_runtime spec)),
        check_duration ''lease_duration'' (rn_lease_duration (sp_runtime spec)),
        check_duration ''retry_delay'' (rn_retry_delay (sp_runtime spec)),
        validate_schedules (sl_cron lib) spec {} 0 (sp_schedules spec)]"

section \<open>Loading\<close>

text \<open>
  The specifications in the order the files are found: each is valid, and neither an agent nor a schedule of a
  namespace is specified twice. The result is sorted.
\<close>

definition spec_key :: "agent_spec \<Rightarrow> string \<times> string" where
  "spec_key spec = (sp_namespace spec, sp_agent spec)"

definition colon_key :: "string \<Rightarrow> string \<Rightarrow> string" where
  "colon_key ns i = ns @ CHR '':'' # i"

fun check_schedule_ids :: "agent_spec \<Rightarrow> string set \<Rightarrow> nat \<Rightarrow> schedule_spec list \<Rightarrow> spec_error + string set" where
  "check_schedule_ids spec seen i [] = Inr seen"
| "check_schedule_ids spec seen i (sc # scs) =
     (let sid = schedule_id_of spec i sc; key = colon_key (sp_namespace spec) sid
      in if key \<in> seen then Inl (SpecScheduleTwice sid)
         else check_schedule_ids spec (insert key seen) (i + 1) scs)"

fun check_specs :: "spec_lib \<Rightarrow> string set \<Rightarrow> string set \<Rightarrow> agent_spec list \<Rightarrow> spec_error option" where
  "check_specs lib seen seen_schedules [] = None"
| "check_specs lib seen seen_schedules (spec # specs) =
     (case validate_agent_spec lib spec of
        Some e \<Rightarrow> Some e
      | None \<Rightarrow>
          (let key = colon_key (sp_namespace spec) (sp_agent spec)
           in if key \<in> seen then Some (SpecAgentTwice key)
              else case check_schedule_ids spec seen_schedules 0 (sp_schedules spec) of
                Inl e \<Rightarrow> Some e
              | Inr seen' \<Rightarrow> check_specs lib (insert key seen) seen' specs))"

definition load_specs :: "spec_lib \<Rightarrow> agent_spec list \<Rightarrow> spec_error + agent_spec list" where
  "load_specs lib specs =
     (case check_specs lib {} {} specs of Some e \<Rightarrow> Inl e | None \<Rightarrow> Inr (sort_key spec_key specs))"

section \<open>Roots\<close>

definition is_rooted_agent_path :: "string \<Rightarrow> bool" where
  "is_rooted_agent_path p \<longleftrightarrow> p \<noteq> [] \<and> (path_is_abs p \<or> has_prefix p ''/'' \<or> has_prefix p [CHR 0x5C])"

definition memory_root_path :: "string \<Rightarrow> spec_error + string" where
  "memory_root_path raw =
     (let r = trim_space raw
      in if r = [] then Inr ''/''
         else let c = path_clean (if is_rooted_agent_path r then r else path_join_all [''/'', r])
              in if is_rooted_agent_path c then Inr c else Inl (SpecRootRelative c))"

definition resolve_root_path :: "string \<Rightarrow> string \<Rightarrow> agent_spec \<Rightarrow> spec_error + string" where
  "resolve_root_path config_root base spec =
     (if spec_filesystem_kind (rn_filesystem (sp_runtime spec)) = ''memory'' then memory_root_path (sp_root spec)
      else if \<not> blank (sp_root spec) then
        Inr (if path_is_abs (sp_root spec) then path_clean (sp_root spec)
             else path_clean (path_join_all [config_root, sp_root spec]))
      else if blank base then Inl SpecRootMissing
      else Inr (path_join_all [base, sp_namespace spec, sp_agent spec]))"

fun check_unique_roots ::
    "string \<Rightarrow> string \<Rightarrow> (string \<times> string) list \<Rightarrow> agent_spec list \<Rightarrow> spec_error option" where
  "check_unique_roots config_root base seen [] = None"
| "check_unique_roots config_root base seen (spec # specs) =
     (if spec_filesystem_kind (rn_filesystem (sp_runtime spec)) = ''memory''
      then check_unique_roots config_root base seen specs
      else case resolve_root_path config_root base spec of
        Inl e \<Rightarrow> Some e
      | Inr rp \<Rightarrow>
          (let ref = sp_namespace spec @ ''/'' @ sp_agent spec
           in case map_of seen rp of
                Some other \<Rightarrow> Some (SpecRootShared other ref)
              | None \<Rightarrow> check_unique_roots config_root base ((rp, ref) # seen) specs))"

section \<open>Parameters for the store\<close>

definition desired_state_of :: "string \<Rightarrow> string" where
  "desired_state_of raw =
     (let s = trim_space raw in if s = ''paused'' then ''paused'' else if s = ''stopped'' then ''stopped'' else state_running)"

definition matcher_value :: "host_matcher \<Rightarrow> gval" where
  "matcher_value m =
     (let g = trim_space (hm_glob m); r = trim_space (hm_regex m)
      in GMap ((if g = [] then [] else [(''glob'', GStr g)]) @ (if r = [] then [] else [(''regex'', GStr r)])))"

definition header_value :: "header_spec \<Rightarrow> gval" where
  "header_value h =
     (let n = trim_space (hs_name h); e = trim_space (hs_env h); ds = map matcher_value (hs_domains h)
      in GMap ((if n = [] then [] else [(''name'', GStr n)]) @
               (case hs_value h of None \<Rightarrow> [] | Some v \<Rightarrow> [(''value'', GStr v)]) @
               (if e = [] then [] else [(''env_var'', GStr e)]) @ (if ds = [] then [] else [(''domains'', GList ds)])))"

definition memory_value :: "agent_spec \<Rightarrow> gval" where
  "memory_value spec =
     GMap ((if sp_memory_disable spec then [(''disable'', GBool True)] else []) @
           (if sp_memory_prompt spec = [] then [] else [(''prompt_override'', GStr (sp_memory_prompt spec))]))"

definition managed_agent_config :: "spec_lib \<Rightarrow> agent_spec \<Rightarrow> gval list \<Rightarrow> spec_error + gval" where
  "managed_agent_config lib spec tools =
     (let rt = sp_runtime spec;
          fixed =
            [(''managed_by'', GStr ''filesystem''), (''source_path'', GStr (sp_source spec)),
             (''description'', GStr (sp_description spec)),
             (''config'', case sp_config spec of None \<Rightarrow> GNil | Some kvs \<Rightarrow> GMap kvs)] @
            (if sp_capabilities spec = [] then [] else [(''capabilities'', GMap (sp_capabilities spec))]) @
            (if tools = [] then [] else [(''tools'', GList tools)]) @
            (if trim_space (rn_filesystem rt) = [] then []
             else [(''filesystem'', GMap [(''kind'', GStr (spec_filesystem_kind (rn_filesystem rt)))])]) @
            (if sp_memory_disable spec \<or> \<not> blank (sp_memory_prompt spec) then [(''memory'', memory_value spec)] else []);
          network = (case sp_network spec of None \<Rightarrow> [] | Some ms \<Rightarrow>
            if ms = [] then [] else [(''network'', GMap [(''reachable_hosts'', GList (map matcher_value ms))])]);
          http = (if sp_headers spec = [] then []
                  else [(''http'', GMap [(''headers'', GList (map header_value (sp_headers spec)))])]);
          threshold = (if 0 < rn_file_threshold rt then [(''output_file_threshold_bytes'', GInt (rn_file_threshold rt))] else [])
      in if sp_mounts spec = [] then Inr (GMap (fixed @ network @ http @ threshold))
         else case sl_mounts lib spec of
           Inl e \<Rightarrow> Inl (SpecMounts e)
         | Inr ms \<Rightarrow> Inr (GMap (fixed @ [(''mounts'', ms)] @ network @ http @ threshold)))"

definition build_agent_params :: "spec_lib \<Rightarrow> string \<Rightarrow> string \<Rightarrow> agent_spec \<Rightarrow> spec_error + create_agent_params" where
  "build_agent_params lib config_root base spec =
     (let rt = sp_runtime spec
      in case resolve_root_path config_root base spec of Inl e \<Rightarrow> Inl e | Inr rp \<Rightarrow>
         (case sl_tools lib (sp_tools spec) of Inl e \<Rightarrow> Inl (SpecTools e) | Inr tools \<Rightarrow>
         (case managed_agent_config lib spec tools of Inl e \<Rightarrow> Inl e | Inr config \<Rightarrow>
         (case parse_optional_duration (rn_step_timeout rt) of None \<Rightarrow> Inl (SpecDuration ''step_timeout'') | Some st \<Rightarrow>
         (case parse_optional_duration (rn_lease_duration rt) of None \<Rightarrow> Inl (SpecDuration ''lease_duration'') | Some ld \<Rightarrow>
         (case parse_optional_duration (rn_retry_delay rt) of None \<Rightarrow> Inl (SpecDuration ''retry_delay'') | Some rd \<Rightarrow>
         (case sl_schema lib tools (network_matchers (sp_network spec)) of Inl e \<Rightarrow> Inl (SpecSchema e) | Inr schema \<Rightarrow>
           Inr \<lparr>ca_namespace = sp_namespace spec, ca_agent = sp_agent spec, ca_name = sp_name spec, ca_role = role_worker,
                ca_desired = desired_state_of (rn_desired rt), ca_root = rp, ca_provider = sp_provider spec,
                ca_model = sp_model spec, ca_base_url = sp_base_url spec, ca_preserve = rn_preserve rt,
                ca_max_steps = rn_max_steps rt, ca_step_timeout = st, ca_max_output = rn_max_output rt,
                ca_lease_duration = ld, ca_retry_delay = rd, ca_max_attempts = rn_max_attempts rt,
                ca_config = config, ca_prompt = sp_prompt spec, ca_schema = schema\<rparr>)))))))"

definition default_schedule_payload :: "agent_spec \<Rightarrow> nat \<Rightarrow> gval" where
  "default_schedule_payload spec i =
     GMap [(''kind'', GStr ''scheduled_run''), (''agent_id'', GStr (sp_agent spec)),
           (''schedule'', GStr (derived_schedule_id (sp_agent spec) i)), (''source'', GStr (filepath_base (sp_source spec)))]"

fun schedule_params_from ::
    "cron_lib \<Rightarrow> agent_spec \<Rightarrow> string set \<Rightarrow> nat \<Rightarrow> schedule_spec list \<Rightarrow> spec_error + create_schedule_params list" where
  "schedule_params_from lib spec seen i [] = Inr []"
| "schedule_params_from lib spec seen i (sc # scs) =
     (if cron_parse lib (trim_space (ss_cron sc)) = None then Inl (SpecCron i)
      else case normalize_time_zone lib (ss_zone sc) of
        None \<Rightarrow> Inl (SpecZone i)
      | Some zone \<Rightarrow>
          (let sid = schedule_id_of spec i sc;
               payload = (if ss_payload sc = GNil then default_schedule_payload spec i else ss_payload sc)
           in if sid \<in> seen then Inl (SpecScheduleTwice sid)
              else map_sum id
                (Cons \<lparr>cs_namespace = sp_namespace spec, cs_schedule = sid, cs_agent = sp_agent spec,
                       cs_cron = trim_space (ss_cron sc), cs_zone = zone, cs_payload = payload,
                       cs_enabled = (case ss_enabled sc of None \<Rightarrow> True | Some b \<Rightarrow> b)\<rparr>)
                (schedule_params_from lib spec (insert sid seen) (i + 1) scs)))"

definition build_schedule_params :: "spec_lib \<Rightarrow> agent_spec \<Rightarrow> spec_error + create_schedule_params list" where
  "build_schedule_params lib spec = schedule_params_from (sl_cron lib) spec {} 0 (sp_schedules spec)"

section \<open>Synchronisation\<close>

record sync_summary =
  sy_namespaces_created :: nat
  sy_namespaces_updated :: nat
  sy_agents_created :: nat
  sy_agents_updated :: nat
  sy_agents_deleted :: nat
  sy_schedules_created :: nat
  sy_schedules_deleted :: nat

definition no_sync :: sync_summary where
  "no_sync = \<lparr>sy_namespaces_created = 0, sy_namespaces_updated = 0, sy_agents_created = 0, sy_agents_updated = 0,
     sy_agents_deleted = 0, sy_schedules_created = 0, sy_schedules_deleted = 0\<rparr>"

definition count_if :: "bool \<Rightarrow> nat \<Rightarrow> nat" where
  "count_if b n = (if b then n + 1 else n)"

text \<open>The clock and the random identifiers are read per operation: of which specification, and which of its calls.\<close>

record sync_env =
  se_clock :: "nat \<Rightarrow> nat \<Rightarrow> go_time"
  se_ids :: "nat \<Rightarrow> nat \<Rightarrow> string"

type_synonym 'a sync_op = "sync_summary \<Rightarrow> store \<Rightarrow> (spec_error + 'a) \<times> store"

fun sync_namespaces :: "sync_env \<Rightarrow> nat \<Rightarrow> string list \<Rightarrow> sync_summary sync_op" where
  "sync_namespaces env i [] sm s = (Inr sm, s)"
| "sync_namespaces env i (n # ns) sm s =
     (case put_namespace (se_clock env 0 i) (se_ids env 0 i) \<lparr>cn_id = n, cn_name = n, cn_limits = GNil\<rparr> s of
        (Inl e, s1) \<Rightarrow> (Inl (SpecStore e), s1)
      | (Inr r, s1) \<Rightarrow>
          sync_namespaces env (i + 1) ns
            (sm\<lparr>sy_namespaces_created := count_if (put_created r) (sy_namespaces_created sm),
                sy_namespaces_updated := count_if (put_updated r) (sy_namespaces_updated sm)\<rparr>) s1)"

fun create_schedules :: "cron_lib \<Rightarrow> sync_env \<Rightarrow> nat \<Rightarrow> nat \<Rightarrow> create_schedule_params list \<Rightarrow> sync_summary sync_op" where
  "create_schedules lib env i j [] sm s = (Inr sm, s)"
| "create_schedules lib env i j (p # ps) sm s =
     (case create_schedule lib (se_clock env i j) (se_ids env i j) p s of
        (Inl e, s1) \<Rightarrow> (Inl (SpecStore e), s1)
      | (Inr c, s1) \<Rightarrow>
          create_schedules lib env i (j + 1) ps (sm\<lparr>sy_schedules_created := sy_schedules_created sm + 1\<rparr>) s1)"

definition sync_spec :: "spec_lib \<Rightarrow> sync_env \<Rightarrow> string \<Rightarrow> string \<Rightarrow> nat \<Rightarrow> agent_spec \<Rightarrow> sync_summary sync_op" where
  "sync_spec lib env config_root base i spec sm s =
     (case build_agent_params lib config_root base spec of
        Inl e \<Rightarrow> (Inl e, s)
      | Inr p \<Rightarrow>
     (case put_agent (sl_mkdir lib) (se_clock env i 0) (se_ids env i 0) (se_ids env i 1) p s of
        (Inl e, s1) \<Rightarrow> (Inl (SpecStore e), s1)
      | (Inr r, s1) \<Rightarrow>
     (case delete_schedules_by_agent (sp_namespace spec) (sp_agent spec) s1 of
        (n, s2) \<Rightarrow>
     (case build_schedule_params lib spec of
        Inl e \<Rightarrow> (Inl e, s2)
      | Inr ps \<Rightarrow>
          create_schedules (sl_cron lib) env i 2 ps
            (sm\<lparr>sy_agents_created := count_if (put_created r) (sy_agents_created sm),
                sy_agents_updated := count_if (put_updated r) (sy_agents_updated sm),
                sy_schedules_deleted := sy_schedules_deleted sm + n\<rparr>) s2))))"

fun sync_each :: "spec_lib \<Rightarrow> sync_env \<Rightarrow> string \<Rightarrow> string \<Rightarrow> nat \<Rightarrow> agent_spec list \<Rightarrow> sync_summary sync_op" where
  "sync_each lib env config_root base i [] sm s = (Inr sm, s)"
| "sync_each lib env config_root base i (spec # specs) sm s =
     (case sync_spec lib env config_root base i spec sm s of
        (Inl e, s1) \<Rightarrow> (Inl e, s1)
      | (Inr sm1, s1) \<Rightarrow> sync_each lib env config_root base (i + 1) specs sm1 s1)"

text \<open>Agents without a specification go; one that is gone already is skipped.\<close>

fun prune_agents :: "(string \<times> string) set \<Rightarrow> string \<Rightarrow> string list \<Rightarrow> sync_summary sync_op" where
  "prune_agents desired ns [] sm s = (Inr sm, s)"
| "prune_agents desired ns (ag # ags) sm s =
     (if (ns, ag) \<in> desired then prune_agents desired ns ags sm s
      else case delete_agent ns ag s of
        (Inl e, s1) \<Rightarrow> if e = ErrNotFound then prune_agents desired ns ags sm s1 else (Inl (SpecStore e), s1)
      | (Inr u, s1) \<Rightarrow> prune_agents desired ns ags (sm\<lparr>sy_agents_deleted := sy_agents_deleted sm + 1\<rparr>) s1)"

fun prune_namespaces :: "(string \<times> string) set \<Rightarrow> string list \<Rightarrow> sync_summary sync_op" where
  "prune_namespaces desired [] sm s = (Inr sm, s)"
| "prune_namespaces desired (n # ns) sm s =
     (case snapshot_namespace n s of
        Inl e \<Rightarrow> (Inl (SpecStore e), s)
      | Inr snap \<Rightarrow>
     (case prune_agents desired n (map (a_id \<circ> ra_record) (ns_agents snap)) sm s of
        (Inl e, s1) \<Rightarrow> (Inl e, s1)
      | (Inr sm1, s1) \<Rightarrow> prune_namespaces desired ns sm1 s1))"

definition sync_specs ::
    "spec_lib \<Rightarrow> sync_env \<Rightarrow> string \<Rightarrow> string \<Rightarrow> bool \<Rightarrow> agent_spec list \<Rightarrow> store \<Rightarrow> (spec_error + sync_summary) \<times> store" where
  "sync_specs lib env config_root base prune specs s =
     (case check_unique_roots config_root base [] specs of
        Some e \<Rightarrow> (Inl e, s)
      | None \<Rightarrow>
     (case sync_namespaces env 0 (sort (remdups (map sp_namespace specs))) no_sync s of
        (Inl e, s1) \<Rightarrow> (Inl e, s1)
      | (Inr sm1, s1) \<Rightarrow>
     (case sync_each lib env config_root base 1 specs sm1 s1 of
        (Inl e, s2) \<Rightarrow> (Inl e, s2)
      | (Inr sm2, s2) \<Rightarrow>
          if \<not> prune then (Inr sm2, s2)
          else prune_namespaces (spec_key ` set specs) (map n_id (list_namespaces s2)) sm2 s2)))"

end
