(* ===== verification/SyncPlan.thy ===== *)
theory SyncPlan
  imports Specs
begin

text \<open>
  The plan of a synchronisation (\<open>pkg/server/sync_plan.go\<close>, \<open>sync_plan_defaults.go\<close>, \<open>render.go\<close>): what the
  specifications want is compared with what the store holds, without changing it.
\<close>

section \<open>Rendering\<close>

text \<open>
  \<open>time.Duration.String\<close>: the fraction loses its trailing zeros; below a second the unit is chosen so that
  the number is at least one.
\<close>

definition fraction_str :: "nat \<Rightarrow> int \<Rightarrow> string" where
  "fraction_str prec r =
     (let ds = rev (dropWhile (\<lambda>c. c = CHR ''0'') (rev (pad_zeros prec (int_str r)))) in if ds = [] then [] else CHR ''.'' # ds)"

definition duration_str :: "duration \<Rightarrow> string" where
  "duration_str d =
     (let u = \<bar>d\<bar>; sign = (if d < 0 then ''-'' else []); secs = u div second; mins = secs div 60; hours = mins div 60;
          scaled = (\<lambda>unit prec name. int_str (u div unit) @ fraction_str prec (u mod unit) @ name)
      in if u = 0 then ''0s''
         else if u < 1000 then sign @ int_str u @ ''ns''
         else if u < 1000000 then sign @ scaled 1000 3 [CHR 0xC2, CHR 0xB5, CHR ''s'']
         else if u < second then sign @ scaled 1000000 6 ''ms''
         else sign @ (if 0 < hours then int_str hours @ ''h'' else []) @
              (if 0 < mins then int_str (mins mod 60) @ ''m'' else []) @
              int_str (secs mod 60) @ fraction_str 9 (u mod second) @ ''s'')"

definition bool_str :: "bool \<Rightarrow> string" where
  "bool_str b = (if b then ''true'' else ''false'')"

text \<open>The text of a stored column, indented JSON, and whether a configuration gives global network access.\<close>

record plan_env =
  pe_text :: "env_text \<Rightarrow> string"
  pe_json :: "gval \<Rightarrow> string"
  pe_network :: "env_text \<Rightarrow> bool"

definition render_value :: "plan_env \<Rightarrow> gval \<Rightarrow> string" where
  "render_value env v = (case v of GNil \<Rightarrow> [] | GStr s \<Rightarrow> s | _ \<Rightarrow> pe_json env v)"

definition render_envelope :: "plan_env \<Rightarrow> env_text \<Rightarrow> string" where
  "render_envelope env t = (case decode_envelope_any t of None \<Rightarrow> pe_text env t | Some v \<Rightarrow> render_value env v)"

section \<open>What the specifications want\<close>

record desired_agent =
  da_namespace :: string
  da_agent :: string
  da_name :: string
  da_role :: string
  da_state :: string
  da_root :: string
  da_provider :: string
  da_model :: string
  da_base_url :: string
  da_preserve :: bool
  da_max_steps :: int
  da_step_timeout :: duration
  da_max_output :: int
  da_lease_duration :: duration
  da_retry_delay :: duration
  da_max_attempts :: int
  da_config :: env_text
  da_prompt :: string
  da_source :: string

record desired_schedule =
  ds_namespace :: string
  ds_agent :: string
  ds_id :: string
  ds_cron :: string
  ds_zone :: string
  ds_payload :: env_text
  ds_enabled :: bool
  ds_source :: string

definition normalized_name :: "create_agent_params \<Rightarrow> string" where
  "normalized_name p = (if trim_space (ca_name p) = [] then ca_agent p else trim_space (ca_name p))"

definition normalized_provider :: "create_agent_params \<Rightarrow> string" where
  "normalized_provider p = (if trim_space (ca_provider p) = [] then ''openai'' else trim_space (ca_provider p))"

definition or_default :: "int \<Rightarrow> int \<Rightarrow> int" where
  "or_default d v = (if v = 0 then d else v)"

definition normalized_prompt :: "string \<Rightarrow> string" where
  "normalized_prompt p = (if trim_space p = [] then ''You are an agent managed by the SQLite server.'' else trim_space p)"

definition build_desired_agent :: "spec_lib \<Rightarrow> string \<Rightarrow> string \<Rightarrow> agent_spec \<Rightarrow> spec_error + desired_agent" where
  "build_desired_agent lib config_root base spec =
     (case build_agent_params lib config_root base spec of
        Inl e \<Rightarrow> Inl e
      | Inr p \<Rightarrow>
     (case marshal_optional_envelope ''agent_config'' (ca_config p) of
        None \<Rightarrow> Inl SpecEncode
      | Some config \<Rightarrow>
          Inr \<lparr>da_namespace = ca_namespace p, da_agent = ca_agent p, da_name = normalized_name p,
               da_role = (if ca_role p = [] then role_worker else ca_role p),
               da_state = (if ca_desired p = [] then state_running else ca_desired p), da_root = ca_root p,
               da_provider = normalized_provider p, da_model = trim_space (ca_model p),
               da_base_url = trim_space (ca_base_url p), da_preserve = ca_preserve p,
               da_max_steps = or_default 32 (ca_max_steps p), da_step_timeout = or_default (5 * minute) (ca_step_timeout p),
               da_max_output = or_default 65536 (ca_max_output p),
               da_lease_duration = or_default (5 * minute) (ca_lease_duration p),
               da_retry_delay = or_default (30 * second) (ca_retry_delay p), da_max_attempts = or_default 5 (ca_max_attempts p),
               da_config = config, da_prompt = normalized_prompt (ca_prompt p), da_source = sp_source spec\<rparr>))"

fun encode_schedules :: "agent_spec \<Rightarrow> create_schedule_params list \<Rightarrow> spec_error + desired_schedule list" where
  "encode_schedules spec [] = Inr []"
| "encode_schedules spec (p # ps) =
     (case marshal_envelope ''schedule_payload'' (cs_payload p) of
        None \<Rightarrow> Inl SpecEncode
      | Some payload \<Rightarrow>
          map_sum id (Cons \<lparr>ds_namespace = cs_namespace p, ds_agent = cs_agent p, ds_id = cs_schedule p, ds_cron = cs_cron p,
                           ds_zone = cs_zone p, ds_payload = payload, ds_enabled = cs_enabled p, ds_source = sp_source spec\<rparr>)
            (encode_schedules spec ps))"

definition build_desired_schedules :: "spec_lib \<Rightarrow> agent_spec \<Rightarrow> spec_error + desired_schedule list" where
  "build_desired_schedules lib spec =
     (case build_schedule_params lib spec of Inl e \<Rightarrow> Inl e | Inr ps \<Rightarrow> encode_schedules spec ps)"

definition plan_key :: "string \<Rightarrow> string \<Rightarrow> string" where
  "plan_key ns i = ns @ CHR 0x00 # i"

text \<open>A Go map is an association list, in which a later entry replaces an earlier one.\<close>

definition put_key :: "string \<Rightarrow> 'a \<Rightarrow> (string \<times> 'a) list \<Rightarrow> (string \<times> 'a) list" where
  "put_key k v m = (k, v) # filter (\<lambda>x. fst x \<noteq> k) m"

definition keyed :: "('a \<Rightarrow> string) \<Rightarrow> 'a list \<Rightarrow> (string \<times> 'a) list" where
  "keyed key xs = fold (\<lambda>x. put_key (key x) x) xs []"

fun add_schedules :: "desired_schedule list \<Rightarrow> (string \<times> desired_schedule) list \<Rightarrow> spec_error + (string \<times> desired_schedule) list" where
  "add_schedules [] m = Inr m"
| "add_schedules (d # ds) m =
     (let key = plan_key (ds_namespace d) (ds_id d)
      in if map_of m key \<noteq> None then Inl (SpecScheduleTwice (ds_id d)) else add_schedules ds (put_key key d m))"

fun collect_desired ::
    "spec_lib \<Rightarrow> string \<Rightarrow> string \<Rightarrow> agent_spec list \<Rightarrow> (string \<times> desired_agent) list \<Rightarrow> (string \<times> desired_schedule) list \<Rightarrow>
     spec_error + (string \<times> desired_agent) list \<times> (string \<times> desired_schedule) list" where
  "collect_desired lib config_root base [] das dss = Inr (das, dss)"
| "collect_desired lib config_root base (spec # specs) das dss =
     (case build_desired_agent lib config_root base spec of
        Inl e \<Rightarrow> Inl e
      | Inr da \<Rightarrow>
     (case build_desired_schedules lib spec of
        Inl e \<Rightarrow> Inl e
      | Inr ds \<Rightarrow>
     (case add_schedules ds dss of
        Inl e \<Rightarrow> Inl e
      | Inr dss' \<Rightarrow>
          collect_desired lib config_root base specs (put_key (plan_key (sp_namespace spec) (sp_agent spec)) da das) dss')))"

section \<open>Differences\<close>

record field_change =
  fc_field :: string
  fc_before :: string
  fc_after :: string

definition change_of :: "string \<Rightarrow> string \<Rightarrow> string \<Rightarrow> field_change list" where
  "change_of field before after =
     (if before = after then [] else [\<lparr>fc_field = field, fc_before = before, fc_after = after\<rparr>])"

text \<open>The wanted namespace has its identifier as its name and no limits.\<close>

definition diff_namespace :: "plan_env \<Rightarrow> namespace_row \<Rightarrow> string \<Rightarrow> field_change list" where
  "diff_namespace env row name =
     change_of ''name'' (n_name row) name @
     (if n_limits row = NoText then []
      else [\<lparr>fc_field = ''limits'', fc_before = render_envelope env (n_limits row), fc_after = render_envelope env NoText\<rparr>])"

definition diff_agent :: "plan_env \<Rightarrow> runnable_agent \<Rightarrow> desired_agent \<Rightarrow> field_change list" where
  "diff_agent env old d =
     (let a = ra_record old
      in change_of ''name'' (a_name a) (da_name d) @ change_of ''role'' (a_role a) (da_role d) @
         change_of ''desired_state'' (a_desired a) (da_state d) @ change_of ''root_path'' (a_root a) (da_root d) @
         change_of ''model_provider'' (a_provider a) (da_provider d) @ change_of ''model_name'' (a_model a) (da_model d) @
         change_of ''model_base_url'' (a_base_url a) (da_base_url d) @
         change_of ''global_network_enabled'' (bool_str (pe_network env (a_config a))) (bool_str (pe_network env (da_config d))) @
         change_of ''preserve_state'' (bool_str (a_preserve a)) (bool_str (da_preserve d)) @
         change_of ''max_steps'' (int_str (a_max_steps a)) (int_str (da_max_steps d)) @
         change_of ''step_timeout'' (duration_str (a_step_timeout a)) (duration_str (da_step_timeout d)) @
         change_of ''max_output_bytes'' (int_str (a_max_output a)) (int_str (da_max_output d)) @
         change_of ''lease_duration'' (duration_str (a_lease_duration a)) (duration_str (da_lease_duration d)) @
         change_of ''retry_delay'' (duration_str (a_retry_delay a)) (duration_str (da_retry_delay d)) @
         change_of ''max_attempts'' (int_str (a_max_attempts a)) (int_str (da_max_attempts d)) @
         change_of ''config'' (render_envelope env (a_config a)) (render_envelope env (da_config d)) @
         change_of ''system_prompt'' (ra_prompt old) (da_prompt d))"

definition diff_schedule :: "plan_env \<Rightarrow> schedule \<Rightarrow> desired_schedule \<Rightarrow> field_change list" where
  "diff_schedule env old d =
     change_of ''agent_id'' (s_agent old) (ds_agent d) @ change_of ''cron_expr'' (s_cron old) (ds_cron d) @
     change_of ''timezone'' (s_zone old) (ds_zone d) @
     change_of ''enabled'' (bool_str (s_enabled old)) (bool_str (ds_enabled d)) @
     change_of ''payload'' (render_envelope env (s_payload old)) (render_envelope env (ds_payload d))"

section \<open>The plan\<close>

datatype change_action = ChangeCreate | ChangeUpdate | ChangeDelete

definition action_text :: "change_action \<Rightarrow> string" where
  "action_text a = (case a of ChangeCreate \<Rightarrow> ''create'' | ChangeUpdate \<Rightarrow> ''update'' | ChangeDelete \<Rightarrow> ''delete'')"

record namespace_change =
  nc_action :: change_action
  nc_namespace :: string
  nc_changes :: "field_change list"

record agent_change =
  ac_action :: change_action
  ac_namespace :: string
  ac_agent :: string
  ac_source :: string
  ac_root :: string
  ac_model :: string
  ac_changes :: "field_change list"

record schedule_change =
  sc_action :: change_action
  sc_namespace :: string
  sc_agent :: string
  sc_schedule :: string
  sc_source :: string
  sc_cron :: string
  sc_zone :: string
  sc_enabled :: bool
  sc_changes :: "field_change list"

record sync_plan =
  pl_namespaces :: "namespace_change list"
  pl_agents :: "agent_change list"
  pl_schedules :: "schedule_change list"

definition plan_namespace :: "plan_env \<Rightarrow> namespace_row list \<Rightarrow> string \<Rightarrow> namespace_change list" where
  "plan_namespace env rows n =
     (case find (\<lambda>r. n_id r = n) rows of
        None \<Rightarrow> [\<lparr>nc_action = ChangeCreate, nc_namespace = n, nc_changes = []\<rparr>]
      | Some r \<Rightarrow>
          (let cs = diff_namespace env r n
           in if cs = [] then [] else [\<lparr>nc_action = ChangeUpdate, nc_namespace = n, nc_changes = cs\<rparr>]))"

definition plan_agent :: "plan_env \<Rightarrow> (string \<times> runnable_agent) list \<Rightarrow> string \<times> desired_agent \<Rightarrow> agent_change list" where
  "plan_agent env existing x =
     (let d = snd x;
          change = (\<lambda>act cs. \<lparr>ac_action = act, ac_namespace = da_namespace d, ac_agent = da_agent d, ac_source = da_source d,
                              ac_root = da_root d, ac_model = da_model d, ac_changes = cs\<rparr>)
      in case map_of existing (fst x) of
           None \<Rightarrow> [change ChangeCreate []]
         | Some old \<Rightarrow>
             (let cs = diff_agent env old d in if cs = [] then [] else [change ChangeUpdate cs]))"

definition plan_agent_gone :: "(string \<times> desired_agent) list \<Rightarrow> string \<times> runnable_agent \<Rightarrow> agent_change list" where
  "plan_agent_gone desired x =
     (if map_of desired (fst x) \<noteq> None then []
      else let a = ra_record (snd x)
           in [\<lparr>ac_action = ChangeDelete, ac_namespace = a_namespace a, ac_agent = a_id a, ac_source = [], ac_root = a_root a,
                ac_model = a_model a, ac_changes = []\<rparr>])"

definition plan_schedule :: "plan_env \<Rightarrow> (string \<times> schedule) list \<Rightarrow> string \<times> desired_schedule \<Rightarrow> schedule_change list" where
  "plan_schedule env existing x =
     (let d = snd x;
          change = (\<lambda>act cs. \<lparr>sc_action = act, sc_namespace = ds_namespace d, sc_agent = ds_agent d, sc_schedule = ds_id d,
                              sc_source = ds_source d, sc_cron = ds_cron d, sc_zone = ds_zone d, sc_enabled = ds_enabled d,
                              sc_changes = cs\<rparr>)
      in case map_of existing (fst x) of
           None \<Rightarrow> [change ChangeCreate []]
         | Some old \<Rightarrow>
             (let cs = diff_schedule env old d in if cs = [] then [] else [change ChangeUpdate cs]))"

definition plan_schedule_gone :: "(string \<times> desired_schedule) list \<Rightarrow> string \<times> schedule \<Rightarrow> schedule_change list" where
  "plan_schedule_gone desired x =
     (if map_of desired (fst x) \<noteq> None then []
      else let c = snd x
           in [\<lparr>sc_action = ChangeDelete, sc_namespace = s_namespace c, sc_agent = s_agent c, sc_schedule = s_id c,
                sc_source = [], sc_cron = s_cron c, sc_zone = s_zone c, sc_enabled = s_enabled c, sc_changes = []\<rparr>])"

definition existing_agents :: "store \<Rightarrow> (string \<times> runnable_agent) list" where
  "existing_agents s = keyed (\<lambda>a. plan_key (a_namespace (ra_record a)) (a_id (ra_record a))) (list_agents [] s)"

definition existing_schedules :: "store \<Rightarrow> (string \<times> schedule) list" where
  "existing_schedules s =
     keyed (\<lambda>c. plan_key (s_namespace c) (s_id c)) (concat (map (\<lambda>n. list_schedules (n_id n) s) (list_namespaces s)))"

text \<open>The changes are sorted; no two have the same key, so the order of the maps does not matter.\<close>

definition plan_sync ::
    "plan_env \<Rightarrow> spec_lib \<Rightarrow> string \<Rightarrow> string \<Rightarrow> agent_spec list \<Rightarrow> store \<Rightarrow> spec_error + sync_plan" where
  "plan_sync env lib config_root base specs s =
     (case check_unique_roots config_root base [] specs of
        Some e \<Rightarrow> Inl e
      | None \<Rightarrow>
     (case collect_desired lib config_root base specs [] [] of
        Inl e \<Rightarrow> Inl e
      | Inr (das, dss) \<Rightarrow>
          (let old_agents = existing_agents s; old_schedules = existing_schedules s
           in Inr
             \<lparr>pl_namespaces = sort_key nc_namespace
                (concat (map (plan_namespace env (list_namespaces s)) (remdups (map sp_namespace specs)))),
              pl_agents = sort_key (\<lambda>c. (ac_namespace c, ac_agent c, action_text (ac_action c)))
                (concat (map (plan_agent env old_agents) das) @ concat (map (plan_agent_gone das) old_agents)),
              pl_schedules = sort_key (\<lambda>c. (sc_namespace c, sc_agent c, sc_schedule c, action_text (sc_action c)))
                (concat (map (plan_schedule env old_schedules) dss) @ concat (map (plan_schedule_gone dss) old_schedules))\<rparr>)))"

definition has_changes :: "sync_plan \<Rightarrow> bool" where
  "has_changes p \<longleftrightarrow> pl_namespaces p \<noteq> [] \<or> pl_agents p \<noteq> [] \<or> pl_schedules p \<noteq> []"

text \<open>The summary counts the changes by their action.\<close>

record plan_summary =
  ps_namespaces_created :: nat
  ps_namespaces_updated :: nat
  ps_agents_created :: nat
  ps_agents_updated :: nat
  ps_agents_deleted :: nat
  ps_schedules_created :: nat
  ps_schedules_updated :: nat
  ps_schedules_deleted :: nat

definition count_action :: "change_action \<Rightarrow> change_action list \<Rightarrow> nat" where
  "count_action a as = length (filter (\<lambda>b. b = a) as)"

definition plan_counts :: "sync_plan \<Rightarrow> plan_summary" where
  "plan_counts p =
     (let ns = map nc_action (pl_namespaces p); ags = map ac_action (pl_agents p); scs = map sc_action (pl_schedules p)
      in \<lparr>ps_namespaces_created = count_action ChangeCreate ns, ps_namespaces_updated = count_action ChangeUpdate ns,
          ps_agents_created = count_action ChangeCreate ags, ps_agents_updated = count_action ChangeUpdate ags,
          ps_agents_deleted = count_action ChangeDelete ags, ps_schedules_created = count_action ChangeCreate scs,
          ps_schedules_updated = count_action ChangeUpdate scs, ps_schedules_deleted = count_action ChangeDelete scs\<rparr>)"

end
