(* ===== verification/HostLaws.thy ===== *)
theory HostLaws
  imports Hosts
begin

text \<open>
  What the network policy guarantees: a dialer of an agent reaches a host only if one of its matchers
  accepts it, and a header rule changes only requests to a host its domains accept.
\<close>

section \<open>Matchers\<close>

definition matcher_accepts :: "net_lib \<Rightarrow> host_matcher \<Rightarrow> string \<Rightarrow> bool" where
  "matcher_accepts lib m host \<longleftrightarrow>
     (case compile_host_matcher lib m of Inl e \<Rightarrow> False | Inr c \<Rightarrow> matcher_matches c host)"

lemma compiled_matches:
  "compile_host_matchers lib ms = Inr cs \<Longrightarrow> host_matches_any cs host \<longleftrightarrow> (\<exists>m \<in> set ms. matcher_accepts lib m host)"
proof (induction ms arbitrary: cs)
  case (Cons m ms)
  from Cons.prems obtain c cs' where "compile_host_matcher lib m = Inr c" "compile_host_matchers lib ms = Inr cs'" "cs = c # cs'"
    by (auto split: sum.splits) (auto simp: map_sum_def split: sum.splits)
  then show ?case using Cons.IH [of cs'] by (simp add: host_matches_any_def matcher_accepts_def)
qed (simp add: host_matches_any_def)

lemma compiled_empty: "compile_host_matchers lib ms = Inr cs \<Longrightarrow> cs = [] \<longleftrightarrow> ms = []"
  by (cases ms) (auto simp: map_sum_def split: sum.splits)

lemma set_merge_matchers: "set (merge_matchers seen ms) = set ms - seen"
  by (induction seen ms rule: merge_matchers.induct) auto

lemma distinct_merge_matchers: "distinct (merge_matchers seen ms)"
  by (induction seen ms rule: merge_matchers.induct) (auto simp: set_merge_matchers)

section \<open>Dialing\<close>

text \<open>A dialer is confined to hosts if it either fails and leaves the world as it is, or acts as its base on one of them.\<close>

definition confined_dialer :: "net_lib \<Rightarrow> (string \<Rightarrow> bool) \<Rightarrow> ('w, 'c) dialer option \<Rightarrow> ('w, 'c) dialer \<Rightarrow> bool" where
  "confined_dialer lib accept base d \<longleftrightarrow>
     (\<forall>cancelled network address w.
        (\<exists>e. d cancelled network address w = (Inl e, w)) \<or>
        (\<exists>b. base = Some b \<and> d cancelled network address w = b cancelled network address w \<and>
             \<not> blank (dial_address_host lib address) \<and> accept (dial_address_host lib address)))"

lemma confined_mono:
  assumes "confined_dialer lib P base d" "\<And>h. P h \<Longrightarrow> Q h"
  shows "confined_dialer lib Q base d"
  unfolding confined_dialer_def
proof (intro allI)
  fix cancelled network address w
  from assms(1) have "(\<exists>e. d cancelled network address w = (Inl e, w)) \<or>
      (\<exists>b. base = Some b \<and> d cancelled network address w = b cancelled network address w \<and>
           \<not> blank (dial_address_host lib address) \<and> P (dial_address_host lib address))"
    unfolding confined_dialer_def by (elim allE)
  with assms(2) [of "dial_address_host lib address"] show "(\<exists>e. d cancelled network address w = (Inl e, w)) \<or>
      (\<exists>b. base = Some b \<and> d cancelled network address w = b cancelled network address w \<and>
           \<not> blank (dial_address_host lib address) \<and> Q (dial_address_host lib address))" by auto
qed

lemma reject_confined: "confined_dialer lib accept base reject_all"
  by (simp add: confined_dialer_def reject_all_def)

lemma allowlist_confined:
  assumes "new_allowlist_dialer lib base ms = Inr d"
  shows "confined_dialer lib (\<lambda>h. \<exists>m \<in> set ms. matcher_accepts lib m h) base d"
proof -
  from assms obtain cs where cs: "compile_host_matchers lib ms = Inr cs"
    and d: "d = allowlist_dial lib (case base of None \<Rightarrow> reject_all | Some b \<Rightarrow> b) cs"
    by (auto simp: new_allowlist_dialer_def split: sum.splits if_splits)
  show ?thesis
    unfolding confined_dialer_def d
    by (auto simp: allowlist_dial_def Let_def reject_all_def blank_def compiled_matches [OF cs] split: option.splits)
qed

lemma agent_dialer_confined:
  assumes "agent_http_factory lib base reachable headers = Inr fac"
  shows "confined_dialer lib (\<lambda>h. \<exists>m \<in> set reachable. matcher_accepts lib m h) base (hf_dialer fac)"
proof -
  obtain d where d: "agent_scoped_dialer lib base reachable = Inr d"
    using assms by (auto simp: agent_http_factory_def split: sum.splits)
  then have f: "hf_dialer fac = (case d of None \<Rightarrow> reject_all | Some x \<Rightarrow> x)"
    using assms by (auto simp: agent_http_factory_def new_http_factory_def map_sum_def split: sum.splits)
  show ?thesis
  proof (cases d)
    case None then show ?thesis using f by (simp add: reject_confined)
  next
    case (Some x)
    then have "new_allowlist_dialer lib base reachable = Inr x"
      using d by (auto simp: agent_scoped_dialer_def map_sum_def split: if_splits sum.splits)
    then show ?thesis using f Some allowlist_confined by simp
  qed
qed

section \<open>Headers\<close>

lemma compiled_rules:
  "compile_header_rules lib rs = Inr cs \<Longrightarrow>
     list_all2 (\<lambda>r c. ch_name c = trim_space (hr_name r) \<and> ch_value c = hr_value r \<and>
        (\<forall>h. rule_matches c h \<longleftrightarrow> hr_domains r = [] \<or> (\<exists>m \<in> set (hr_domains r). matcher_accepts lib m h))) rs cs"
proof (induction rs arbitrary: cs)
  case (Cons r rs)
  from Cons.prems obtain ds cs' where ds: "compile_host_matchers lib (hr_domains r) = Inr ds"
    and cs: "compile_header_rules lib rs = Inr cs'" "cs = \<lparr>ch_name = trim_space (hr_name r), ch_value = hr_value r, ch_domains = ds\<rparr> # cs'"
    by (auto split: sum.splits if_splits) (auto simp: map_sum_def split: sum.splits)
  have "ds = [] \<longleftrightarrow> hr_domains r = []" by (rule compiled_empty [OF ds])
  then show ?case using cs Cons.IH [OF cs(1)] compiled_matches [OF ds] by (simp add: rule_matches_def)
qed simp

text \<open>A header that differs was set by a rule that matches, and has the value of one.\<close>

lemma applied_rules:
  "rq_header (apply_header_rules rs host rq) n = rq_header rq n \<or>
   (\<exists>r \<in> set rs. rule_matches r host \<and> canonical_header (ch_name r) = n \<and>
      rq_header (apply_header_rules rs host rq) n = Some [ch_value r])"
proof (induction rs host rq rule: apply_header_rules.induct)
  case (2 r rs host rq)
  then show ?case by (auto simp: header_set_def split: if_splits)
qed simp

lemma applied_host:
  "rq_host (apply_header_rules rs host rq) = rq_host rq \<or>
   (\<exists>r \<in> set rs. rule_matches r host \<and> is_host_name (ch_name r) \<and> rq_host (apply_header_rules rs host rq) = ch_value r)"
proof (induction rs host rq rule: apply_header_rules.induct)
  case (2 r rs host rq)
  then show ?case by (auto simp: header_set_def split: if_splits)
qed simp

lemma applied_url: "rq_url_host (apply_header_rules rs host rq) = rq_url_host rq"
  by (induction rs host rq rule: apply_header_rules.induct) (auto simp: header_set_def)

lemma list_all2_set2: "\<lbrakk>list_all2 P xs ys; y \<in> set ys\<rbrakk> \<Longrightarrow> \<exists>x \<in> set xs. P x y"
  by (induction rule: list_all2_induct) auto

lemma list_all2_set1: "\<lbrakk>list_all2 P xs ys; x \<in> set xs\<rbrakk> \<Longrightarrow> \<exists>y \<in> set ys. P x y"
  by (induction rule: list_all2_induct) auto

lemma header_rules_confined:
  assumes c: "compile_header_rules lib rules = Inr cs"
    and d: "rq_header (round_trip_request lib cs rq) n \<noteq> rq_header rq n"
  shows "\<exists>r \<in> set rules. canonical_header (trim_space (hr_name r)) = n \<and>
    rq_header (round_trip_request lib cs rq) n = Some [hr_value r] \<and>
    (hr_domains r = [] \<or> (\<exists>m \<in> set (hr_domains r). matcher_accepts lib m (nl_lower lib (trim_space (rq_url_host rq)))))"
proof -
  let ?h = "nl_lower lib (trim_space (rq_url_host rq))"
  obtain x where x: "x \<in> set cs" "rule_matches x ?h" "canonical_header (ch_name x) = n"
    "rq_header (round_trip_request lib cs rq) n = Some [ch_value x]"
    using applied_rules [of cs ?h rq n] d by (auto simp: round_trip_request_def)
  obtain r where "r \<in> set rules" "ch_name x = trim_space (hr_name r)" "ch_value x = hr_value r"
    "rule_matches x ?h \<longleftrightarrow> hr_domains r = [] \<or> (\<exists>m \<in> set (hr_domains r). matcher_accepts lib m ?h)"
    using list_all2_set2 [OF compiled_rules [OF c] x(1)] by auto
  with x show ?thesis by (intro bexI [of _ r]) simp_all
qed

lemma factory_headers_confined:
  assumes "agent_http_factory lib base reachable headers = Inr fac"
    and "rq_header (round_trip_request lib (hf_rules fac) rq) n \<noteq> rq_header rq n"
  shows "\<exists>h \<in> set headers. canonical_header (trim_space (hr_name h)) = n \<and>
    rq_header (round_trip_request lib (hf_rules fac) rq) n = Some [hr_value h] \<and>
    (hr_domains h = [] \<or> (\<exists>m \<in> set (hr_domains h). matcher_accepts lib m (nl_lower lib (trim_space (rq_url_host rq)))))"
proof -
  have "compile_header_rules lib headers = Inr (hf_rules fac)"
    using assms(1) by (auto simp: agent_http_factory_def new_http_factory_def map_sum_def split: sum.splits)
  from header_rules_confined [OF this assms(2)] show ?thesis .
qed

lemma round_trip_url: "rq_url_host (round_trip_request lib cs rq) = rq_url_host rq"
  by (simp add: round_trip_request_def applied_url)

section \<open>Tools\<close>

lemma effective_host_scope:
  "m \<in> set (effective_tool_hosts scope global required) \<Longrightarrow>
   normalized_scope scope = ScopeGlobal \<and> m \<in> set global \<or>
   normalized_scope scope = ScopeScoped \<and> m \<in> set global \<union> set required"
  by (auto simp: effective_tool_hosts_def merge_host_matchers_def set_merge_matchers split: network_scope.splits)

lemma tool_dial_confined:
  assumes f: "agent_http_factory lib base (effective_tool_hosts scope global required) headers = Inr fac"
    and d: "hf_dialer fac cancelled network address w = (r, w')"
  shows "(\<exists>e. r = Inl e) \<and> w' = w \<or>
    (\<exists>b m. base = Some b \<and> b cancelled network address w = (r, w') \<and> matcher_accepts lib m (dial_address_host lib address) \<and>
       (normalized_scope scope = ScopeGlobal \<and> m \<in> set global \<or>
        normalized_scope scope = ScopeScoped \<and> m \<in> set global \<union> set required))"
proof -
  let ?accept = "\<lambda>h. \<exists>m \<in> set (effective_tool_hosts scope global required). matcher_accepts lib m h"
  consider e where "hf_dialer fac cancelled network address w = (Inl e, w)"
    | b where "base = Some b" "hf_dialer fac cancelled network address w = b cancelled network address w"
        "?accept (dial_address_host lib address)"
    using agent_dialer_confined [OF f] unfolding confined_dialer_def by metis
  then show ?thesis
  proof cases
    case 1 then show ?thesis using d by simp
  next
    case 2
    then obtain m where "m \<in> set (effective_tool_hosts scope global required)" "matcher_accepts lib m (dial_address_host lib address)"
      by blast
    with effective_host_scope [OF this(1)] 2(1,2) d show ?thesis by auto
  qed
qed

end
