(* ===== verification/SpecsLaws.thy ===== *)
theory SpecsLaws
  imports SyncPlan AgentLaws HostLaws PatchLaws
begin

text \<open>
  What a synchronisation leaves in the store: each specification's namespace, agent and schedules with the
  wanted columns, and no other agent. A later plan from the same specifications finds nothing to change.
\<close>

section \<open>Settled rows\<close>

definition param_key :: "create_agent_params \<Rightarrow> string \<times> string" where
  "param_key p = (ca_namespace p, ca_agent p)"

definition agent_settled :: "create_agent_params \<Rightarrow> store \<Rightarrow> bool" where
  "agent_settled p s \<longleftrightarrow>
     (\<exists>config a. marshal_optional_envelope ''agent_config'' (ca_config p) = Some config \<and> a \<in> set (agents s) \<and>
        a_key a = param_key p \<and> \<not> agent_differs p config (ra_record (scan_runnable_agent s a)) \<and>
        ra_prompt (scan_runnable_agent s a) = prompt_or_default (ca_prompt p))"

definition schedule_row_of :: "create_schedule_params \<Rightarrow> schedule \<Rightarrow> bool" where
  "schedule_row_of p c \<longleftrightarrow>
     s_namespace c = cs_namespace p \<and> s_id c = cs_schedule p \<and> s_agent c = cs_agent p \<and> s_cron c = cs_cron p \<and>
     s_zone c = cs_zone p \<and> marshal_envelope ''schedule_payload'' (cs_payload p) = Some (s_payload c) \<and>
     s_enabled c = cs_enabled p"

definition schedules_settled :: "string \<times> string \<Rightarrow> create_schedule_params list \<Rightarrow> store \<Rightarrow> bool" where
  "schedules_settled k ps s \<longleftrightarrow>
     (\<forall>p \<in> set ps. \<exists>c \<in> set (schedules s). s_owner c = k \<and> schedule_row_of p c) \<and>
     (\<forall>c \<in> set (schedules s). s_owner c = k \<longrightarrow> (\<exists>p \<in> set ps. schedule_row_of p c))"

definition namespace_settled :: "string \<Rightarrow> store \<Rightarrow> bool" where
  "namespace_settled n s \<longleftrightarrow>
     (\<exists>r \<in> set (namespaces s). n_id r = n) \<and>
     (\<forall>r \<in> set (namespaces s). n_id r = n \<longrightarrow> n_name r = n \<and> n_limits r = NoText)"

text \<open>Rows of the agents in \<open>K\<close> that an operation leaves alone.\<close>

definition keeps :: "(string \<times> string) set \<Rightarrow> store \<Rightarrow> store \<Rightarrow> bool" where
  "keeps K s s' \<longleftrightarrow>
     namespaces s' = namespaces s \<and> (\<forall>a \<in> set (agents s). a_key a \<in> K \<longrightarrow> a \<in> set (agents s')) \<and>
     (\<forall>r \<in> set (prompts s). p_owner r \<in> K \<longrightarrow> r \<in> set (prompts s')) \<and>
     (\<forall>c. s_owner c \<in> K \<longrightarrow> (c \<in> set (schedules s') \<longleftrightarrow> c \<in> set (schedules s)))"

lemma keeps_refl [simp]: "keeps K s s"
  by (simp add: keeps_def)

lemma keeps_trans: "\<lbrakk>keeps K s s'; keeps K s' s''\<rbrakk> \<Longrightarrow> keeps K s s''"
  by (simp add: keeps_def)

lemma keeps_mono: "\<lbrakk>keeps K s s'; L \<subseteq> K\<rbrakk> \<Longrightarrow> keeps L s s'"
  unfolding keeps_def by blast

lemma keeps_namespace: "keeps K s s' \<Longrightarrow> namespace_settled n s' = namespace_settled n s"
  by (simp add: keeps_def namespace_settled_def)

lemma keeps_schedules: "\<lbrakk>keeps K s s'; k \<in> K\<rbrakk> \<Longrightarrow> schedules_settled k ps s' = schedules_settled k ps s"
proof -
  assume "keeps K s s'" "k \<in> K"
  then have eq: "{c \<in> set (schedules s'). s_owner c = k} = {c \<in> set (schedules s). s_owner c = k}" by (auto simp: keeps_def)
  have "schedules_settled k ps t \<longleftrightarrow>
      (\<forall>p \<in> set ps. \<exists>c \<in> {c \<in> set (schedules t). s_owner c = k}. schedule_row_of p c) \<and>
      (\<forall>c \<in> {c \<in> set (schedules t). s_owner c = k}. \<exists>p \<in> set ps. schedule_row_of p c)" for t
    unfolding schedules_settled_def by blast
  then show ?thesis by (simp only: eq)
qed

lemma keeps_agent:
  assumes k: "keeps K s s'" "param_key p \<in> K" and ok: "system_ok s" "system_ok s'" and a: "agent_settled p s"
  shows "agent_settled p s'"
proof -
  obtain config a where c: "marshal_optional_envelope ''agent_config'' (ca_config p) = Some config" "a \<in> set (agents s)"
    "a_key a = param_key p" "\<not> agent_differs p config (ra_record (scan_runnable_agent s a))"
    "ra_prompt (scan_runnable_agent s a) = prompt_or_default (ca_prompt p)" using a by (auto simp: agent_settled_def)
  have "prompts_ok s" using ok(1) by auto
  then obtain r where r: "r \<in> set (prompts s)" "p_owner r = a_key a" "p_id r = a_prompt_version a"
    using c(2) by (auto simp: prompts_ok_def)
  have r': "r \<in> set (prompts s')" using k r c(3) by (auto simp: keeps_def)
  have so: "store_ok s" "store_ok s'" using ok by auto
  have ns: "p_namespace r = a_namespace a" using r(2) by (simp add: p_owner_def a_key_def)
  have "find (\<lambda>x. p_namespace x = a_namespace a \<and> p_id x = a_prompt_version a) (prompts t) = Some r"
    if "store_ok t" "r \<in> set (prompts t)" for t using find_prompt [OF that] ns r(3) by simp
  then have "scan_runnable_agent s' a = scan_runnable_agent s a" using so r(1) r' by (simp add: scan_runnable_agent_def)
  moreover have "a \<in> set (agents s')" using k c(2,3) by (simp add: keeps_def)
  ultimately show ?thesis using c unfolding agent_settled_def by metis
qed

section \<open>The operations of the store\<close>

lemma insert_row_keeps: "a_key a \<notin> K \<Longrightarrow> keeps K s (s\<lparr>agents := agents s @ [a], prompts := prompts s @ [r]\<rparr>)"
  by (auto simp: keeps_def)

lemma update_agents_keeps:
  "(\<And>a. cond a \<Longrightarrow> a_key a \<notin> K) \<Longrightarrow> keeps K s (s\<lparr>agents := update_where cond f (agents s)\<rparr>)"
  by (force simp: keeps_def set_update_where)

lemma update_agent_prompt_keeps:
  assumes "update_agent_prompt now gp ns ag prompt schema s = (r, s')" "(ns, ag) \<notin> K"
  shows "keeps K s s'"
proof (cases "s' = s")
  case False
  then obtain u sch where "update_agent_prompt_tx ns ag (trim_space prompt) sch gp now s = Inr (u, s')"
    using assms(1) by (auto simp: update_agent_prompt_def elim!: run_tx_cases split: if_splits option.splits)
  note e = update_agent_prompt_tx_Inr(5) [OF this]
  have "keeps K s (s\<lparr>prompts := prompts s @ xs\<rparr>)" for xs by (auto simp: keeps_def)
  moreover have "keeps K t (t\<lparr>agents := update_where (\<lambda>a. a_namespace a = ns \<and> a_id a = ag) f (agents t)\<rparr>)" for t f
    by (rule update_agents_keeps) (use assms(2) in \<open>auto simp: a_key_def\<close>)
  ultimately have "keeps K s ((s\<lparr>prompts := prompts s @ xs\<rparr>)
      \<lparr>agents := update_where (\<lambda>a. a_namespace a = ns \<and> a_id a = ag) f (agents (s\<lparr>prompts := prompts s @ xs\<rparr>))\<rparr>)" for xs f
    by (rule keeps_trans)
  then show ?thesis unfolding e by simp
qed simp

lemma put_agent_keeps:
  assumes put: "put_agent mkdir now ga gp p s = (r, s')" and p: "\<not> blank (ca_agent p)" "param_key p \<notin> K"
  shows "keeps K s s'"
  using put
proof (cases rule: put_agent_cases)
  case (created q config)
  have q: "ca_agent q = ca_agent p" using normalize_Inr(8) [OF created(1)] p(1) by simp
  have "ca_namespace q = ca_namespace p"
    using created(1) by (auto simp: normalize_create_agent_params_def Let_def split: if_splits option.splits)
  then have k: "(ca_namespace q, ca_agent q) \<notin> K" using p(2) q by (simp add: param_key_def)
  show ?thesis
  proof (cases "s' = s")
    case False
    then obtain q' c sch x where norm: "normalize_create_agent_params mkdir ga q = Inr (q', c)"
      and tx: "create_agent_tx q' c sch gp now s = Inr (x, s')"
      using created(3) by (auto simp: create_agent_def elim!: run_tx_cases split: sum.splits option.splits prod.splits)
    have "ca_agent q' = ca_agent q" using normalize_Inr(8) [OF norm] p(1) q by simp
    moreover have "ca_namespace q' = ca_namespace q"
      using norm by (auto simp: normalize_create_agent_params_def Let_def split: if_splits option.splits)
    ultimately have "(ca_namespace q', ca_agent q') \<notin> K" using k by simp
    with create_agent_tx_Inr [OF tx] show ?thesis using insert_row_keeps by metis
  qed simp
next
  case (existing q config schema old)
  have q: "ca_agent q = ca_agent p" using normalize_Inr(8) [OF existing(1)] p(1) by simp
  have "ca_namespace q = ca_namespace p"
    using existing(1) by (auto simp: normalize_create_agent_params_def Let_def split: if_splits option.splits)
  then have k: "(ca_namespace q, ca_agent q) \<notin> K" using p(2) q by (simp add: param_key_def)
  have "keeps K s (reconciled q config now old s)"
    unfolding reconciled_def using k by (auto simp: a_key_def intro!: update_agents_keeps)
  with existing(4) k show ?thesis by (auto intro: keeps_trans update_agent_prompt_keeps)
qed simp

lemma delete_schedules_keeps:
  "\<lbrakk>delete_schedules_by_agent ns ag s = (n, s'); (ns, ag) \<notin> K\<rbrakk> \<Longrightarrow> keeps K s s'"
  by (auto simp: delete_schedules_by_agent_def Let_def keeps_def s_owner_def)

lemma delete_agent_keeps:
  assumes "delete_agent ns ag s = (r, s')" "(ns, ag) \<notin> K"
  shows "keeps K s s'"
proof (cases r)
  case (Inl e) then show ?thesis using assms(1) by (auto simp: delete_agent_def Let_def split: if_splits)
next
  case (Inr u)
  then have d: "delete_agent ns ag s = (Inr (), s')" using assms(1) by simp
  have s': "s' = delete_agents (\<lambda>a. a_namespace a = ns \<and> a_id a = ag) s"
    using d by (auto simp: delete_agent_def Let_def split: if_splits)
  have "namespaces s' = namespaces s" by (simp add: s' delete_agents_def Let_def)
  moreover have "set (agents s') = {a \<in> set (agents s). a_key a \<noteq> (ns, ag)}"
    using delete_agents_columns(1) [of "\<lambda>a. a_namespace a = ns \<and> a_id a = ag" s] by (auto simp: s' a_key_def)
  ultimately show ?thesis using delete_agent_effect(3,4) [OF d] assms(2) by (auto simp: keeps_def)
qed

lemma openai_trim: "trim_space ''openai'' = ''openai''"
  by code_simp

text \<open>A put that succeeded settles the agent.\<close>

lemma put_agent_settles:
  assumes ok: "system_ok s" and put: "put_agent mkdir now ga gp p s = (Inr x, s')" and whole: "whole_millis p"
    and ids: "\<not> blank (ca_agent p)" "\<not> blank gp" and set: "ca_role p \<noteq> []" "ca_desired p \<noteq> []"
  shows "agent_settled p s'"
proof -
  obtain y where again: "put_agent mkdir now ga gp p s' = (Inr \<lparr>put_value = y, put_created = False, put_updated = False\<rparr>, s')"
    using put_agent_again [OF ok put whole ids] by blast
  obtain q config schema where n: "normalize_create_agent_params mkdir ga p = Inr (q, config)"
    and sch: "marshal_optional_envelope ''agent_action_schema'' (ca_schema q) = Some schema"
    using again by (auto simp: put_agent_def split: sum.splits option.splits)
  have q: "q = p\<lparr>ca_provider := default_string (ca_provider p) ''openai''\<rparr>"
    "marshal_optional_envelope ''agent_config'' (ca_config p) = Some config"
    using n ids(1) set by (auto simp: normalize_create_agent_params_def Let_def default_string_def split: if_splits option.splits)
  have so: "store_ok s'" using put_agent_ok [OF ok put] by auto
  obtain old where old: "get_agent (ca_namespace q) (ca_agent q) s' = Inr old"
    using again n sch by (cases "get_agent (ca_namespace q) (ca_agent q) s'")
      (auto simp: put_agent_def split: sum.splits prod.splits if_splits)
  have d: "\<not> agent_differs q config (ra_record old)" "\<not> prompt_stale q schema old (reconciled q config now old s')"
    using again unfolding put_agent_existing [OF n sch old] Let_def by (auto split: sum.splits prod.splits)
  obtain a where a: "a \<in> set (agents s')" "a_key a = (ca_namespace q, ca_agent q)" "old = scan_runnable_agent s' a"
    using old get_agent_Inr [OF so] by auto
  have "agent_differs p config r = agent_differs q config r" for r
    using openai_trim by (simp add: agent_differs_def q(1) default_string_def blank_def)
  then show ?thesis using a d q unfolding agent_settled_def prompt_stale_def param_key_def by auto
qed

section \<open>Namespaces\<close>

lemma put_namespace_settles:
  assumes ok: "store_ok s" and n: "trim_space n = n" "n \<noteq> []"
    and put: "put_namespace now g \<lparr>cn_id = n, cn_name = n, cn_limits = GNil\<rparr> s = (Inr x, s')"
  shows "namespace_settled n s'" and "namespace_settled m s \<Longrightarrow> namespace_settled m s'"
proof -
  have d: "default_string n g = n" "\<not> blank n" using n by (simp_all add: default_string_def blank_def)
  have lim: "marshal_optional_envelope ''namespace_limits'' GNil = Some NoText" by (simp add: marshal_optional_envelope_def)
  have uniq: "r = q" if "r \<in> set (namespaces s)" "q \<in> set (namespaces s)" "n_id r = n_id q" for r q
    using distinct_map_inj [OF store_ok_distinct(1) [OF ok]] that by (auto simp: n_key_def)
  have "namespace_settled n s' \<and> (namespace_settled m s \<longrightarrow> namespace_settled m s')"
  proof (cases "find (\<lambda>r. n_id r = n) (namespaces s)")
    case None
    then have free: "\<forall>r \<in> set (namespaces s). n_id r \<noteq> n" by (auto simp: find_None_iff)
    have "s' = s\<lparr>namespaces := namespaces s @ [\<lparr>n_id = n, n_name = n, n_limits = NoText,
        n_created = to_millis now, n_updated = to_millis now\<rparr>]\<rparr>"
      using put None d n lim
      by (auto simp: put_namespace_def get_namespace_def create_namespace_def Let_def insert_namespace_Inr
          split: sum.splits prod.splits)
    then show ?thesis using free by (auto simp: namespace_settled_def)
  next
    case (Some q)
    then have q: "q \<in> set (namespaces s)" "n_id q = n" by (auto simp: find_Some_iff)
    let ?u = "s\<lparr>namespaces := update_where (\<lambda>r. n_id r = n)
        (\<lambda>r. r\<lparr>n_name := n, n_limits := NoText, n_updated := to_millis now\<rparr>) (namespaces s)\<rparr>"
    have "s' = (if n_name q \<noteq> n \<or> n_limits q \<noteq> NoText then ?u else s)"
      using put Some d n lim
      by (auto simp: put_namespace_def get_namespace_def scan_namespace_def Let_def split: sum.splits option.splits if_splits)
    moreover have "n_id ` set (namespaces ?u) = n_id ` set (namespaces s)" by simp
    then have "\<exists>r \<in> set (namespaces ?u). n_id r = m" if "r \<in> set (namespaces s)" "n_id r = m" for r m
      using that by (metis (no_types, lifting) image_iff)
    ultimately show ?thesis using q uniq by (auto simp: namespace_settled_def set_update_where)
  qed
  then show "namespace_settled n s'" "namespace_settled m s \<Longrightarrow> namespace_settled m s'" by auto
qed

lemma sync_namespaces_settles:
  "\<lbrakk>system_ok s; sync_namespaces env i ns sm s = (Inr sm', s'); \<forall>n \<in> set ns. trim_space n = n \<and> n \<noteq> []\<rbrakk> \<Longrightarrow>
   system_ok s' \<and> (\<forall>n \<in> set ns. namespace_settled n s') \<and> (\<forall>m. namespace_settled m s \<longrightarrow> namespace_settled m s')"
proof (induction env i ns sm s rule: sync_namespaces.induct)
  case (2 env i n ns sm s)
  obtain r s1 where put: "put_namespace (se_clock env 0 i) (se_ids env 0 i) \<lparr>cn_id = n, cn_name = n, cn_limits = GNil\<rparr> s = (r, s1)"
    by fastforce
  then obtain x where r: "r = Inr x" using 2(3) by (cases r) simp_all
  have ok1: "system_ok s1" by (rule put_namespace_ok [OF 2(2) put])
  have "store_ok s" using 2(2) by auto
  note P = put_namespace_settles [OF this _ _ put [unfolded r]]
  have rest: "sync_namespaces env (i + 1) ns
      (sm\<lparr>sy_namespaces_created := count_if (put_created x) (sy_namespaces_created sm),
          sy_namespaces_updated := count_if (put_updated x) (sy_namespaces_updated sm)\<rparr>) s1 = (Inr sm', s')"
    using 2(3) put r by simp
  have "\<forall>n \<in> set ns. trim_space n = n \<and> n \<noteq> []" using 2(4) by simp
  note IH = 2(1) [OF put [symmetric] r ok1 rest this]
  show ?case using IH P 2(4) by simp
qed simp

section \<open>Schedules\<close>

lemma schedule_params_ids:
  "\<lbrakk>schedule_params_from lib spec seen i scs = Inr ps; zone_known lib ''UTC''\<rbrakk> \<Longrightarrow>
   distinct (map cs_schedule ps) \<and> set (map cs_schedule ps) \<inter> seen = {} \<and>
   (\<forall>p \<in> set ps. cs_namespace p = sp_namespace spec \<and> cs_agent p = sp_agent spec \<and> load_schedule_location lib (cs_zone p) = Some (cs_zone p) \<and>
      (\<exists>i sc. cs_schedule p = schedule_id_of spec i sc))"
proof (induction lib spec seen i scs arbitrary: ps rule: schedule_params_from.induct)
  case (2 lib spec seen i sc scs)
  have cr: "cron_parse lib (trim_space (ss_cron sc)) \<noteq> None" using 2(2) by (auto split: if_splits)
  then obtain zone where z: "normalize_time_zone lib (ss_zone sc) = Some zone" using 2(2) by (auto split: option.splits)
  let ?sid = "schedule_id_of spec i sc"
  have new: "?sid \<notin> seen" using 2(2) cr z by (auto split: if_splits simp: Let_def)
  obtain p qs where ps: "ps = p # qs" "schedule_params_from lib spec (insert ?sid seen) (i + 1) scs = Inr qs"
    "cs_namespace p = sp_namespace spec" "cs_schedule p = ?sid" "cs_agent p = sp_agent spec" "cs_zone p = zone"
    using 2(2) cr z new by (auto simp: Let_def map_sum_def split: sum.splits)
  have "load_schedule_location lib zone = Some zone"
    using z 2(3) by (auto simp: normalize_time_zone_def load_schedule_location_def Let_def split: if_splits)
  then show ?case using 2(1) [OF cr z refl refl new ps(2) 2(3)] ps(1,3-6) new by auto
qed simp

lemma create_schedule_row:
  assumes c: "create_schedule lib now g p s = (Inr x, s')" and p: "\<not> blank (cs_schedule p)"
    and z: "load_schedule_location lib (cs_zone p) = Some (cs_zone p)"
  shows "\<exists>row. s' = s\<lparr>schedules := schedules s @ [row]\<rparr> \<and> schedule_row_of p row"
  using assms by (auto simp: create_schedule_def Let_def insert_schedule_Inr default_string_def schedule_row_of_def
      new_schedule_def split: if_splits option.splits sum.splits)

lemma create_schedule_system_ok:
  assumes "system_ok s" "create_schedule lib now g p s = (r, s')"
  shows "system_ok s'"
proof -
  have "agents s' = agents s" "prompts s' = prompts s"
    using assms(2) by (auto simp: create_schedule_def Let_def insert_schedule_Inr split: if_splits option.splits sum.splits)
  moreover have "mailbox_ok s'" using create_schedule_ok assms by auto
  ultimately show ?thesis using assms(1) by (auto simp: system_ok_def intro: prompts_ok_frame)
qed

lemma create_schedules_rows:
  "\<lbrakk>create_schedules lib env i j ps sm s = (Inr sm', s'); system_ok s;
    \<forall>p \<in> set ps. \<not> blank (cs_schedule p) \<and> load_schedule_location lib (cs_zone p) = Some (cs_zone p)\<rbrakk> \<Longrightarrow>
   system_ok s' \<and> (\<exists>rows. s' = s\<lparr>schedules := schedules s @ rows\<rparr> \<and> list_all2 schedule_row_of ps rows)"
proof (induction lib env i j ps sm s rule: create_schedules.induct)
  case (1 lib env i j sm s)
  then show ?case by (intro conjI exI [of _ "[]"]) simp_all
next
  case (2 lib env i j p ps sm s)
  obtain r s1 where c: "create_schedule lib (se_clock env i j) (se_ids env i j) p s = (r, s1)" by fastforce
  then obtain x where r: "r = Inr x" using 2(2) by (cases r) simp_all
  obtain row where row: "s1 = s\<lparr>schedules := schedules s @ [row]\<rparr>" "schedule_row_of p row"
    using create_schedule_row [OF c [unfolded r]] 2(4) by auto
  have ok1: "system_ok s1" by (rule create_schedule_system_ok [OF 2(3) c])
  have rest: "create_schedules lib env i (j + 1) ps (sm\<lparr>sy_schedules_created := sy_schedules_created sm + 1\<rparr>) s1 = (Inr sm', s')"
    using 2(2) c r by simp
  obtain rows where rows: "system_ok s'" "s' = s1\<lparr>schedules := schedules s1 @ rows\<rparr>" "list_all2 schedule_row_of ps rows"
    using 2(1) [OF c [symmetric] r rest ok1] 2(4) by auto
  have "s' = s\<lparr>schedules := schedules s @ (row # rows)\<rparr>" using rows(2) row(1) by simp
  moreover have "list_all2 schedule_row_of (p # ps) (row # rows)" using row(2) rows(3) by simp
  ultimately show ?case using rows(1) by blast
qed

end
