(* ===== verification/SyncLaws.thy ===== *)
theory SyncLaws
  imports SpecsLaws
begin

text \<open>
  The synchronisation as a whole: the invariant of its loops, and the plan made from the same specifications
  on the store it leaves.
\<close>

section \<open>Identifiers\<close>

text \<open>A letter or digit is no space, so an identifier that holds one at both ends is not blank.\<close>

lemma safe_visible:
  assumes "safe_identifier s"
  shows "s \<noteq> []" "visible (hd s)" "trim_space s = s"
proof -
  show s: "s \<noteq> []" using assms by (simp add: safe_identifier_def Let_def)
  let ?safe = "\<lambda>c. list_ex (char_between c) [(CHR ''A'', CHR ''Z''), (CHR ''a'', CHR ''z''), (CHR ''0'', CHR ''9'')] \<or> c \<in> set ''._-''"
  have "list_all (\<lambda>p. \<not> ?safe (hd p) \<and> \<not> ?safe (last p)) go_spaces" by code_simp
  then have v: "visible c" if "?safe c" for c using that unfolding visible_def list_all_iff by metis
  have "\<forall>c \<in> set s. ?safe c"
    using assms by (cases s) (auto simp: safe_identifier_def Let_def list_all_iff)
  then have "visible (hd s)" "visible (last s)" using v s by (meson hd_in_set last_in_set)+
  then show "visible (hd s)" "trim_space s = s" using trim_space_visible [OF s] by auto
qed

lemma digit_visible: "visible (last (nat_str n))"
proof (induction n rule: nat_str.induct)
  case (1 n)
  have d: "visible (digit_char m)" if "m < 10" for m
  proof -
    have "visible (digit_char 0) \<and> visible (digit_char 1) \<and> visible (digit_char 2) \<and> visible (digit_char 3) \<and>
      visible (digit_char 4) \<and> visible (digit_char 5) \<and> visible (digit_char 6) \<and> visible (digit_char 7) \<and>
      visible (digit_char 8) \<and> visible (digit_char 9)" by code_simp
    moreover have "m \<in> {0, 1, 2, 3, 4, 5, 6, 7, 8, 9}" using that by auto
    ultimately show ?thesis by auto
  qed
  show ?case
  proof (cases "n < 10")
    case True then show ?thesis using d [of n] by (simp add: nat_str_small)
  next
    case False then show ?thesis using d [of "n mod 10"] by (simp add: nat_str_step)
  qed
qed

lemma schedule_id_filled: "safe_identifier (sp_agent spec) \<Longrightarrow> \<not> blank (schedule_id_of spec i sc)"
proof -
  assume s: "safe_identifier (sp_agent spec)"
  have t: "trim_space (derived_schedule_id (sp_agent spec) i) = derived_schedule_id (sp_agent spec) i"
    using safe_visible [OF s] digit_visible [of "i + 1"] by (intro trim_space_visible) (simp_all add: derived_schedule_id_def)
  have "derived_schedule_id (sp_agent spec) i \<noteq> []" by (simp add: derived_schedule_id_def)
  then show ?thesis using t by (simp add: schedule_id_of_def blank_def)
qed

section \<open>One specification\<close>

definition plain_spec :: "spec_lib \<Rightarrow> string \<Rightarrow> string \<Rightarrow> agent_spec \<Rightarrow> bool" where
  "plain_spec lib config_root base spec \<longleftrightarrow>
     trim_space (sp_namespace spec) = sp_namespace spec \<and> sp_namespace spec \<noteq> [] \<and> CHR 0x00 \<notin> set (sp_namespace spec) \<and>
     safe_identifier (sp_agent spec) \<and>
     (case build_agent_params lib config_root base spec of Inl e \<Rightarrow> True | Inr p \<Rightarrow> whole_millis p)"

definition filled_ids :: "sync_env \<Rightarrow> bool" where
  "filled_ids env \<longleftrightarrow> (\<forall>i j. \<not> blank (se_ids env i j))"

definition spec_settled :: "spec_lib \<Rightarrow> string \<Rightarrow> string \<Rightarrow> store \<Rightarrow> agent_spec \<Rightarrow> bool" where
  "spec_settled lib config_root base s spec \<longleftrightarrow>
     (\<exists>p ps. build_agent_params lib config_root base spec = Inr p \<and> build_schedule_params lib spec = Inr ps \<and>
        agent_settled p s \<and> schedules_settled (spec_key spec) ps s)"

lemma desired_state_filled: "desired_state_of raw \<noteq> []"
  by (simp add: desired_state_of_def state_running_def Let_def)

lemma built_params:
  assumes "build_agent_params lib config_root base spec = Inr p"
  shows "param_key p = spec_key spec" "ca_role p \<noteq> []" "ca_desired p \<noteq> []" "ca_agent p = sp_agent spec"
  using assms desired_state_filled
  by (auto simp: build_agent_params_def Let_def param_key_def spec_key_def role_worker_def split: sum.splits option.splits)

lemma sync_spec_settles:
  assumes ok: "system_ok s" and sync: "sync_spec lib env config_root base i spec sm s = (Inr sm', s')"
    and plain: "plain_spec lib config_root base spec" and env: "filled_ids env" and utc: "zone_known (sl_cron lib) ''UTC''"
  shows "system_ok s' \<and> keeps (- {spec_key spec}) s s' \<and> spec_settled lib config_root base s' spec"
proof -
  obtain p where p: "build_agent_params lib config_root base spec = Inr p"
    using sync by (auto simp: sync_spec_def split: sum.splits)
  note B = built_params [OF p]
  have ag: "\<not> blank (ca_agent p)"
    using plain safe_visible(1,3) B(4) by (auto simp: plain_spec_def blank_def)
  obtain r s1 where put: "put_agent (sl_mkdir lib) (se_clock env i 0) (se_ids env i 0) (se_ids env i 1) p s = (r, s1)" by fastforce
  then obtain x where r: "r = Inr x" using sync p by (cases r) (simp_all add: sync_spec_def)
  obtain n s2 where del: "delete_schedules_by_agent (sp_namespace spec) (sp_agent spec) s1 = (n, s2)" by fastforce
  obtain ps where ps: "build_schedule_params lib spec = Inr ps"
    using sync p put r del by (auto simp: sync_spec_def split: sum.splits)
  obtain sm1 where create: "create_schedules (sl_cron lib) env i 2 ps sm1 s2 = (Inr sm', s')"
    using sync p put r del ps by (auto simp: sync_spec_def)
  have ok1: "system_ok s1" by (rule put_agent_ok [OF ok put])
  have ok2: "system_ok s2" by (rule delete_schedules_ok [OF ok1 del])
  note P = schedule_params_ids [OF ps [unfolded build_schedule_params_def] utc]
  have "\<forall>q \<in> set ps. \<not> blank (cs_schedule q) \<and> load_schedule_location (sl_cron lib) (cs_zone q) = Some (cs_zone q)"
    using P plain schedule_id_filled unfolding plain_spec_def by metis
  then obtain rows where ok': "system_ok s'" and s': "s' = s2\<lparr>schedules := schedules s2 @ rows\<rparr>"
    and rows: "list_all2 schedule_row_of ps rows"
    using create_schedules_rows [OF create ok2] by blast
  have owner: "s_owner c = spec_key spec" if c: "c \<in> set rows" for c
  proof -
    obtain q where "q \<in> set ps" "schedule_row_of q c" using list_all2_set2 [OF rows c] by blast
    then show ?thesis using P by (auto simp: schedule_row_of_def s_owner_def spec_key_def)
  qed
  have none: "s_owner c \<noteq> spec_key spec" if "c \<in> set (schedules s2)" for c
    using that del by (auto simp: delete_schedules_by_agent_def Let_def s_owner_def spec_key_def)
  have k3: "keeps K s2 s'" if "spec_key spec \<notin> K" for K using that owner by (auto simp: keeps_def s')
  have "keeps (- {spec_key spec}) s s1" using put_agent_keeps [OF put ag] B(1) by simp
  moreover have "keeps (- {spec_key spec}) s1 s2" using delete_schedules_keeps [OF del] by (simp add: spec_key_def)
  ultimately have keeps: "keeps (- {spec_key spec}) s s'" using k3 by (meson ComplD keeps_trans singletonI)
  have whole: "whole_millis p" using plain p by (simp add: plain_spec_def)
  have "\<not> blank (se_ids env i 1)" using env by (simp add: filled_ids_def)
  with put_agent_settles [OF ok put [unfolded r] whole ag _ B(2,3)] have "agent_settled p s1" by blast
  moreover have "agents s' = agents s1" "prompts s' = prompts s1"
    using del by (auto simp: s' delete_schedules_by_agent_def Let_def)
  ultimately have "agent_settled p s'" unfolding agent_settled_def scan_runnable_agent_def by simp
  moreover have "schedules_settled (spec_key spec) ps s'"
    unfolding schedules_settled_def
  proof (intro conjI ballI impI)
    fix q assume "q \<in> set ps"
    then obtain c where "c \<in> set rows" "schedule_row_of q c" using rows by (metis list_all2_set1)
    then show "\<exists>c \<in> set (schedules s'). s_owner c = spec_key spec \<and> schedule_row_of q c" using owner by (auto simp: s')
  next
    fix c assume "c \<in> set (schedules s')" "s_owner c = spec_key spec"
    then have "c \<in> set rows" using none by (auto simp: s')
    then show "\<exists>q \<in> set ps. schedule_row_of q c" using list_all2_set2 [OF rows] by blast
  qed
  ultimately show ?thesis using ok' keeps p ps by (auto simp: spec_settled_def)
qed

section \<open>All specifications\<close>

lemma spec_settled_keeps:
  assumes "keeps K s s'" "spec_key spec \<in> K" "system_ok s" "system_ok s'" "spec_settled lib config_root base s spec"
  shows "spec_settled lib config_root base s' spec"
proof -
  obtain p ps where p: "build_agent_params lib config_root base spec = Inr p" "build_schedule_params lib spec = Inr ps"
    "agent_settled p s" "schedules_settled (spec_key spec) ps s" using assms(5) by (auto simp: spec_settled_def)
  have "agent_settled p s'" using keeps_agent [OF assms(1) _ assms(3,4) p(3)] built_params(1) [OF p(1)] assms(2) by simp
  moreover have "schedules_settled (spec_key spec) ps s'" using keeps_schedules [OF assms(1,2)] p(4) by simp
  ultimately show ?thesis using p(1,2) by (auto simp: spec_settled_def)
qed

lemma sync_each_settles:
  "\<lbrakk>system_ok s; sync_each lib env config_root base i specs sm s = (Inr sm', s'); distinct (map spec_key specs);
    \<forall>spec \<in> set specs. plain_spec lib config_root base spec; filled_ids env; zone_known (sl_cron lib) ''UTC''\<rbrakk> \<Longrightarrow>
   system_ok s' \<and> keeps (- spec_key ` set specs) s s' \<and> (\<forall>spec \<in> set specs. spec_settled lib config_root base s' spec)"
proof (induction lib env config_root base i specs sm s rule: sync_each.induct)
  case (2 lib env config_root base i spec specs sm s)
  obtain r s1 where one: "sync_spec lib env config_root base i spec sm s = (r, s1)" by fastforce
  then obtain sm1 where r: "r = Inr sm1" using 2(3) by (cases r) simp_all
  have plain: "plain_spec lib config_root base spec" using 2(5) by simp
  note O = sync_spec_settles [OF 2(2) one [unfolded r] plain 2(6,7)]
  have rest: "sync_each lib env config_root base (i + 1) specs sm1 s1 = (Inr sm', s')" using 2(3) one r by simp
  have d: "distinct (map spec_key specs)" "\<forall>x \<in> set specs. plain_spec lib config_root base x" using 2(4,5) by simp_all
  have ok1: "system_ok s1" using O by blast
  note R = 2(1) [OF one [symmetric] r ok1 rest d 2(6,7)]
  have "spec_key spec \<notin> spec_key ` set specs" using 2(4) by simp
  then have "spec_settled lib config_root base s' spec"
    using R O ok1 by (intro spec_settled_keeps [of "- spec_key ` set specs" s1 s']) auto
  moreover have "keeps (- spec_key ` set (spec # specs)) s s1" using O by (auto intro: keeps_mono)
  moreover have "keeps (- spec_key ` set (spec # specs)) s1 s'" using R by (auto intro: keeps_mono)
  ultimately show ?case using R by (auto intro: keeps_trans)
qed simp

section \<open>Pruning\<close>

definition pruned :: "(string \<times> string) set \<Rightarrow> (agent_row \<Rightarrow> bool) \<Rightarrow> store \<Rightarrow> store \<Rightarrow> bool" where
  "pruned desired P s s' \<longleftrightarrow>
     system_ok s' \<and> keeps desired s s' \<and> (\<forall>a \<in> set (agents s'). a \<in> set (agents s) \<and> (P a \<longrightarrow> a_key a \<in> desired))"

lemma pruned_trans: "\<lbrakk>pruned D P s s'; pruned D Q s' s''\<rbrakk> \<Longrightarrow> pruned D (\<lambda>a. P a \<or> Q a) s s''"
  unfolding pruned_def by (auto intro: keeps_trans)

lemma pruned_weaken: "\<lbrakk>pruned D P s s'; \<And>a. Q a \<Longrightarrow> P a \<or> a_key a \<in> D\<rbrakk> \<Longrightarrow> pruned D Q s s'"
  unfolding pruned_def by blast

lemma delete_agent_pruned:
  assumes ok: "system_ok s" and d: "delete_agent ns ag s = (r, s')" and k: "(ns, ag) \<notin> D" and r: "r = Inr () \<or> r = Inl ErrNotFound"
  shows "pruned D (\<lambda>a. a_key a = (ns, ag)) s s'"
proof -
  have "keeps D s s'" by (rule delete_agent_keeps [OF d k])
  moreover have "system_ok s'" by (rule delete_agent_ok [OF ok d])
  moreover have "\<forall>a \<in> set (agents s'). a \<in> set (agents s) \<and> a_key a \<noteq> (ns, ag)"
  proof (cases r)
    case (Inl e)
    then show ?thesis using d by (auto simp: delete_agent_def Let_def a_key_def split: if_splits)
  next
    case (Inr u)
    then have s': "s' = delete_agents (\<lambda>a. a_namespace a = ns \<and> a_id a = ag) s"
      using d by (auto simp: delete_agent_def Let_def split: if_splits)
    show ?thesis unfolding s' delete_agents_columns(1) by (auto simp: a_key_def)
  qed
  ultimately show ?thesis unfolding pruned_def by blast
qed

lemma prune_agents_done:
  "\<lbrakk>prune_agents D ns ags sm s = (Inr sm', s'); system_ok s\<rbrakk> \<Longrightarrow> pruned D (\<lambda>a. a_namespace a = ns \<and> a_id a \<in> set ags) s s'"
proof (induction D ns ags sm s rule: prune_agents.induct)
  case (1 D ns sm s) then show ?case by (simp add: pruned_def)
next
  case (2 D ns ag ags sm s)
  show ?case
  proof (cases "(ns, ag) \<in> D")
    case True
    then have "pruned D (\<lambda>a. a_namespace a = ns \<and> a_id a \<in> set ags) s s'" using 2 by simp
    then show ?thesis using True by (rule_tac pruned_weaken) (auto simp: a_key_def)
  next
    case False
    obtain r s1 where d: "delete_agent ns ag s = (r, s1)" by fastforce
    have r: "r = Inr () \<or> r = Inl ErrNotFound" using 2(4) False d by (cases r) (auto split: if_splits)
    note one = delete_agent_pruned [OF 2(5) d False r]
    then have ok1: "system_ok s1" by (simp add: pruned_def)
    have "pruned D (\<lambda>a. a_namespace a = ns \<and> a_id a \<in> set ags) s1 s'"
      using r
    proof
      assume u: "r = Inr ()"
      then show ?thesis using 2(3) [OF False d [symmetric] u _ ok1] 2(4) False d by simp
    next
      assume e: "r = Inl ErrNotFound"
      then show ?thesis using 2(2) [OF False d [symmetric] e refl _ ok1] 2(4) False d by simp
    qed
    from pruned_trans [OF one this] show ?thesis by (rule pruned_weaken) (auto simp: a_key_def)
  qed
qed

lemma scanned_id: "a_id (ra_record (scan_runnable_agent s a)) = a_id a"
  by (simp add: scan_runnable_agent_def)

lemma prune_namespaces_done:
  "\<lbrakk>prune_namespaces D ns sm s = (Inr sm', s'); system_ok s\<rbrakk> \<Longrightarrow> pruned D (\<lambda>a. a_namespace a \<in> set ns) s s'"
proof (induction D ns sm s rule: prune_namespaces.induct)
  case (1 D sm s) then show ?case by (simp add: pruned_def)
next
  case (2 D n ns sm s)
  obtain snap where snap: "snapshot_namespace n s = Inr snap" using 2(2) by (auto split: sum.splits)
  obtain r s1 where p: "prune_agents D n (map (a_id \<circ> ra_record) (ns_agents snap)) sm s = (r, s1)" by fastforce
  then obtain sm1 where r: "r = Inr sm1" using 2(2) snap by (cases r) simp_all
  have ids: "set (map (a_id \<circ> ra_record) (ns_agents snap)) = a_id ` {a \<in> set (agents s). a_namespace a = n}"
    using snap by (auto simp: snapshot_namespace_def Let_def image_image scanned_id split: sum.splits)
  note one = prune_agents_done [OF p [unfolded r] 2(3)]
  then have ok1: "system_ok s1" by (simp add: pruned_def)
  have "prune_namespaces D ns sm1 s1 = (Inr sm', s')" using 2(2) snap p r by simp
  then have rest: "pruned D (\<lambda>a. a_namespace a \<in> set ns) s1 s'" by (rule 2(1) [OF snap p [symmetric] r _ ok1])
  have "pruned D (\<lambda>a. a_namespace a = n) s s1" using one unfolding pruned_def ids by blast
  from pruned_trans [OF this rest] show ?case by (rule pruned_weaken) auto
qed

text \<open>The whole synchronisation.\<close>

lemma sync_specs_settles:
  assumes ok: "system_ok s" and sync: "sync_specs lib env config_root base True specs s = (Inr sm, s')"
    and d: "distinct (map spec_key specs)" and plain: "\<forall>spec \<in> set specs. plain_spec lib config_root base spec"
    and env: "filled_ids env" and utc: "zone_known (sl_cron lib) ''UTC''"
  shows "system_ok s' \<and> check_unique_roots config_root base [] specs = None \<and>
    (\<forall>spec \<in> set specs. spec_settled lib config_root base s' spec \<and> namespace_settled (sp_namespace spec) s') \<and>
    a_key ` set (agents s') = spec_key ` set specs"
proof -
  let ?ns = "sort (remdups (map sp_namespace specs))" and ?D = "spec_key ` set specs"
  have roots: "check_unique_roots config_root base [] specs = None"
    using sync by (auto simp: sync_specs_def split: option.splits)
  obtain r1 s1 where n: "sync_namespaces env 0 ?ns no_sync s = (r1, s1)" by fastforce
  then obtain sm1 where r1: "r1 = Inr sm1" using sync roots by (cases r1) (simp_all add: sync_specs_def)
  obtain r2 s2 where e: "sync_each lib env config_root base 1 specs sm1 s1 = (r2, s2)" by fastforce
  then obtain sm2 where r2: "r2 = Inr sm2" using sync roots n r1 by (cases r2) (simp_all add: sync_specs_def)
  have p: "prune_namespaces ?D (map n_id (list_namespaces s2)) sm2 s2 = (Inr sm, s')"
    using sync roots n r1 e r2 by (simp add: sync_specs_def)
  have "\<forall>n \<in> set ?ns. trim_space n = n \<and> n \<noteq> []" using plain by (auto simp: plain_spec_def)
  note N = sync_namespaces_settles [OF ok n [unfolded r1] this]
  then have ok1: "system_ok s1" by blast
  note E = sync_each_settles [OF ok1 e [unfolded r2] d plain env utc]
  then have ok2: "system_ok s2" by blast
  note P = prune_namespaces_done [OF p ok2]
  then have k: "keeps ?D s2 s'" and ok': "system_ok s'" by (simp_all add: pruned_def)
  have "n_id ` set (list_namespaces s2) = n_id ` set (namespaces s2)"
    by (auto simp: list_namespaces_def scan_namespace_def image_iff)
  moreover have "a_namespace ` set (agents s2) \<subseteq> n_key ` set (namespaces s2)" using ok2 by (auto simp: system_ok_def mailbox_ok_def store_ok_def)
  ultimately have all: "a_namespace a \<in> set (map n_id (list_namespaces s2))" if "a \<in> set (agents s2)" for a
    using that by (auto simp: n_key_def image_subset_iff)
  have "spec_settled lib config_root base s' spec" if "spec \<in> set specs" for spec
    using spec_settled_keeps [OF k _ ok2 ok'] E that by blast
  moreover have "namespace_settled (sp_namespace spec) s'" if "spec \<in> set specs" for spec
    using N E that keeps_namespace [OF k] by (metis (no_types, lifting) keeps_namespace imageI list.set_map set_remdups set_sort)
  moreover have "a_key ` set (agents s') \<subseteq> ?D" using P all by (auto simp: pruned_def)
  moreover have "?D \<subseteq> a_key ` set (agents s')"
  proof
    fix x assume "x \<in> ?D"
    then obtain spec where "spec \<in> set specs" "x = spec_key spec" by blast
    then obtain q where "build_agent_params lib config_root base spec = Inr q" "agent_settled q s'"
      using calculation(1) by (auto simp: spec_settled_def)
    then show "x \<in> a_key ` set (agents s')"
      using built_params(1) \<open>x = spec_key spec\<close> unfolding agent_settled_def by (metis imageI)
  qed
  ultimately show ?thesis using ok' roots by blast
qed

end
