(* ===== verification/SyncPlanLaws.thy ===== *)
theory SyncPlanLaws
  imports SyncLaws
begin

text \<open>
  The plan made from specifications on the store that their synchronisation left: it finds the wanted rows
  under its keys, nothing that differs in them and nothing to delete.
\<close>

section \<open>Keys\<close>

lemma plan_key_eq:
  assumes "CHR 0x00 \<notin> set a" "CHR 0x00 \<notin> set b"
  shows "plan_key a i = plan_key b j \<longleftrightarrow> a = b \<and> i = j"
proof
  assume e: "plan_key a i = plan_key b j"
  have t: "CHR 0x00 \<notin> set n \<Longrightarrow> takeWhile (\<lambda>c. c \<noteq> CHR 0x00) (plan_key n k) = n" for n k
    unfolding plan_key_def by (induction n) auto
  have "a = b" using t [OF assms(1), of i] t [OF assms(2), of j] e by simp
  then show "a = b \<and> i = j" using e by (simp add: plan_key_def)
qed simp

lemma put_new_key: "k \<notin> fst ` set m \<Longrightarrow> put_key k v m = (k, v) # m"
  by (auto simp: put_key_def filter_id_conv)

lemma set_put_key: "set (put_key k v m) = insert (k, v) {x \<in> set m. fst x \<noteq> k}"
  by (auto simp: put_key_def)

lemma map_of_none: "map_of m k = None \<longleftrightarrow> k \<notin> fst ` set m"
  by (rule map_of_eq_None_iff)

lemma keyed_rows_in:
  "set (fold (\<lambda>x. put_key (key x) x) xs m) \<subseteq> (\<lambda>x. (key x, x)) ` set xs \<union> set m \<and>
   fst ` set (fold (\<lambda>x. put_key (key x) x) xs m) = key ` set xs \<union> fst ` set m"
proof (induction xs arbitrary: m)
  case (Cons x xs)
  have "fst ` set (put_key (key x) x m) = insert (key x) (fst ` set m)"
    by (auto simp: set_put_key image_iff)
  moreover have "set (put_key (key x) x m) \<subseteq> insert (key x, x) (set m)" by (auto simp: set_put_key)
  ultimately show ?case using Cons.IH [of "put_key (key x) x m"] by auto
qed simp

lemma keyed_in: "(k, x) \<in> set (keyed key xs) \<Longrightarrow> x \<in> set xs \<and> k = key x"
  using keyed_rows_in [of key xs "[]"] by (auto simp: keyed_def)

lemma keyed_keys: "fst ` set (keyed key xs) = key ` set xs"
  using keyed_rows_in [of key xs "[]"] by (simp add: keyed_def)

lemma keyed_lookup:
  assumes "x \<in> set xs"
  shows "\<exists>y \<in> set xs. key y = key x \<and> map_of (keyed key xs) (key x) = Some y"
proof -
  have "map_of (keyed key xs) (key x) \<noteq> None" using assms by (simp add: map_of_none keyed_keys)
  then obtain y where y: "map_of (keyed key xs) (key x) = Some y" by blast
  then show ?thesis using keyed_in [OF map_of_SomeD [OF y]] by auto
qed

section \<open>The wanted rows\<close>

definition desired_of :: "spec_lib \<Rightarrow> string \<Rightarrow> string \<Rightarrow> agent_spec \<Rightarrow> desired_agent" where
  "desired_of lib config_root base spec = projr (build_desired_agent lib config_root base spec)"

definition desired_schedules_of :: "spec_lib \<Rightarrow> agent_spec \<Rightarrow> desired_schedule list" where
  "desired_schedules_of lib spec = projr (build_desired_schedules lib spec)"

definition schedule_plan_key :: "desired_schedule \<Rightarrow> string" where
  "schedule_plan_key d = plan_key (ds_namespace d) (ds_id d)"

definition spec_plan_key :: "agent_spec \<Rightarrow> string" where
  "spec_plan_key spec = plan_key (sp_namespace spec) (sp_agent spec)"

lemma add_schedules_new:
  "\<lbrakk>distinct (map schedule_plan_key ds); schedule_plan_key ` set ds \<inter> fst ` set m = {}\<rbrakk> \<Longrightarrow>
   add_schedules ds m = Inr (rev (map (\<lambda>d. (schedule_plan_key d, d)) ds) @ m)"
proof (induction ds m rule: add_schedules.induct)
  case (2 d ds m)
  then have new: "schedule_plan_key d \<notin> fst ` set m" by auto
  then have p: "put_key (schedule_plan_key d) d m = (schedule_plan_key d, d) # m" by (rule put_new_key)
  have "add_schedules ds ((schedule_plan_key d, d) # m) =
      Inr (rev (map (\<lambda>d. (schedule_plan_key d, d)) ds) @ (schedule_plan_key d, d) # m)"
    using 2 new by (auto simp: Let_def schedule_plan_key_def [symmetric] map_of_none p)
  then show ?case using new p by (simp add: Let_def schedule_plan_key_def [symmetric] map_of_none)
qed simp

lemma collect_desired_new:
  "\<lbrakk>\<forall>spec \<in> set specs. \<not> isl (build_desired_agent lib config_root base spec) \<and> \<not> isl (build_desired_schedules lib spec);
    distinct (map spec_plan_key specs); spec_plan_key ` set specs \<inter> fst ` set das = {};
    distinct (map schedule_plan_key (concat (map (desired_schedules_of lib) specs)));
    schedule_plan_key ` (\<Union>spec \<in> set specs. set (desired_schedules_of lib spec)) \<inter> fst ` set dss = {}\<rbrakk> \<Longrightarrow>
   collect_desired lib config_root base specs das dss =
     Inr (rev (map (\<lambda>spec. (spec_plan_key spec, desired_of lib config_root base spec)) specs) @ das,
          rev (map (\<lambda>d. (schedule_plan_key d, d)) (concat (map (desired_schedules_of lib) specs))) @ dss)"
proof (induction specs arbitrary: das dss)
  case (Cons spec specs)
  obtain da where da: "build_desired_agent lib config_root base spec = Inr da"
    using Cons.prems(1) by (cases "build_desired_agent lib config_root base spec") auto
  obtain ds where ds: "build_desired_schedules lib spec = Inr ds"
    using Cons.prems(1) by (cases "build_desired_schedules lib spec") auto
  have o: "desired_of lib config_root base spec = da" "desired_schedules_of lib spec = ds"
    using da ds by (simp_all add: desired_of_def desired_schedules_of_def)
  have add: "add_schedules ds dss = Inr (rev (map (\<lambda>d. (schedule_plan_key d, d)) ds) @ dss)"
    using Cons.prems(4,5) o(2) by (intro add_schedules_new) auto
  have put: "put_key (plan_key (sp_namespace spec) (sp_agent spec)) da das = (spec_plan_key spec, da) # das"
    using Cons.prems(3) put_new_key [of "spec_plan_key spec"] by (auto simp: spec_plan_key_def)
  have "collect_desired lib config_root base specs ((spec_plan_key spec, da) # das)
      (rev (map (\<lambda>d. (schedule_plan_key d, d)) ds) @ dss) =
    Inr (rev (map (\<lambda>spec. (spec_plan_key spec, desired_of lib config_root base spec)) specs) @ (spec_plan_key spec, da) # das,
          rev (map (\<lambda>d. (schedule_plan_key d, d)) (concat (map (desired_schedules_of lib) specs))) @
          rev (map (\<lambda>d. (schedule_plan_key d, d)) ds) @ dss)"
  proof (rule Cons.IH)
    show "schedule_plan_key ` (\<Union>spec \<in> set specs. set (desired_schedules_of lib spec)) \<inter>
        fst ` set (rev (map (\<lambda>d. (schedule_plan_key d, d)) ds) @ dss) = {}"
      using Cons.prems(4,5) o(2) by (auto simp: image_iff) blast+
  qed (use Cons.prems in auto)
  then show ?case using da ds add put o by simp
qed simp


section \<open>No differences\<close>

lemma change_of_same [simp]: "change_of field x x = []"
  by (simp add: change_of_def)

lemma settled_agent_plan:
  assumes p: "build_agent_params lib config_root base spec = Inr p" and s: "agent_settled p s"
  shows "\<exists>d a. build_desired_agent lib config_root base spec = Inr d \<and> a \<in> set (agents s) \<and> a_key a = spec_key spec \<and>
    diff_agent env (scan_runnable_agent s a) d = []"
proof -
  obtain config a where c: "marshal_optional_envelope ''agent_config'' (ca_config p) = Some config" "a \<in> set (agents s)"
    "a_key a = param_key p" "\<not> agent_differs p config (ra_record (scan_runnable_agent s a))"
    "ra_prompt (scan_runnable_agent s a) = prompt_or_default (ca_prompt p)" using s by (auto simp: agent_settled_def)
  define d where "d = projr (build_desired_agent lib config_root base spec)"
  have d: "build_desired_agent lib config_root base spec = Inr d" using p c(1) by (simp add: d_def build_desired_agent_def)
  let ?a = "ra_record (scan_runnable_agent s a)"
  note B = built_params [OF p]
  have cols: "da_name d = a_name ?a" "da_role d = a_role ?a" "da_state d = a_desired ?a" "da_root d = a_root ?a"
    "da_provider d = a_provider ?a" "da_model d = a_model ?a" "da_base_url d = a_base_url ?a" "da_preserve d = a_preserve ?a"
    "da_max_steps d = a_max_steps ?a" "da_step_timeout d = a_step_timeout ?a" "da_max_output d = a_max_output ?a"
    "da_lease_duration d = a_lease_duration ?a" "da_retry_delay d = a_retry_delay ?a" "da_max_attempts d = a_max_attempts ?a"
    "da_config d = a_config ?a" "da_prompt d = ra_prompt (scan_runnable_agent s a)"
    using p c(1,4,5) B(2,3)
    by (simp_all add: d_def build_desired_agent_def agent_differs_def normalized_name_def normalized_provider_def
        normalized_prompt_def prompt_or_default_def default_prompt_def or_default_def default_string_def default_int_def
        default_duration_def blank_def)
  have "diff_agent env (scan_runnable_agent s a) d = []" unfolding diff_agent_def Let_def cols by simp
  then show ?thesis using d c(2,3) B(1) by auto
qed

text \<open>A wanted schedule and a row of the store that agree.\<close>

definition schedule_matches :: "desired_schedule \<Rightarrow> schedule \<Rightarrow> bool" where
  "schedule_matches d c \<longleftrightarrow>
     ds_namespace d = s_namespace c \<and> ds_id d = s_id c \<and> ds_agent d = s_agent c \<and> ds_cron d = s_cron c \<and>
     ds_zone d = s_zone c \<and> ds_enabled d = s_enabled c \<and> ds_payload d = s_payload c"

lemma matching_schedule_plan: "schedule_matches d c \<Longrightarrow> diff_schedule env (scan_schedule c) d = []"
  by (simp add: schedule_matches_def diff_schedule_def scan_schedule_def)

lemma encode_schedules_rows:
  "\<forall>p \<in> set ps. \<exists>c. schedule_row_of p c \<Longrightarrow>
   \<exists>ds. encode_schedules spec ps = Inr ds \<and>
     list_all2 (\<lambda>p d. ds_namespace d = cs_namespace p \<and> ds_id d = cs_schedule p \<and>
        (\<forall>c. schedule_row_of p c \<longrightarrow> schedule_matches d c)) ps ds"
proof (induction ps)
  case (Cons p ps)
  then obtain c ds where "schedule_row_of p c" and ds: "encode_schedules spec ps = Inr ds"
    "list_all2 (\<lambda>p d. ds_namespace d = cs_namespace p \<and> ds_id d = cs_schedule p \<and>
       (\<forall>c. schedule_row_of p c \<longrightarrow> schedule_matches d c)) ps ds" by auto
  then have "marshal_envelope ''schedule_payload'' (cs_payload p) = Some (s_payload c)" by (simp add: schedule_row_of_def)
  then show ?case using ds by (simp add: list_all2_Cons1) (simp add: schedule_row_of_def schedule_matches_def)
qed simp

lemma settled_schedules_plan:
  assumes p: "build_schedule_params lib spec = Inr ps" and s: "schedules_settled (spec_key spec) ps s"
    and utc: "zone_known (sl_cron lib) ''UTC''"
  shows "\<exists>ds. build_desired_schedules lib spec = Inr ds \<and> distinct (map ds_id ds) \<and>
    (\<forall>d \<in> set ds. ds_namespace d = sp_namespace spec \<and>
       (\<exists>c \<in> set (schedules s). s_owner c = spec_key spec \<and> schedule_matches d c)) \<and>
    (\<forall>c \<in> set (schedules s). s_owner c = spec_key spec \<longrightarrow> (\<exists>d \<in> set ds. schedule_matches d c))"
proof -
  have "\<forall>p \<in> set ps. \<exists>c. schedule_row_of p c" using s by (auto simp: schedules_settled_def)
  then obtain ds where ds: "encode_schedules spec ps = Inr ds"
    and l: "list_all2 (\<lambda>p d. ds_namespace d = cs_namespace p \<and> ds_id d = cs_schedule p \<and>
      (\<forall>c. schedule_row_of p c \<longrightarrow> schedule_matches d c)) ps ds" using encode_schedules_rows by blast
  note P = schedule_params_ids [OF p [unfolded build_schedule_params_def] utc]
  have "map ds_id ds = map cs_schedule ps" using l by (induction rule: list_all2_induct) auto
  moreover have "ds_namespace d = sp_namespace spec \<and> (\<exists>c \<in> set (schedules s). s_owner c = spec_key spec \<and> schedule_matches d c)"
    if d: "d \<in> set ds" for d
    using list_all2_set2 [OF l d] P s by (fastforce simp: schedules_settled_def)
  moreover have "\<exists>d \<in> set ds. schedule_matches d c" if c: "c \<in> set (schedules s)" "s_owner c = spec_key spec" for c
  proof -
    obtain p where "p \<in> set ps" "schedule_row_of p c" using s c by (auto simp: schedules_settled_def)
    then show ?thesis using list_all2_set1 [OF l] by blast
  qed
  ultimately show ?thesis using ds p P by (simp add: build_desired_schedules_def)
qed

lemma settled_namespace_plan:
  assumes "namespace_settled n s"
  shows "plan_namespace env (list_namespaces s) n = []"
proof -
  have "\<exists>r \<in> set (list_namespaces s). n_id r = n" using assms
    by (auto simp: namespace_settled_def list_namespaces_def scan_namespace_def)
  moreover have "n_name r = n \<and> n_limits r = NoText" if "r \<in> set (list_namespaces s)" "n_id r = n" for r
    using assms that by (auto simp: namespace_settled_def list_namespaces_def scan_namespace_def)
  ultimately obtain r where "find (\<lambda>r. n_id r = n) (list_namespaces s) = Some r" "n_name r = n" "n_limits r = NoText"
    by (cases "find (\<lambda>r. n_id r = n) (list_namespaces s)") (auto simp: find_None_iff find_Some_iff)
  then show ?thesis by (simp add: plan_namespace_def diff_namespace_def)
qed

section \<open>The plan\<close>

text \<open>What the store holds of each agent and schedule is found again under its key.\<close>

lemma existing_agents_in:
  "(k, x) \<in> set (existing_agents s) \<Longrightarrow> \<exists>a \<in> set (agents s). x = scan_runnable_agent s a \<and> k = plan_key (a_namespace a) (a_id a)"
  unfolding existing_agents_def
  by (drule keyed_in) (auto simp: list_agents_def scan_runnable_agent_def)

lemma existing_agents_lookup:
  assumes a: "a \<in> set (agents s)"
  shows "\<exists>b \<in> set (agents s). plan_key (a_namespace b) (a_id b) = plan_key (a_namespace a) (a_id a) \<and>
    map_of (existing_agents s) (plan_key (a_namespace a) (a_id a)) = Some (scan_runnable_agent s b)"
proof -
  have in_list: "scan_runnable_agent s a \<in> set (list_agents [] s)" using a by (simp add: list_agents_def blank_def)
  let ?key = "\<lambda>a. plan_key (a_namespace (ra_record a)) (a_id (ra_record a))"
  have k: "?key (scan_runnable_agent s b) = plan_key (a_namespace b) (a_id b)" for b by (simp add: scan_runnable_agent_def)
  obtain y where y: "y \<in> set (list_agents [] s)" "?key y = ?key (scan_runnable_agent s a)"
    "map_of (existing_agents s) (?key (scan_runnable_agent s a)) = Some y"
    using keyed_lookup [OF in_list, of ?key] unfolding existing_agents_def by blast
  then obtain b where "b \<in> set (agents s)" "y = scan_runnable_agent s b" by (auto simp: list_agents_def)
  then show ?thesis using y k by auto
qed

lemma all_schedules:
  assumes "store_ok s"
  shows "set (concat (map (\<lambda>n. list_schedules (n_id n) s) (list_namespaces s))) = scan_schedule ` set (schedules s)"
proof -
  have "s_namespace c \<in> n_id ` set (namespaces s)" if c: "c \<in> set (schedules s)" for c
  proof -
    obtain a where "a \<in> set (agents s)" "s_owner c = a_key a" using assms c by (auto simp: store_ok_def)
    moreover have "a_namespace a \<in> n_id ` set (namespaces s)" if "a \<in> set (agents s)" for a
      using assms that by (auto simp: store_ok_def n_key_def image_subset_iff)
    ultimately show ?thesis by (auto simp: s_owner_def a_key_def)
  qed
  moreover have "n_id ` set (list_namespaces s) = n_id ` set (namespaces s)"
    by (simp add: list_namespaces_def image_image scan_namespace_def)
  moreover have "set (concat (map (\<lambda>n. list_schedules (n_id n) s) (list_namespaces s))) =
      scan_schedule ` {c \<in> set (schedules s). s_namespace c \<in> n_id ` set (list_namespaces s)}"
    by (auto simp: list_schedules_def)
  ultimately show ?thesis by auto
qed

lemma existing_schedules_in:
  "\<lbrakk>(k, x) \<in> set (existing_schedules s); store_ok s\<rbrakk> \<Longrightarrow>
   \<exists>c \<in> set (schedules s). x = scan_schedule c \<and> k = plan_key (s_namespace c) (s_id c)"
  unfolding existing_schedules_def
  by (drule keyed_in) (auto simp: all_schedules scan_schedule_def simp del: set_concat)

lemma existing_schedules_lookup:
  assumes c: "c \<in> set (schedules s)" and ok: "store_ok s"
  shows "\<exists>b \<in> set (schedules s). plan_key (s_namespace b) (s_id b) = plan_key (s_namespace c) (s_id c) \<and>
    map_of (existing_schedules s) (plan_key (s_namespace c) (s_id c)) = Some (scan_schedule b)"
proof -
  let ?all = "concat (map (\<lambda>n. list_schedules (n_id n) s) (list_namespaces s))"
  let ?key = "\<lambda>c. plan_key (s_namespace c) (s_id c)"
  have in_list: "scan_schedule c \<in> set ?all" unfolding all_schedules [OF ok] using c by simp
  have k: "?key (scan_schedule b) = ?key b" for b by (simp add: scan_schedule_def)
  obtain y where y: "y \<in> set ?all" "?key y = ?key (scan_schedule c)" "map_of (existing_schedules s) (?key (scan_schedule c)) = Some y"
    using keyed_lookup [OF in_list, of ?key] unfolding existing_schedules_def by blast
  then obtain b where "b \<in> set (schedules s)" "y = scan_schedule b" unfolding all_schedules [OF ok] by auto
  then show ?thesis using y k by auto
qed

text \<open>Specifications that are settled, with nothing else in the store.\<close>

definition all_settled :: "spec_lib \<Rightarrow> string \<Rightarrow> string \<Rightarrow> agent_spec list \<Rightarrow> store \<Rightarrow> bool" where
  "all_settled lib config_root base specs s \<longleftrightarrow>
     system_ok s \<and> (\<forall>spec \<in> set specs. spec_settled lib config_root base s spec \<and> namespace_settled (sp_namespace spec) s) \<and>
     a_key ` set (agents s) = spec_key ` set specs"

lemma distinct_plan_keys:
  assumes d: "distinct (map spec_key specs)" and nul: "\<forall>spec \<in> set specs. CHR 0x00 \<notin> set (sp_namespace spec)"
  shows "distinct (map spec_plan_key specs)"
  using assms by (induction specs) (auto simp: spec_plan_key_def spec_key_def plan_key_eq)

lemma distinct_schedule_keys:
  assumes "distinct (map spec_key specs)" "distinct (map s_key cs)"
    "\<forall>spec \<in> set specs. CHR 0x00 \<notin> set (sp_namespace spec) \<and> distinct (map ds_id (f spec)) \<and>
       (\<forall>d \<in> set (f spec). ds_namespace d = sp_namespace spec \<and> (\<exists>c \<in> set cs. s_owner c = spec_key spec \<and> schedule_matches d c))"
  shows "distinct (map schedule_plan_key (concat (map f specs)))"
  using assms
proof (induction specs)
  case (Cons spec specs)
  have n: "CHR 0x00 \<notin> set (ds_namespace d)" if "d \<in> set (f x)" "x \<in> set (spec # specs)" for d x using Cons.prems(3) that by auto
  have "inj_on schedule_plan_key (set (f spec))"
    using Cons.prems(3) by (auto simp: inj_on_def schedule_plan_key_def plan_key_eq distinct_map)
  moreover have "distinct (f spec)" using Cons.prems(3) by (auto simp: distinct_map)
  moreover have False if e: "d \<in> set (f spec)" "x \<in> set specs" "e \<in> set (f x)" "schedule_plan_key d = schedule_plan_key e" for d x e
  proof -
    obtain b c where "b \<in> set cs" "s_owner b = spec_key spec" "schedule_matches d b"
      "c \<in> set cs" "s_owner c = spec_key x" "schedule_matches e c" using Cons.prems(3) e by fastforce
    moreover have "ds_namespace d = ds_namespace e \<and> ds_id d = ds_id e"
      using e n [of d spec] n [of e x] by (simp add: schedule_plan_key_def plan_key_eq)
    ultimately have "b = c" using distinct_map_inj [OF Cons.prems(2), of b c] by (simp add: schedule_matches_def s_key_def)
    then have "spec_key spec = spec_key x" using \<open>s_owner b = spec_key spec\<close> \<open>s_owner c = spec_key x\<close> by simp
    then show False using Cons.prems(1) e(2) by auto
  qed
  ultimately show ?case using Cons by (fastforce simp: distinct_map)
qed simp

lemma settled_plan_empty:
  assumes S: "all_settled lib config_root base specs s" and d: "distinct (map spec_key specs)"
    and nul: "\<forall>spec \<in> set specs. CHR 0x00 \<notin> set (sp_namespace spec)"
    and roots: "check_unique_roots config_root base [] specs = None" and utc: "zone_known (sl_cron lib) ''UTC''"
  shows "\<exists>p. plan_sync env lib config_root base specs s = Inr p \<and> \<not> has_changes p"
proof -
  have ok: "store_ok s" and keys: "a_key ` set (agents s) = spec_key ` set specs" using S by (auto simp: all_settled_def)
  let ?da = "desired_of lib config_root base" and ?ds = "desired_schedules_of lib"
  have A: "build_desired_agent lib config_root base spec = Inr (?da spec) \<and>
      (\<exists>a \<in> set (agents s). a_key a = spec_key spec \<and> diff_agent env (scan_runnable_agent s a) (?da spec) = [])"
    if "spec \<in> set specs" for spec
    using S that settled_agent_plan [where env = env] by (fastforce simp: all_settled_def spec_settled_def desired_of_def)
  have B: "build_desired_schedules lib spec = Inr (?ds spec) \<and> distinct (map ds_id (?ds spec)) \<and>
      (\<forall>d \<in> set (?ds spec). ds_namespace d = sp_namespace spec \<and>
         (\<exists>c \<in> set (schedules s). s_owner c = spec_key spec \<and> schedule_matches d c)) \<and>
      (\<forall>c \<in> set (schedules s). s_owner c = spec_key spec \<longrightarrow> (\<exists>d \<in> set (?ds spec). schedule_matches d c))"
    if "spec \<in> set specs" for spec
  proof -
    obtain ps where "build_schedule_params lib spec = Inr ps" "schedules_settled (spec_key spec) ps s"
      using S \<open>spec \<in> set specs\<close> by (auto simp: all_settled_def spec_settled_def)
    from settled_schedules_plan [OF this utc] show ?thesis by (auto simp: desired_schedules_of_def)
  qed
  have spec_nul: "CHR 0x00 \<notin> set (a_namespace a)" if "a \<in> set (agents s)" for a
    using that keys nul by (force simp: a_key_def spec_key_def)
  have sched_nul: "CHR 0x00 \<notin> set (s_namespace c) \<and> s_owner c \<in> spec_key ` set specs" if "c \<in> set (schedules s)" for c
  proof -
    have "s_owner c \<in> a_key ` set (agents s)" using ok that by (auto simp: store_ok_def)
    then have "s_owner c \<in> spec_key ` set specs" unfolding keys .
    then show ?thesis using nul by (auto simp: s_owner_def spec_key_def)
  qed
  have dk: "distinct (map schedule_plan_key (concat (map ?ds specs)))"
    using B nul by (intro distinct_schedule_keys [OF d store_ok_distinct(6) [OF ok]]) blast
  define das where "das = rev (map (\<lambda>spec. (spec_plan_key spec, ?da spec)) specs)"
  define dss where "dss = rev (map (\<lambda>d. (schedule_plan_key d, d)) (concat (map ?ds specs)))"
  have coll: "collect_desired lib config_root base specs [] [] = Inr (das, dss)"
    using collect_desired_new [of specs lib config_root base "[]" "[]"] A B distinct_plan_keys [OF d nul] dk
    by (simp add: das_def dss_def)
  have ns: "plan_namespace env (list_namespaces s) n = []" if "n \<in> set (map sp_namespace specs)" for n
    using S that settled_namespace_plan by (auto simp: all_settled_def)
  have ag: "plan_agent env (existing_agents s) x = []" if x0: "x \<in> set das" for x
  proof -
    obtain spec where x: "x = (spec_plan_key spec, ?da spec)" "spec \<in> set specs" using x0 by (auto simp: das_def)
    then obtain a where a: "a \<in> set (agents s)" "a_key a = spec_key spec" "diff_agent env (scan_runnable_agent s a) (?da spec) = []"
      using A by blast
    obtain b where b: "b \<in> set (agents s)" "plan_key (a_namespace b) (a_id b) = plan_key (a_namespace a) (a_id a)"
      "map_of (existing_agents s) (plan_key (a_namespace a) (a_id a)) = Some (scan_runnable_agent s b)"
      using existing_agents_lookup [OF a(1)] by blast
    have "b = a" using distinct_map_inj [OF store_ok_distinct(2) [OF ok] b(1) a(1)] b(2) spec_nul [OF a(1)] spec_nul [OF b(1)]
      by (simp add: plan_key_eq a_key_def)
    then show ?thesis using a b(3) x by (simp add: plan_agent_def spec_plan_key_def a_key_def spec_key_def)
  qed
  have ag_gone: "plan_agent_gone das x = []" if x0: "x \<in> set (existing_agents s)" for x
  proof -
    obtain a where a: "a \<in> set (agents s)" "fst x = plan_key (a_namespace a) (a_id a)"
      using existing_agents_in [of "fst x" "snd x" s] x0 by auto
    then obtain spec where "spec \<in> set specs" "a_key a = spec_key spec" using keys by (metis image_iff)
    then have "fst x \<in> fst ` set das" using a by (auto simp: das_def image_iff spec_plan_key_def a_key_def spec_key_def)
    then show ?thesis by (simp add: plan_agent_gone_def map_of_none)
  qed
  have sc: "plan_schedule env (existing_schedules s) x = []" if x0: "x \<in> set dss" for x
  proof -
    obtain spec d where x: "x = (schedule_plan_key d, d)" "spec \<in> set specs" "d \<in> set (?ds spec)" using x0 by (auto simp: dss_def)
    then obtain c where c: "c \<in> set (schedules s)" "schedule_matches d c" using B by blast
    obtain b where b: "b \<in> set (schedules s)" "plan_key (s_namespace b) (s_id b) = plan_key (s_namespace c) (s_id c)"
      "map_of (existing_schedules s) (plan_key (s_namespace c) (s_id c)) = Some (scan_schedule b)"
      using existing_schedules_lookup [OF c(1) ok] by blast
    have "b = c" using distinct_map_inj [OF store_ok_distinct(6) [OF ok] b(1) c(1)] b(2) sched_nul [OF b(1)] sched_nul [OF c(1)]
      by (simp add: plan_key_eq s_key_def)
    then show ?thesis using c b(3) x matching_schedule_plan
      by (simp add: plan_schedule_def schedule_plan_key_def schedule_matches_def)
  qed
  have sc_gone: "plan_schedule_gone dss x = []" if x0: "x \<in> set (existing_schedules s)" for x
  proof -
    obtain c where c: "c \<in> set (schedules s)" "fst x = plan_key (s_namespace c) (s_id c)"
      using existing_schedules_in [of "fst x" "snd x" s] x0 ok by auto
    obtain spec where spec: "spec \<in> set specs" "s_owner c = spec_key spec" using sched_nul [OF c(1)] by blast
    obtain d where "d \<in> set (?ds spec)" "schedule_matches d c" using B [OF spec(1)] c(1) spec(2) by blast
    then have "fst x \<in> fst ` set dss"
      using c(2) spec(1) by (auto simp: dss_def image_iff schedule_plan_key_def schedule_matches_def intro!: bexI [of _ spec] bexI [of _ d])
    then show ?thesis by (simp add: plan_schedule_gone_def map_of_none)
  qed
  have none: "concat (map (plan_namespace env (list_namespaces s)) (remdups (map sp_namespace specs))) = []"
    "concat (map (plan_agent env (existing_agents s)) das) @ concat (map (plan_agent_gone das) (existing_agents s)) = []"
    "concat (map (plan_schedule env (existing_schedules s)) dss) @ concat (map (plan_schedule_gone dss) (existing_schedules s)) = []"
    using ns ag ag_gone sc sc_gone by simp_all
  have "plan_sync env lib config_root base specs s = Inr \<lparr>pl_namespaces = [], pl_agents = [], pl_schedules = []\<rparr>"
    unfolding plan_sync_def Let_def roots coll option.case sum.case prod.case none by simp
  then show ?thesis by (simp add: has_changes_def)
qed

section \<open>Loading\<close>

lemma check_specs_distinct:
  "check_specs lib seen seen_schedules specs = None \<Longrightarrow>
   distinct (map spec_key specs) \<and> (\<forall>spec \<in> set specs. colon_key (sp_namespace spec) (sp_agent spec) \<notin> seen)"
proof (induction lib seen seen_schedules specs rule: check_specs.induct)
  case (2 lib seen seen_schedules spec specs)
  have v: "validate_agent_spec lib spec = None" using 2(2) by (auto split: option.splits)
  have n: "colon_key (sp_namespace spec) (sp_agent spec) \<notin> seen" using 2(2) v by (auto simp: Let_def split: if_splits)
  obtain seen' where c: "check_schedule_ids spec seen_schedules 0 (sp_schedules spec) = Inr seen'"
    using 2(2) v n by (auto simp: Let_def split: sum.splits)
  have "check_specs lib (insert (colon_key (sp_namespace spec) (sp_agent spec)) seen) seen' specs = None"
    using 2(2) v n c by (simp add: Let_def)
  note IH = 2(1) [OF v refl n c this]
  then have "spec_key spec \<notin> spec_key ` set specs" by (auto simp: spec_key_def)
  then show ?case using IH n by auto
qed simp

lemma loaded_distinct: "load_specs lib found = Inr specs \<Longrightarrow> distinct (map spec_key specs)"
proof -
  assume l: "load_specs lib found = Inr specs"
  then have c: "check_specs lib {} {} found = None" and s: "specs = sort_key spec_key found"
    by (auto simp: load_specs_def split: option.splits)
  have "distinct (map spec_key found)" using check_specs_distinct [OF c] by blast
  then show ?thesis by (simp add: s distinct_map)
qed

text \<open>Loading, a synchronisation that deletes, and the plan.\<close>

lemma loaded_sync_plan:
  assumes load: "load_specs lib found = Inr specs" and ok: "system_ok s"
    and sync: "sync_specs lib env config_root base True specs s = (Inr sm, s')"
    and plain: "\<forall>spec \<in> set specs. plain_spec lib config_root base spec"
    and env: "filled_ids env" and utc: "zone_known (sl_cron lib) ''UTC''"
  shows "a_key ` set (agents s') = spec_key ` set specs \<and>
    (\<exists>p. plan_sync penv lib config_root base specs s' = Inr p \<and> \<not> has_changes p)"
proof -
  note d = loaded_distinct [OF load]
  note S = sync_specs_settles [OF ok sync d plain env utc]
  then have "all_settled lib config_root base specs s'" by (auto simp: all_settled_def)
  moreover have "\<forall>spec \<in> set specs. CHR 0x00 \<notin> set (sp_namespace spec)" using plain by (auto simp: plain_spec_def)
  moreover have "check_unique_roots config_root base [] specs = None" using S by (elim conjE)
  ultimately have "\<exists>p. plan_sync penv lib config_root base specs s' = Inr p \<and> \<not> has_changes p"
    using d utc by (intro settled_plan_empty)
  then show ?thesis using S by (intro conjI) (elim conjE)
qed

section \<open>Schedules of other agents\<close>

lemma create_schedule_extends: "create_schedule lib now g p s = (r, s') \<Longrightarrow> set (schedules s) \<subseteq> set (schedules s')"
  by (auto simp: create_schedule_def Let_def insert_schedule_Inr split: if_splits option.splits sum.splits)

lemma create_schedule_taken:
  assumes "create_schedule lib now g p s = (r, s')" "\<not> blank (cs_schedule p)" "(cs_namespace p, cs_schedule p) \<in> s_key ` set (schedules s)"
  shows "\<exists>e. r = Inl e"
proof -
  have "insert_schedule (new_schedule p (cs_schedule p) zone payload fire created) s \<noteq> Inr t" for zone payload fire created t
    using assms(3) by (simp add: insert_schedule_Inr new_schedule_def s_key_def)
  then show ?thesis using assms(1,2)
    by (auto simp: create_schedule_def Let_def default_string_def split: if_splits option.splits sum.splits)
qed

lemma create_schedules_taken:
  "\<lbrakk>create_schedules lib env i j ps sm s = (r, s'); q \<in> set ps; \<not> blank (cs_schedule q);
    (cs_namespace q, cs_schedule q) \<in> s_key ` set (schedules s)\<rbrakk> \<Longrightarrow> \<exists>e. r = Inl e"
proof (induction lib env i j ps sm s rule: create_schedules.induct)
  case (2 lib env i j p ps sm s)
  obtain r1 s1 where c: "create_schedule lib (se_clock env i j) (se_ids env i j) p s = (r1, s1)" by fastforce
  show ?case
  proof (cases r1)
    case (Inl e) then show ?thesis using 2(2) c by auto
  next
    case (Inr x)
    have "p \<noteq> q" using create_schedule_taken [OF c] Inr 2(4,5) by auto
    moreover have "(cs_namespace q, cs_schedule q) \<in> s_key ` set (schedules s1)"
      using create_schedule_extends [OF c] 2(5) by blast
    ultimately show ?thesis using 2(1) [OF c [symmetric] Inr] 2(2-4) c Inr by simp
  qed
qed simp

lemma create_schedules_extends:
  "create_schedules lib env i j ps sm s = (r, s') \<Longrightarrow> set (schedules s) \<subseteq> set (schedules s')"
proof (induction lib env i j ps sm s rule: create_schedules.induct)
  case (2 lib env i j p ps sm s)
  obtain r1 s1 where c: "create_schedule lib (se_clock env i j) (se_ids env i j) p s = (r1, s1)" by fastforce
  show ?case
  proof (cases r1)
    case (Inl e) then show ?thesis using 2(2) c create_schedule_extends [OF c] by simp
  next
    case (Inr x)
    have "create_schedules lib env i (j + 1) ps (sm\<lparr>sy_schedules_created := sy_schedules_created sm + 1\<rparr>) s1 = (r, s')"
      using 2(2) c Inr by simp
    from 2(1) [OF c [symmetric] Inr this] create_schedule_extends [OF c] show ?thesis by (rule subset_trans [rotated])
  qed
qed simp

text \<open>Until its owner's turn a schedule stays, so that no other specification can have its identifier.\<close>

lemma sync_spec_other:
  assumes sync: "sync_spec lib env config_root base i spec sm s = (r, s')" and safe: "safe_identifier (sp_agent spec)"
    and c: "c \<in> set (schedules s)" "s_owner c \<noteq> spec_key spec"
  shows "isl r \<or> c \<in> set (schedules s')"
    and "\<lbrakk>build_schedule_params lib spec = Inr ps; q \<in> set ps; \<not> blank (cs_schedule q); s_key c = (cs_namespace q, cs_schedule q)\<rbrakk> \<Longrightarrow> isl r"
proof -
  have R: "isl r \<or> c \<in> set (schedules s') \<and>
      (\<forall>ps q. build_schedule_params lib spec = Inr ps \<longrightarrow> q \<in> set ps \<longrightarrow> \<not> blank (cs_schedule q) \<longrightarrow>
         s_key c \<noteq> (cs_namespace q, cs_schedule q))"
  proof (cases "isl r")
    case False
    obtain p where p: "build_agent_params lib config_root base spec = Inr p"
      using sync False by (auto simp: sync_spec_def split: sum.splits)
    note B = built_params [OF p]
    have ag: "\<not> blank (ca_agent p)" using safe_visible(1,3) [OF safe] B(4) by (simp add: blank_def)
    obtain u s1 where put: "put_agent (sl_mkdir lib) (se_clock env i 0) (se_ids env i 0) (se_ids env i 1) p s = (u, s1)" by fastforce
    then obtain x where u: "u = Inr x" using sync p False by (cases u) (auto simp: sync_spec_def)
    obtain n s2 where del: "delete_schedules_by_agent (sp_namespace spec) (sp_agent spec) s1 = (n, s2)" by fastforce
    obtain ps where ps: "build_schedule_params lib spec = Inr ps"
      using sync p put u del False by (auto simp: sync_spec_def split: sum.splits)
    obtain sm1 where create: "create_schedules (sl_cron lib) env i 2 ps sm1 s2 = (r, s')"
      using sync p put u del ps by (auto simp: sync_spec_def)
    have "keeps {s_owner c} s s1" using put_agent_keeps [OF put ag] B(1) c(2) by auto
    moreover have "keeps {s_owner c} s1 s2" using delete_schedules_keeps [OF del] c(2) by (auto simp: spec_key_def)
    ultimately have c2: "c \<in> set (schedules s2)" using c(1) by (auto simp: keeps_def)
    moreover have "s_key c \<noteq> (cs_namespace q, cs_schedule q)" if q: "q \<in> set ps" "\<not> blank (cs_schedule q)" for q
    proof
      assume "s_key c = (cs_namespace q, cs_schedule q)"
      then have "(cs_namespace q, cs_schedule q) \<in> s_key ` set (schedules s2)" using c2 by (metis imageI)
      then show False using create_schedules_taken [OF create q] False by auto
    qed
    ultimately show ?thesis using create_schedules_extends [OF create] ps by auto
  qed simp
  then show "isl r \<or> c \<in> set (schedules s')" by blast
  show "isl r" if "build_schedule_params lib spec = Inr ps" "q \<in> set ps" "\<not> blank (cs_schedule q)" "s_key c = (cs_namespace q, cs_schedule q)"
    using R that by blast
qed

lemma sync_each_taken:
  "\<lbrakk>sync_each lib env config_root base i (before @ spec # after) sm s = (r, s');
    \<forall>x \<in> set (before @ [spec]). safe_identifier (sp_agent x) \<and> s_owner c \<noteq> spec_key x; c \<in> set (schedules s);
    build_schedule_params lib spec = Inr ps; q \<in> set ps; \<not> blank (cs_schedule q); s_key c = (cs_namespace q, cs_schedule q)\<rbrakk> \<Longrightarrow> isl r"
proof (induction before arbitrary: i sm s)
  case Nil
  obtain u s1 where one: "sync_spec lib env config_root base i spec sm s = (u, s1)" by fastforce
  have "isl u" using sync_spec_other(2) [OF one] Nil by auto
  then show ?case using Nil(1) one by (cases u) auto
next
  case (Cons x before)
  obtain u s1 where one: "sync_spec lib env config_root base i x sm s = (u, s1)" by fastforce
  show ?case
  proof (cases u)
    case (Inl e) then show ?thesis using Cons.prems(1) one by auto
  next
    case (Inr sm1)
    have "c \<in> set (schedules s1)" using sync_spec_other(1) [OF one] Cons.prems(2,3) Inr by auto
    then show ?thesis using Cons.IH [of "i + 1" sm1 s1] Cons.prems one Inr by auto
  qed
qed

lemma sync_namespaces_schedules: "sync_namespaces env i ns sm s = (r, s') \<Longrightarrow> schedules s' = schedules s"
proof (induction env i ns sm s rule: sync_namespaces.induct)
  case (2 env i n ns sm s)
  obtain u s1 where put: "put_namespace (se_clock env 0 i) (se_ids env 0 i) \<lparr>cn_id = n, cn_name = n, cn_limits = GNil\<rparr> s = (u, s1)"
    by fastforce
  have "schedules s1 = schedules s" using put
    by (auto simp: put_namespace_def create_namespace_def Let_def insert_namespace_Inr split: sum.splits prod.splits option.splits if_splits)
  then show ?case using 2 put by (cases u) auto
qed simp

lemma sync_specs_taken:
  assumes sync: "sync_specs lib env config_root base prune (before @ spec # after) s = (r, s')"
    and b: "\<forall>x \<in> set (before @ [spec]). safe_identifier (sp_agent x) \<and> s_owner c \<noteq> spec_key x" and c: "c \<in> set (schedules s)"
    and q: "build_schedule_params lib spec = Inr ps" "q \<in> set ps" "\<not> blank (cs_schedule q)"
      "s_key c = (cs_namespace q, cs_schedule q)"
  shows "isl r"
proof -
  let ?specs = "before @ spec # after"
  let ?ns = "sort (remdups (map sp_namespace ?specs))"
  obtain r1 s1 where n: "sync_namespaces env 0 ?ns no_sync s = (r1, s1)" by fastforce
  have "c \<in> set (schedules s1)" using sync_namespaces_schedules [OF n] c by simp
  moreover obtain r2 s2 where e: "sync_each lib env config_root base 1 ?specs (projr r1) s1 = (r2, s2)" by fastforce
  ultimately have "isl r2" using sync_each_taken [OF e b _ q] by blast
  then show ?thesis
    using sync n e by (cases r1; cases r2) (auto simp: sync_specs_def split: option.splits)
qed

end
