(* ===== verification/SyncSamples.thy ===== *)
theory SyncSamples
  imports Samples SyncPlanLaws
begin

text \<open>
  A network policy for the hosts below example.com, and two specifications that are synchronised with the
  sample store: one agent takes the place of the sample agent, or its schedule.
\<close>

section \<open>Network policy\<close>

text \<open>ASCII letters are lowered; no regular expression compiles.\<close>

definition sample_net :: net_lib where
  "sample_net =
     \<lparr>nl_lower = map (\<lambda>c. if char_between c (CHR ''A'', CHR ''Z'') then char_of (of_char c + 32 :: nat) else c),
      nl_regex = (\<lambda>_. None)\<rparr>"

definition example_hosts :: host_matcher where
  "example_hosts = \<lparr>hm_glob = ''*.example.com'', hm_regex = []\<rparr>"

definition sample_header :: http_header_rule where
  "sample_header = \<lparr>hr_name = ''x-token'', hr_value = ''t'', hr_domains = [example_hosts]\<rparr>"

text \<open>A base dialer that counts its calls and connects to every address.\<close>

definition counting_dialer :: "(nat, string) dialer" where
  "counting_dialer = (\<lambda>cancelled network address w. (Inr address, w + 1))"

definition sample_factory :: "(nat, string) http_factory" where
  "sample_factory =
     \<lparr>hf_dialer = allowlist_dial sample_net counting_dialer [CompiledGlob ''*.example.com''],
      hf_rules = [\<lparr>ch_name = ''x-token'', ch_value = ''t'', ch_domains = [CompiledGlob ''*.example.com'']\<rparr>]\<rparr>"

lemma sample_factory_made:
  "agent_http_factory sample_net (Some counting_dialer) (effective_tool_hosts ''scoped'' [] [example_hosts]) [sample_header] =
     Inr sample_factory"
proof -
  have h: "effective_tool_hosts ''scoped'' [] [example_hosts] = [example_hosts]"
    and g: "trim_space (hm_glob example_hosts) = ''*.example.com''" "nl_lower sample_net ''*.example.com'' = ''*.example.com''"
      "validate_host_pattern ''*.example.com'' = None" "path_match ''*.example.com'' ''example.test'' \<noteq> None"
    and n: "trim_space (hr_name sample_header) = ''x-token''"
    by code_simp+
  have c: "compile_host_matchers sample_net [example_hosts] = Inr [CompiledGlob ''*.example.com'']"
    using g by (auto simp: compile_host_matcher_def compile_host_glob_def Let_def)
  have "hr_value sample_header = ''t''" "hr_domains sample_header = [example_hosts]" by (simp_all add: sample_header_def)
  then show ?thesis unfolding h
    using c n by (simp add: agent_http_factory_def agent_scoped_dialer_def new_allowlist_dialer_def new_http_factory_def
        sample_factory_def del: compile_host_matchers.simps)
qed

definition sample_get :: "string \<Rightarrow> http_request" where
  "sample_get host = \<lparr>rq_url_host = host, rq_host = [], rq_header = (\<lambda>_. None)\<rparr>"

section \<open>Specifications\<close>

definition sample_spec_lib :: spec_lib where
  "sample_spec_lib =
     \<lparr>sl_net = sample_net, sl_cron = sample_cron, sl_mkdir = sample_mkdir, sl_check_mounts = (\<lambda>_. None),
      sl_mounts = (\<lambda>_. Inr GNil), sl_tools = Inr, sl_check_tools = (\<lambda>_ _. None), sl_schema = (\<lambda>_ _. Inr GNil)\<rparr>"

definition sample_runtime_spec :: runtime_spec where
  "sample_runtime_spec =
     \<lparr>rn_desired = [], rn_filesystem = [], rn_preserve = False, rn_max_steps = 0, rn_step_timeout = ''1m30s'',
      rn_max_output = 0, rn_file_threshold = 0, rn_lease_duration = [], rn_retry_delay = [], rn_max_attempts = 0\<rparr>"

definition sample_schedule_spec :: "string \<Rightarrow> schedule_spec" where
  "sample_schedule_spec i =
     \<lparr>ss_id = i, ss_cron = ''* * * * *'', ss_zone = [], ss_enabled = None, ss_payload = GStr ''go''\<rparr>"

definition sample_spec :: "string \<Rightarrow> schedule_spec list \<Rightarrow> agent_spec" where
  "sample_spec ag scs =
     \<lparr>sp_source = ag @ ''.yaml'', sp_namespace = ''ops'', sp_version = Some 1, sp_agent = ag, sp_name = [],
      sp_description = [], sp_provider = [], sp_model = ''gpt-5'', sp_base_url = [], sp_prompt = ''Help.'',
      sp_root = ''/srv/'' @ ag, sp_memory_disable = False, sp_memory_prompt = [], sp_mounts = [], sp_headers = [],
      sp_network = Some [example_hosts], sp_capabilities = [], sp_tools = [], sp_runtime = sample_runtime_spec,
      sp_schedules = scs, sp_config = None\<rparr>"

definition sample_sync_env :: sync_env where
  "sample_sync_env = \<lparr>se_clock = (\<lambda>i j. sample_clock (10 + i)), se_ids = (\<lambda>i j. ''id'' @ nat_str i @ ''-'' @ nat_str j)\<rparr>"

text \<open>The helper alone, with a schedule of its own.\<close>

definition aide_specs :: "agent_spec list" where
  "aide_specs = [sample_spec ''aide'' [sample_schedule_spec []]]"

definition aide_sync :: "(spec_error + sync_summary) \<times> store" where
  "aide_sync = sync_specs sample_spec_lib sample_sync_env ''/etc/swarmd'' [] True aide_specs sample_store"

lemma aide_loaded: "load_specs sample_spec_lib aide_specs = Inr aide_specs"
proof -
  have "check_specs sample_spec_lib {} {} aide_specs = None" by code_simp
  then show ?thesis by (simp add: load_specs_def aide_specs_def)
qed

lemma aide_synced: "sync_specs sample_spec_lib sample_sync_env ''/etc/swarmd'' [] True aide_specs sample_store =
    (Inr (projr (fst aide_sync)), snd aide_sync)"
proof -
  have "\<not> isl (fst aide_sync)" unfolding aide_sync_def by code_simp
  then show ?thesis by (simp add: aide_sync_def prod_eq_iff)
qed

lemma aide_plain: "\<forall>spec \<in> set aide_specs. plain_spec sample_spec_lib ''/etc/swarmd'' [] spec"
proof -
  let ?spec = "sample_spec ''aide'' [sample_schedule_spec []]" and ?b = "build_agent_params sample_spec_lib ''/etc/swarmd'' []"
  have p: "\<not> isl (?b ?spec)" "whole_millis (projr (?b ?spec))" unfolding whole_millis_def by code_simp+
  then obtain q where "?b ?spec = Inr q" "whole_millis q" by (cases "?b ?spec") simp_all
  moreover have "trim_space ''ops'' = ''ops''" "safe_identifier ''aide''" by code_simp+
  ultimately have "plain_spec sample_spec_lib ''/etc/swarmd'' [] ?spec"
    by (simp add: plain_spec_def) (simp add: sample_spec_def)
  then show ?thesis by (simp add: aide_specs_def)
qed

lemma sample_ids_filled: "filled_ids sample_sync_env"
proof -
  have v: "visible (CHR ''i'')" by code_simp
  have "trim_space (''id'' @ nat_str i @ ''-'' @ nat_str j) = ''id'' @ nat_str i @ ''-'' @ nat_str j" for i j
    using digit_visible [of j] v by (intro trim_space_visible) simp_all
  then show ?thesis by (simp add: filled_ids_def sample_sync_env_def blank_def)
qed

lemma sample_zones: "zone_known (sl_cron sample_spec_lib) ''UTC''"
  by (simp add: sample_spec_lib_def sample_cron_def)

section \<open>A schedule that moves\<close>

definition moved_specs :: "agent_spec list" where
  "moved_specs = [sample_spec ''aide'' [sample_schedule_spec ''tick''], sample_spec ''scout'' []]"

definition moved_schedule :: schedule where
  "moved_schedule = hd (schedules sample_store)"

definition plain_plan_env :: plan_env where
  "plain_plan_env = \<lparr>pe_text = (\<lambda>_. []), pe_json = (\<lambda>_. []), pe_network = (\<lambda>_. False)\<rparr>"

definition moved_plan :: "spec_error + sync_plan" where
  "moved_plan = plan_sync plain_plan_env sample_spec_lib ''/etc/swarmd'' [] moved_specs sample_store"

lemma moved_schedule_facts:
  "moved_schedule \<in> set (schedules sample_store)" "s_owner moved_schedule = (''ops'', ''scout'')" "s_key moved_schedule = (''ops'', ''tick'')"
  "schedules sample_store \<noteq> []"
  by code_simp+

definition moved_params :: "create_schedule_params list" where
  "moved_params = projr (build_schedule_params sample_spec_lib (hd moved_specs))"

lemma moved_params_facts:
  "build_schedule_params sample_spec_lib (hd moved_specs) = Inr moved_params"
  "cs_namespace (hd moved_params) = ''ops''" "cs_schedule (hd moved_params) = ''tick''" "moved_params \<noteq> []"
proof -
  have "\<not> isl (build_schedule_params sample_spec_lib (hd moved_specs))" by code_simp
  then show "build_schedule_params sample_spec_lib (hd moved_specs) = Inr moved_params" by (simp add: moved_params_def)
  show "cs_namespace (hd moved_params) = ''ops''" "cs_schedule (hd moved_params) = ''tick''" "moved_params \<noteq> []"
    by code_simp+
qed

lemma tick_filled: "\<not> blank ''tick''"
  by code_simp

definition moved_desired :: "(string \<times> desired_agent) list \<times> (string \<times> desired_schedule) list" where
  "moved_desired = projr (collect_desired sample_spec_lib ''/etc/swarmd'' [] moved_specs [] [])"

text \<open>Only the schedules of the plan are evaluated.\<close>

lemma moved_plan_updates:
  "\<not> isl moved_plan"
  "map (\<lambda>c. (sc_action c, sc_schedule c, sc_agent c)) (pl_schedules (projr moved_plan)) = [(ChangeUpdate, ''tick'', ''aide'')]"
proof -
  have roots: "check_unique_roots ''/etc/swarmd'' [] [] moved_specs = None" by code_simp
  have "\<not> isl (collect_desired sample_spec_lib ''/etc/swarmd'' [] moved_specs [] [])" by code_simp
  then have c: "collect_desired sample_spec_lib ''/etc/swarmd'' [] moved_specs [] [] = Inr (fst moved_desired, snd moved_desired)"
    by (simp add: moved_desired_def)
  let ?old = "existing_schedules sample_store"
  define changes where "changes = concat (map (plan_schedule plain_plan_env ?old) (snd moved_desired)) @
    concat (map (plan_schedule_gone (snd moved_desired)) ?old)"
  have "map (\<lambda>c. (sc_action c, sc_schedule c, sc_agent c)) changes = [(ChangeUpdate, ''tick'', ''aide'')]" unfolding changes_def by code_simp
  then obtain x where x: "changes = [x]" "(sc_action x, sc_schedule x, sc_agent x) = (ChangeUpdate, ''tick'', ''aide'')"
    by (auto simp: map_eq_Cons_conv)
  have "pl_schedules (projr moved_plan) = sort_key (\<lambda>c. (sc_namespace c, sc_agent c, sc_schedule c, action_text (sc_action c))) changes"
    by (simp add: moved_plan_def plan_sync_def roots c Let_def changes_def case_prod_beta)
  then show "map (\<lambda>c. (sc_action c, sc_schedule c, sc_agent c)) (pl_schedules (projr moved_plan)) = [(ChangeUpdate, ''tick'', ''aide'')]"
    unfolding x(1) using x(2) by simp
  show "\<not> isl moved_plan" by (simp add: moved_plan_def plan_sync_def roots c Let_def case_prod_beta)
qed

end
