(* ===== verification/Spec2Isabelle.thy ===== *)
theory Spec2Isabelle
  imports RunSamples SyncSamples
begin

text \<open>
  A verification development for swarmd, a server that runs language-model agents: agents receive
  messages from a durable mailbox, handle each with a loop of model decisions and tool steps, and settle
  the message with the result.

  Parts and their theories. Every operation takes the state and returns a result and the new state;
  errors are values (\<open>store_error + 'a\<close>, \<open>server_error + 'a\<close>, \<open>option\<close>); clock readings, random
  identifiers and what belongs to other packages are arguments.

  \<^item> \<open>Prelude\<close>, \<open>TimeFormat\<close>: byte strings, Go's time and durations, transactions, labelled step
    relations with the locales \<open>invariant_system\<close> and \<open>stable_system\<close>, tables with a key (locale
    \<open>keyed_rows\<close>), RFC 3339 times.
  \<^item> \<open>StoreModel\<close> (\<open>pkg/server/store/types.go\<close>, \<open>json.go\<close>, \<open>migrations.go\<close>): rows, JSON envelopes,
    constraints and cascades; \<open>store_ok\<close> states the schema's constraints.
  \<^item> \<open>Mailbox\<close>, \<open>MailboxLaws\<close> (\<open>mailbox.go\<close>): enqueueing, claiming under a lease, recording steps,
    completing a run; \<open>message_ok\<close> is the invariant of one message, \<open>waits_for\<close> says which messages a claim may
    take, \<open>enqueued_as\<close> what becomes of a message that is sent.
  \<^item> \<open>Schedules\<close>, \<open>ScheduleLaws\<close> (\<open>schedule.go\<close>, \<open>scheduler.go\<close>): cron schedules. The cron parser and the
    zone database are the record \<open>cron_lib\<close>; \<open>cron_live\<close> says of a stored schedule that from the time it is due
    until the present its next activation is later and on a whole second, which is what the library documents for
    expressions that have one. \<open>fired_as\<close> describes the message of a firing.
  \<^item> \<open>Agents\<close>, \<open>AgentLaws\<close> (\<open>store.go\<close>, \<open>reconcile.go\<close>, \<open>readers.go\<close>): namespaces, agents, prompt
    versions, reconciliation and the readers.
  \<^item> \<open>StoreSystem\<close>: all operations of the store as one step relation \<open>store_step\<close>; the invariants of every
    history, the stability of a lease, and the count of runs.
  \<^item> \<open>Dispatch\<close>, \<open>DispatchLaws\<close> (\<open>pkg/server/queue.go\<close>, \<open>context.go\<close>, \<open>persistence.go\<close>): from a claimed
    message to a trigger, and from a result back to the store.
  \<^item> \<open>AgentTypes\<close>, \<open>AgentLoop\<close>, \<open>AgentLoopLaws\<close> (\<open>pkg/agent\<close>): the turn loop, driver retries, tool steps
    and sessions, over a \<open>runtime\<close> whose driver, tools and handlers act on an arbitrary world.
  \<^item> \<open>Patch\<close>, \<open>PatchLaws\<close> (\<open>pkg/tools/applypatch\<close>): the patch parser and the splicing of hunks.
  \<^item> \<open>MemFS\<close>, \<open>MemFSLaws\<close>, \<open>MemFSSteps\<close>, \<open>MemFSData\<close> (\<open>pkg/sh/memfs/memfs.go\<close>): the in-memory file
    system as a heap of nodes by inode number; \<open>fs_ok\<close> is the invariant of its tree, \<open>fs_step\<close> all
    operations as one relation, \<open>extends\<close> the order on trees in which writes and new directories go up.
  \<^item> \<open>PatchFiles\<close>, \<open>PatchFilesLaws\<close> (\<open>pkg/tools/applypatch\<close>, \<open>pkg/tools/common\<close>): the file operations of a patch
    over the record \<open>file_api\<close>. The locale \<open>text_files\<close> says what they rely on; it is interpreted on \<open>MemFS\<close>.
  \<^item> \<open>Capture\<close>, \<open>CaptureLaws\<close>, \<open>RunDirLaws\<close> (\<open>pkg/agent/capture.go\<close>, \<open>output_spill.go\<close>, \<open>tool_runtime.go\<close>): captured output,
    the files it is spilled to and the output a step keeps. \<open>snapshot_of\<close> is the snapshot as a function of the
    whole output, \<open>spill_holds\<close> relates the writer to the file while output arrives; \<open>RunDirLaws\<close> shows that
    removing a directory and making it again leaves it empty.
  \<^item> \<open>Compaction\<close>, \<open>CompactionLaws\<close> (\<open>pkg/tools/common/output_compaction.go\<close>): the stub that stands for a
    structured output that is too long. \<open>small_but_files\<close> bounds what is in a stub, \<open>grown\<close> says what a step of
    its construction adds.
  \<^item> \<open>RuntimeManager\<close>, \<open>RuntimeManagerLaws\<close> (\<open>pkg/server/runtime_manager.go\<close>): the workers the manager keeps
    for the runnable agents; \<open>manager_ok\<close> says that a worker that was not cancelled is in its map.
  \<^item> \<open>Hosts\<close>, \<open>HostLaws\<close> (\<open>pkg/sh/interp/host_matcher.go\<close>, \<open>network.go\<close>, \<open>http.go\<close>, \<open>pkg/agent/agent.go\<close>): host
    matchers, the dialer that allows matching hosts only, the headers added to requests, and the hosts of an agent and
    its tools. \<open>confined_dialer\<close> says that a dialer acts as its base on allowed hosts and otherwise not at all.
  \<^item> \<open>Specs\<close>, \<open>SpecsLaws\<close>, \<open>SyncLaws\<close> (\<open>pkg/server/specs.go\<close>, \<open>network.go\<close>, \<open>http.go\<close>, \<open>sync_plan.go\<close>): agent
    specifications, their validation, and their synchronisation with the store. \<open>agent_settled\<close>,
    \<open>schedules_settled\<close> and \<open>namespace_settled\<close> say that the rows have the wanted columns; \<open>keeps\<close> is the frame
    of an operation on other agents.
  \<^item> \<open>SyncPlan\<close>, \<open>SyncPlanLaws\<close> (\<open>sync_plan.go\<close>, \<open>sync_plan_defaults.go\<close>, \<open>render.go\<close>): the plan, which compares
    what the specifications want with what the store holds.
  \<^item> \<open>Samples\<close>, \<open>FileSamples\<close>, \<open>RunSamples\<close>, \<open>SyncSamples\<close>: a concrete history, file system, output,
    manager, policy and specifications on which the operations are evaluated.

  The claim loop runs at most the eight rounds of the code; \<open>claim_loop_first\<close> shows that the first
  decides. A lookup follows at most the forty links of the code, and \<open>discard_tree\<close> gets the number of
  nodes as its depth, which no tree exceeds. The search for a fire time is a partial function, so a search that never ends is the value
  \<open>None\<close>. Polling, serving and turns are bounded by a number of rounds that the statements leave
  arbitrary.

  Not modelled: SQL and SQLite themselves, schema migrations, log and terminal output, the model
  drivers, tools that call external services, and the vendored shell; decoding YAML, mounts, tool
  configurations and action schemas, which specifications hold as arguments; regular expressions. SQLite transactions are taken to be
  atomic and serial.
\<close>

section \<open>The store\<close>

text \<open>
  C1: whatever sequence of store operations has run from an empty database, the tables satisfy the
  schema's constraints, every message that is not leased carries no lease, completion time and dead-letter
  reason agree with the status, and every agent's current prompt version exists. Every leased message has
  an expiry and a recorded run that names the message and its recipient, and no other leased message of
  its namespace has the same run. Whether that run is still open is not part of it: a completion may close
  the run of a message it does not settle.
\<close>

theorem reachable_consistent:
  assumes "reachable_store lib mkdir s"
  shows "store_ok s \<and> prompts_ok s \<and> (\<forall>m \<in> set (messages s). message_ok (runs s) m) \<and>
    (\<forall>m \<in> set (messages s). m_status m = Leased \<longrightarrow> m_lease_expires m \<noteq> None \<and>
       (\<exists>r \<in> set (runs s). r_key r = (m_namespace m, m_run m) \<and> r_message r = m_id m \<and> r_agent r = m_recipient m) \<and>
       (\<forall>x \<in> set (messages s). m_status x = Leased \<and> m_namespace x = m_namespace m \<and> m_run x = m_run m \<longrightarrow> x = m))"
proof -
  have ok: "store_ok s" "prompts_ok s" "\<And>m. m \<in> set (messages s) \<Longrightarrow> message_ok (runs s) m"
    using reachable_system_ok [OF assms] by (auto simp: system_ok_def mailbox_ok_def)
  show ?thesis using leased_runs [OF ok(1,3)] ok by blast
qed

theorem reachable_consistent_witness:
  "m_status leased_row = Leased \<and> (\<exists>r \<in> set (runs leased_store). r_key r = (''ops'', ''run-0'') \<and> r_message r = ''msg-1'')"
proof -
  have k: "m_namespace leased_row = ''ops''" "m_id leased_row = ''msg-1''" using leased_row_facts(4) by (simp_all add: m_key_def)
  from reachable_consistent [OF leased_reachable] leased_row_facts(1,2)
  have "\<exists>r \<in> set (runs leased_store). r_key r = (m_namespace leased_row, m_run leased_row) \<and> r_message r = m_id leased_row"
    by blast
  then show ?thesis using k leased_row_facts(2,6) by simp
qed

text \<open>
  C2: in every reachable database a message's attempt count is the number of runs recorded for it.
\<close>

theorem attempts_count_runs:
  assumes "reachable_store lib mkdir s" and "m \<in> set (messages s)"
  shows "m_attempts m = int (runs_of s (m_key m))"
  using reachable_history_ok [OF assms(1)] assms(2) by (simp add: history_ok_def)

theorem attempts_count_runs_witness:
  "m_attempts (hd (messages sample_store)) = int (runs_of sample_store (m_key (hd (messages sample_store))))"
  by (rule attempts_count_runs [OF sample_reachable]) code_simp

text \<open>
  C3: while a lease lasts the message belongs to its worker. From a consistent database with \<open>m\<close>
  leased until \<open>expiry\<close>, after any operations that neither settle \<open>m\<close>, nor delete its agent, nor claim at
  or after \<open>expiry\<close>, the row is still there unchanged, and a claim before \<open>expiry\<close> returns another
  message.
\<close>

theorem lease_exclusive:
  assumes "path (store_step lib mkdir) es s s1" and "system_ok s" and "m \<in> set (messages s)"
    and "m_status m = Leased" and "m_lease_expires m = Some expiry" and "\<forall>e \<in> set es. spares m expiry e"
    and "store_step lib mkdir (Claimed t (Some (m', r'))) s1 s2" and "to_millis t < expiry"
  shows "m \<in> set (messages s1) \<and> m_key m' \<noteq> m_key m"
proof -
  have "under_lease (m, expiry) s1"
    using lease.path_holds [OF assms(1,2), of "(m, expiry)"] assms(3-6) by (simp add: under_lease_def)
  then have m: "m \<in> set (messages s1)" by (simp add: under_lease_def)
  from claim_other_message [OF assms(7) store_sys.path_inv [OF assms(1,2)] m assms(4,5,8)] m show ?thesis by simp
qed

theorem lease_exclusive_witness:
  "leased_row \<in> set (messages leased_store) \<and> m_key (fst (projr (fst second_claim))) \<noteq> m_key leased_row"
proof -
  have "path (store_step sample_cron sample_mkdir) [] leased_store leased_store" by simp
  from lease_exclusive [OF this leased_system_ok leased_row_facts(1-3), of "sample_clock 6"] second_claimed
  show ?thesis by (metis list.set(1) empty_iff prod.collapse sample_clock_6)
qed

text \<open>
  C4: in a consistent database a successful claim takes, of the messages addressed to the agent that are due and are queued or have a
  lease that has run out, the one that has been available longest, and of equal ones one that was created first.
  It leases exactly that message to the worker with one more attempt, opens a new run for it, and leaves every
  other message alone.
\<close>

theorem claim_takes_oldest:
  assumes "system_ok s" and "claim_next_message p clock ids s = (Inr (m, r), s')"
  shows "\<exists>row \<in> set (messages s). m_key row = m_key m \<and>
    waits_for (cl_namespace p) (cl_agent p) (to_millis (clock 0)) row \<and>
    (\<forall>x \<in> set (messages s). waits_for (cl_namespace p) (cl_agent p) (to_millis (clock 0)) x \<longrightarrow>
       m_available row < m_available x \<or> m_available row = m_available x \<and> m_created row \<le> m_created x) \<and>
    (\<exists>row' \<in> set (messages s'). m_key row' = m_key m \<and> m_status row' = Leased \<and> m_run row' = r_id r \<and>
       m_lease_owner row' = default_string (cl_lease_owner p) (lease_owner_id s) \<and>
       m_attempts row' = m_attempts row + 1 \<and> m_attempts m = m_attempts row + 1 \<and>
       m_lease_expires row' = Some (to_millis (clock 0 + default_duration (cl_lease_duration p) (5 * minute)))) \<and>
    (\<forall>x \<in> set (messages s). m_key x \<noteq> m_key m \<longrightarrow> x \<in> set (messages s')) \<and>
    length (messages s') = length (messages s) \<and>
    (\<exists>r' \<in> set (runs s'). r_key r' = r_key r \<and> r_message r' = m_id m \<and> r_status r' = ''running'') \<and>
    r_key r \<notin> r_key ` set (runs s)"
proof -
  from assms(1) have "store_ok s" by auto
  then show ?thesis
    using assms(2)
  proof (rule claim_success)
    fix row lease run
    assume row: "row \<in> set (messages s)" and key: "m_key row = m_key m"
      and s': "messages s' = update_where (\<lambda>x. m_key x = m_key m) (\<lambda>_. lease) (messages s)"
        "runs s' = runs s @ [run]"
    have lease: "lease \<in> set (messages s')" unfolding s'(1) by (rule update_where_const(1) [OF row]) (rule key)
    have frame: "\<forall>x \<in> set (messages s). m_key x \<noteq> m_key m \<longrightarrow> x \<in> set (messages s')"
      "length (messages s') = length (messages s)" "run \<in> set (runs s')"
      unfolding s' by (auto intro: update_where_const(2))
    assume least: "\<And>x. x \<in> set (messages s) \<Longrightarrow> claimable (cl_namespace p) (cl_agent p) (to_millis (clock 0)) x \<Longrightarrow>
           claim_order row \<le> claim_order x"
    have "m_available row < m_available x \<or> m_available row = m_available x \<and> m_created row \<le> m_created x"
      if "x \<in> set (messages s)" "claimable (cl_namespace p) (cl_agent p) (to_millis (clock 0)) x" for x
      using least [OF that] by (auto simp: claim_order_def less_eq_prod_def)
    moreover assume "claimable (cl_namespace p) (cl_agent p) (to_millis (clock 0)) row"
      "m_attempts m = m_attempts row + 1" "m_key lease = m_key m" "m_status lease = Leased"
      "m_run lease = r_id r" "m_lease_owner lease = default_string (cl_lease_owner p) (lease_owner_id s)"
      "m_attempts lease = m_attempts row + 1"
      "m_lease_expires lease = Some (to_millis (clock 0 + default_duration (cl_lease_duration p) (5 * minute)))"
      "r_key run = r_key r" "r_message run = m_id m" "r_status run = ''running''"
      "r_key r \<notin> r_key ` set (runs s)"
    ultimately show ?thesis unfolding claimable_waits using frame key
      by (intro bexI [OF _ row] conjI bexI [OF _ lease] bexI [OF _ frame(3)]) simp_all
  qed
qed

theorem claim_takes_oldest_witness:
  "\<exists>row \<in> set (messages sample_store). m_key row = m_key (fst leased_pair)"
  using claim_takes_oldest [OF sample_system_ok, of "queue_claim_params sample_queue" "\<lambda>i. sample_clock (5 + i)"
      "sample_ids ''run''" "fst leased_pair" "snd leased_pair" leased_store]
    sample_claimed [unfolded sample_claim_def] by fastforce

text \<open>
  C5: in a consistent database a claim that fails changes nothing. A claim without a namespace or an agent is refused as invalid;
  any other says that no message is available exactly when no message addressed to the agent is due and is
  queued or has a lease that has run out.
\<close>

theorem claim_failure:
  assumes "system_ok s" and "claim_next_message p clock ids s = (Inl e, s')"
  shows "s' = s \<and>
    (if cl_namespace p = [] \<or> cl_agent p = [] then \<exists>why. e = ErrInvalid why
     else e = ErrNoAvailableMessage \<longleftrightarrow>
       (\<forall>m \<in> set (messages s). \<not> waits_for (cl_namespace p) (cl_agent p) (to_millis (clock 0)) m))"
proof (cases "cl_namespace p = [] \<or> cl_agent p = []")
  case True
  with assms(2) show ?thesis by (auto simp: claim_next_message_def)
next
  case False
  from assms have ok: "store_ok s" by auto
  from claim_next_message_eq [OF ok] False assms(2)
  have att: "claim_attempt p (clock 0) (ids 0) s = Inl e" and "s' = s"
    by (auto split: sum.splits)
  moreover have "e = ErrNoAvailableMessage \<longleftrightarrow>
      claim_candidate (cl_namespace p) (cl_agent p) (clock 0) s = None"
    using att by (auto simp: claim_attempt_def Let_def insert_run_def split: option.splits if_splits sum.splits)
  ultimately show ?thesis using False by (simp add: claim_candidate_None claimable_waits)
qed

theorem claim_failure_witness:
  "claim_next_message (queue_claim_params sample_queue) sample_clock (sample_ids ''run'') (empty_store ''x'') =
     (Inl ErrNoAvailableMessage, empty_store ''x'') \<and> messages (empty_store ''x'') = []"
proof -
  let ?q = "queue_claim_params sample_queue"
  have ne: "cl_namespace ?q \<noteq> []" "cl_agent ?q \<noteq> []" by (simp_all add: queue_claim_params_def sample_queue_def)
  from claim_empty_store have c: "claim_next_message ?q sample_clock (sample_ids ''run'') (empty_store ''x'') =
      (Inl ErrNoAvailableMessage, empty_store ''x'')" .
  from claim_failure [OF _ c] ne c show ?thesis by (simp add: empty_store_def)
qed

text \<open>
  C6: a run that completes settles its message in the same transaction: a dead-letter reason wins over a
  retry time, with neither the message is completed; the lease is cleared and the run carries the result's
  status. Each message of the outbox is added, in order and no other, as a queued message with its
  recipient, sender, payload and metadata; every other message is left alone.
\<close>

theorem complete_run_settled:
  assumes "complete_run now ids p s = (Inr (), s')" and "row \<in> set (messages s)"
    and "m_key row = (co_namespace p, co_message p)"
  shows "\<exists>old new. messages s' = old @ new \<and> list_all2 (enqueued_as now) (co_outbox p) new \<and>
    map m_key old = map m_key (messages s) \<and>
    (\<forall>x \<in> set (messages s). m_key x \<noteq> m_key row \<longrightarrow> x \<in> set old) \<and>
    (\<exists>row' \<in> set old. m_key row' = m_key row \<and> m_lease_owner row' = [] \<and>
      m_lease_expires row' = None \<and> m_run row' = [] \<and> m_attempts row' = m_attempts row \<and>
      m_last_error row' = co_error p \<and>
      (if co_dead_reason p \<noteq> [] then m_status row' = DeadLetter \<and> m_dead_reason row' = co_dead_reason p
       else case co_retry_at p of
         Some t \<Rightarrow> m_status row' = Queued \<and> m_available row' = to_millis t \<and> m_completed row' = None
       | None \<Rightarrow> m_status row' = Completed \<and> m_completed row' = Some (to_millis (co_finished p)))) \<and>
    (\<exists>r \<in> set (runs s'). r_key r = (co_namespace p, co_run p) \<and> r_status r = co_status p)"
  using assms(1)
proof (rule complete_run_tables)
  fix new
  let ?old = "update_where (\<lambda>m. m_key m = (co_namespace p, co_message p)) (settled_message p now) (messages s)"
  assume s': "messages s' = ?old @ new" "list_all2 (enqueued_as now) (co_outbox p) new"
  have m: "settled_message p now row \<in> set ?old"
    using assms(2,3) by (auto simp: set_update_where image_iff intro: bexI [of _ row])
  have "\<forall>x \<in> set (messages s). m_key x \<noteq> m_key row \<longrightarrow> x \<in> set ?old"
    using assms(3) by (auto intro: update_where_const(2))
  with s' settled_keys complete_run_run [OF assms(1)] show ?thesis
    by (intro exI [of _ ?old] exI [of _ new] conjI bexI [OF _ m])
      (auto simp: settled_message_def completion_columns_def m_key_def split: option.splits)
qed

text \<open>
  C7: a completion that fails, for whatever reason, changes nothing; and one message of the outbox to an
  agent that does not exist makes the whole completion fail.
\<close>

theorem outbox_all_or_nothing:
  "(\<forall>e s'. complete_run now ids p s = (Inl e, s') \<longrightarrow> s' = s) \<and>
   (\<forall>q \<in> set (co_outbox p). (cp_namespace q, cp_recipient q) \<notin> a_key ` set (agents s) \<longrightarrow>
      (\<exists>e. complete_run now ids p s = (Inl e, s)))"
proof (cases "complete_run now ids p s")
  case (Pair r s')
  then show ?thesis
  proof (cases rule: complete_run_cases)
    case (settled body)
    from enqueue_outbox_recipients [OF settled(8)] settled(1) Pair show ?thesis
      by (auto simp: settled_store_def)
  qed (use Pair in simp)
qed

theorem outbox_all_or_nothing_witness:
  "\<exists>e. complete_run (sample_clock 9) (sample_ids ''m'')
     (stale_completion\<lparr>co_outbox := [(sample_message GNil)\<lparr>cp_recipient := ''ghost''\<rparr>]\<rparr>) leased_store = (Inl e, leased_store)"
proof -
  let ?p = "stale_completion\<lparr>co_outbox := [(sample_message GNil)\<lparr>cp_recipient := ''ghost''\<rparr>]\<rparr>"
  have "(''ops'', ''ghost'') \<notin> a_key ` set (agents leased_store)" "cp_namespace (sample_message GNil) = ''ops''" by code_simp+
  then show ?thesis
    using outbox_all_or_nothing [of "sample_clock 9" "sample_ids ''m''" ?p leased_store] by simp
qed

theorem complete_run_settled_witness:
  "\<exists>row' \<in> set (messages (snd (complete_run (sample_clock 101) (sample_ids ''m'') stale_completion reclaimed_store))).
     m_key row' = m_key reclaimed_row \<and> m_status row' = Completed"
proof -
  have "complete_run (sample_clock 101) (sample_ids ''m'') stale_completion reclaimed_store =
      (Inr (), snd (complete_run (sample_clock 101) (sample_ids ''m'') stale_completion reclaimed_store))"
    by (metis prod.collapse stale_completes)
  from complete_run_settled [OF this reclaimed_facts(1)] reclaimed_facts(2) show ?thesis
    by (fastforce simp: stale_completion_def)
qed

text \<open>
  C8: completing a run does not check that the run still holds the message. A worker whose lease ran out
  settles a message that has meanwhile been leased to another run.
\<close>

theorem stale_run_settles:
  assumes "co_namespace p \<noteq> []" and "co_run p \<noteq> []" and "co_message p \<noteq> []" and "co_value p = GNil"
    and "co_outbox p = []" and "(co_namespace p, co_run p) \<in> r_key ` set (runs s)"
    and "row \<in> set (messages s)" and "m_key row = (co_namespace p, co_message p)"
    and "m_status row = Leased" and "m_run row \<noteq> co_run p"
  shows "\<exists>s'. complete_run now ids p s = (Inr (), s') \<and>
    (\<exists>row' \<in> set (messages s'). m_key row' = m_key row \<and> m_status row' \<noteq> Leased \<and> m_run row' = [])"
proof -
  have k: "(co_namespace p, co_message p) \<in> m_key ` set (messages s)" using assms(7,8) by (metis imageI)
  have v: "marshal_optional_envelope ''run_value'' (co_value p) = Some NoText"
    using assms(4) by (simp add: marshal_optional_envelope_def)
  note fin = complete_run_runs [OF assms(1-3,5) v assms(6) k, of now ids]
  have "m_status (settled_message p now row) \<noteq> Leased"
    by (auto simp: settled_message_def completion_columns_def split: option.splits)
  with fin complete_run_settles [OF fin assms(7,8)] show ?thesis
    by (intro exI conjI bexI [of _ "settled_message p now row"]) simp_all
qed

theorem stale_run_settles_witness:
  "\<exists>s'. complete_run (sample_clock 101) (sample_ids ''m'') stale_completion reclaimed_store = (Inr (), s')"
proof -
  have p: "co_namespace stale_completion = ''ops''" "co_run stale_completion = ''run-0''"
    "co_message stale_completion = ''msg-1''" "co_value stale_completion = GNil" "co_outbox stale_completion = []"
    by (simp_all add: stale_completion_def)
  show ?thesis
    using stale_run_settles [of stale_completion reclaimed_store reclaimed_row] reclaimed_facts p by fastforce
qed

text \<open>
  C9: a claim makes progress: when some message of the agent is claimable, every claimable payload
  renders and the new run identifier is fresh, the claim succeeds. No attempt limit takes part.
\<close>

theorem claim_progress:
  assumes "system_ok s" and "cl_namespace p \<noteq> []" and "cl_agent p \<noteq> []" and "x \<in> set (messages s)"
    and "claimable (cl_namespace p) (cl_agent p) (to_millis (clock 0)) x"
    and "\<forall>m \<in> set (messages s). claimable (cl_namespace p) (cl_agent p) (to_millis (clock 0)) m \<longrightarrow>
      render_run_trigger_prompt (m_payload m) \<noteq> None"
    and "(cl_namespace p, ids 0) \<notin> r_key ` set (runs s)"
  shows "\<exists>m r s'. claim_next_message p clock ids s = (Inr (m, r), s')"
  using assms by (intro claim_progress_row [where x = x]) auto

theorem claim_progress_witness:
  "\<exists>m r s'. claim_next_message (queue_claim_params sample_queue) (\<lambda>i. sample_clock (5 + i)) (sample_ids ''run'')
     sample_store = (Inr (m, r), s')"
proof (rule claim_progress [OF sample_system_ok])
  let ?q = "queue_claim_params sample_queue" and ?x = "hd (messages sample_store)"
  show "cl_namespace ?q \<noteq> []" "cl_agent ?q \<noteq> []" by code_simp+
  show "?x \<in> set (messages sample_store)"
    "claimable (cl_namespace ?q) (cl_agent ?q) (to_millis (sample_clock (5 + 0))) ?x"
    "\<forall>m \<in> set (messages sample_store). claimable (cl_namespace ?q) (cl_agent ?q) (to_millis (sample_clock (5 + 0))) m \<longrightarrow>
      render_run_trigger_prompt (m_payload m) \<noteq> None"
    "(cl_namespace ?q, sample_ids ''run'' 0) \<notin> r_key ` set (runs sample_store)"
    by code_simp+
qed

section \<open>Schedules\<close>

text \<open>
  C10: in a consistent database whose due schedules fit the batch and whose expressions have a next activation
  at every time from the due one until the present, as the cron library documents it for every expression that
  fires at all, a round of the scheduler that returns without an error leaves nothing due: it adds exactly one
  queued message for each due schedule and no other, to the schedule's agent and namespace, with the schedule's
  payload, its identifier and the time it was due.
\<close>

theorem fire_once_drains:
  assumes "\<forall>r \<in> set (schedules s). is_due now r \<longrightarrow> cron_live lib now (scan_schedule r)" and "system_ok s"
    and "fire_once lib now ids batch s = Some (Inr ms, s')"
    and "length (filter (is_due now) (schedules s)) \<le> nat (if batch \<le> 0 then 32 else batch)"
  shows "(\<forall>c \<in> set (schedules s'). \<not> is_due now c) \<and>
    (\<exists>rs new. distinct rs \<and> set rs = {r \<in> set (schedules s). is_due now r} \<and>
       messages s' = messages s @ new \<and> list_all2 (fired_as now) rs new \<and> map m_key ms = map m_key new)"
proof -
  have ok: "mailbox_ok s" "store_ok s" using assms(2) by auto
  let ?b = "if batch \<le> 0 then 32 else batch"
  have fits: "length (filter (is_due now) (schedules s)) \<le> nat (if ?b \<le> 0 then 32 else ?b)"
    using assms(4) by (simp split: if_splits)
  obtain rs where rs: "due_schedules now ?b s = map scan_schedule rs" "distinct (map s_key rs)"
    and all: "set rs = {r \<in> set (schedules s). is_due now r}"
    by (rule due_schedules_all [OF ok(2) fits])
  from assms(3) have fire: "fire_all lib now ids 0 (map scan_schedule rs) s = Some (Inr ms, s')"
    by (simp only: fire_once_all rs(1))
  have "set rs \<subseteq> set (schedules s)" "\<forall>r \<in> set rs. is_due now r \<and> cron_live lib now (scan_schedule r)"
    using all assms(1) by auto
  note F = fire_all_due [OF ok(1) this(1) rs(2) this(2) fire]
  then obtain new where new: "messages s' = messages s @ new" "list_all2 (fired_as now) rs new" "map m_key ms = map m_key new"
    by blast
  have "distinct rs" using rs(2) by (simp add: distinct_map)
  moreover have "\<forall>c \<in> set (schedules s'). \<not> is_due now c" using F all by blast
  ultimately show ?thesis using all new by blast
qed

theorem fire_once_drains_witness:
  "\<exists>new. messages (snd fired_pair) = messages sample_store @ new \<and>
     length new = length (filter (is_due (sample_clock 70)) (schedules sample_store)) \<and> (\<forall>m \<in> set new. m_status m = Queued)"
proof -
  have fits: "length (filter (is_due (sample_clock 70)) (schedules sample_store)) \<le> nat (if (0::int) \<le> 0 then 32 else 0)"
    by code_simp
  have live: "\<forall>r \<in> set (schedules sample_store). is_due (sample_clock 70) r \<longrightarrow> cron_live sample_cron (sample_clock 70) (scan_schedule r)"
    by (simp add: sample_cron_live)
  have due: "distinct (filter (is_due (sample_clock 70)) (schedules sample_store))" by code_simp
  from fire_once_drains [OF live sample_system_ok sample_fires fits] obtain rs new where
    d: "distinct rs" "set rs = {r \<in> set (schedules sample_store). is_due (sample_clock 70) r}"
    and n: "messages (snd fired_pair) = messages sample_store @ new" "list_all2 (fired_as (sample_clock 70)) rs new" by blast
  have "length rs = length (filter (is_due (sample_clock 70)) (schedules sample_store))"
    using distinct_card [OF d(1)] distinct_card [OF due] d(2) by simp
  moreover have "\<forall>m \<in> set new. m_status m = Queued" using list_all2_right [OF n(2)] by (auto simp: fired_as_def)
  ultimately show ?thesis using n list_all2_lengthD [OF n(2)] by auto
qed

text \<open>
  C11: a round of the scheduler ends, in any database whose due schedules have expressions with a next
  activation.
\<close>

theorem fire_once_returns:
  assumes "\<forall>r \<in> set (schedules s). is_due now r \<longrightarrow> cron_live lib now (scan_schedule r)"
  shows "\<exists>r s'. fire_once lib now ids batch s = Some (r, s')"
  unfolding fire_once_def fire_due_schedules_def by (rule fire_all_returns [OF due_schedules_live [OF assms]])

theorem fire_once_returns_witness:
  "\<exists>r s'. fire_once sample_cron (sample_clock 70) (sample_ids ''fire'') 0 sample_store = Some (r, s')"
  by (rule fire_once_returns) (simp add: sample_cron_live)

text \<open>
  C12: the guard by the old fire time makes firing idempotent: once a schedule read at some time has
  fired, firing the same reading again (by another scheduler, at any later time) enqueues nothing and
  changes nothing. The schedule's expression has to have a next activation, so that its fire time moves.
\<close>

theorem fire_is_once:
  assumes "cron_live lib now c" and "fire_schedule lib now tid mid c s = Some (Inr (Some m), s')"
    and "fire_schedule lib now' tid' mid' c s' = Some (r, s2)"
  shows "s2 = s' \<and> (\<forall>x. r \<noteq> Inr (Some x))"
  by (rule fire_again [OF assms(2,1,3)])

theorem fire_is_once_witness:
  "snd (the (fire_schedule sample_cron (sample_clock 71) ''t2'' ''m2'' sample_reading (snd (the sample_firing)))) =
     snd (the sample_firing)"
proof -
  obtain r s2 where two: "fire_schedule sample_cron (sample_clock 71) ''t2'' ''m2'' sample_reading (snd (the sample_firing))
      = Some (r, s2)"
    using fire_schedule_returns [OF sample_cron_live] by blast
  from fire_is_once [OF sample_cron_live sample_fired this] two show ?thesis by simp
qed

text \<open>
  C13: a cron expression that has no activation after the present time hangs the scheduler: the search
  for the next fire time never returns.
\<close>

theorem fire_hangs_without_activation:
  assumes "s_next c = Some due" and "load_schedule_location lib (s_zone c) = Some zone"
    and "cron_parse lib (s_cron c) = Some nxt" and "\<forall>u \<le> now. nxt zone u \<le> now" and "due \<le> now"
  shows "fire_schedule lib now tid mid c s = None"
  using fire_stuck [OF assms(1-3) _ assms(5)] assms(4) by blast

theorem fire_hangs_without_activation_witness:
  "fire_schedule (sample_cron\<lparr>cron_parse := (\<lambda>e. Some (\<lambda>_ _. zero_time))\<rparr>) (sample_clock 70) ''t'' ''m'' sample_reading
     sample_store = None"
  by (rule fire_hangs_without_activation [OF sample_reading_facts(1), of _ "''UTC''" "\<lambda>_ _. zero_time"])
    (use sample_reading_facts(2-4) in \<open>simp_all add: load_schedule_location_def sample_cron_def\<close>)

section \<open>Agents and prompts\<close>

text \<open>
  C14: reconciling is idempotent: when putting an agent has succeeded, putting the same parameters again
  (durations in whole milliseconds, an explicit agent id) reports neither a creation nor an update and
  leaves the database as it is.
\<close>

theorem put_agent_idempotent:
  assumes "system_ok s" and "put_agent mkdir now ga gp p s = (Inr x, s')" and "whole_millis p"
    and "\<not> blank (ca_agent p)" and "\<not> blank gp"
  shows "\<exists>a. put_agent mkdir now' ga' gp' p s' = (Inr \<lparr>put_value = a, put_created = False, put_updated = False\<rparr>, s')"
  by (rule put_agent_again [OF assms])

theorem put_agent_idempotent_witness:
  "\<exists>a. put_agent sample_mkdir (sample_clock 20) ''a2'' ''p2'' sample_agent (snd sample_put) =
     (Inr \<lparr>put_value = a, put_created = False, put_updated = False\<rparr>, snd sample_put)"
  by (rule put_agent_idempotent [OF sample_system_ok sample_puts]) code_simp+

text \<open>
  A new prompt gets a version above every earlier version of the agent and becomes what the agent
  reads back; no earlier version is lost.
\<close>

theorem prompt_versions_grow:
  assumes "system_ok s" and "update_agent_prompt now gp ns ag prompt schema s = (Inr r, s')"
  shows "(\<forall>x \<in> set (prompts s). p_namespace x = ns \<and> p_agent x = ag \<longrightarrow> p_version x < p_version r) \<and>
    set (prompts s) \<subseteq> set (prompts s') \<and>
    (\<exists>a. get_agent ns ag s' = Inr a \<and> ra_prompt a = trim_space prompt)"
  using update_prompt_effect [OF assms] next_prompt_version_above by auto

theorem prompt_versions_grow_witness:
  "\<exists>a. get_agent ''ops'' ''scout'' (snd sample_reprompt) = Inr a \<and> ra_prompt a = trim_space ''Be brief.''"
  using prompt_versions_grow [OF sample_system_ok sample_reprompts] by simp

text \<open>
  Deleting an agent removes it with everything that refers to it and nothing else: its messages,
  schedules, prompt versions and runs go, the messages and schedules of other agents stay.
\<close>

theorem delete_agent_cascades:
  assumes "system_ok s" and "delete_agent ns ag s = (Inr (), s')"
  shows "(ns, ag) \<notin> a_key ` set (agents s') \<and>
    set (messages s') = {m \<in> set (messages s). m_agent m \<noteq> (ns, ag)} \<and>
    set (schedules s') = {c \<in> set (schedules s). s_owner c \<noteq> (ns, ag)} \<and>
    set (prompts s') = {r \<in> set (prompts s). p_owner r \<noteq> (ns, ag)} \<and>
    (\<forall>r \<in> set (runs s'). r_agent_key r \<noteq> (ns, ag)) \<and> system_ok s'"
  using delete_agent_effect [OF assms(2)] delete_agent_ok [OF assms] by blast

theorem delete_agent_cascades_witness:
  "messages leased_store \<noteq> [] \<and> set (messages (snd (delete_agent ''ops'' ''scout'' leased_store))) =
     {m \<in> set (messages leased_store). m_agent m \<noteq> (''ops'', ''scout'')}"
proof -
  have "fst (delete_agent ''ops'' ''scout'' leased_store) = Inr ()" by code_simp
  then have "delete_agent ''ops'' ''scout'' leased_store = (Inr (), snd (delete_agent ''ops'' ''scout'' leased_store))"
    by (metis prod.collapse)
  from delete_agent_cascades [OF leased_system_ok this] leased_row_facts(1) show ?thesis by auto
qed

section \<open>From the mailbox to the agent and back\<close>

text \<open>
  When the sender attached none of the server's metadata keys, the trigger made from a claimed
  message carries exactly the identifiers of that message and of the run the claim opened.
\<close>

theorem trigger_identifies_run:
  assumes "system_ok s" and "claim_next_message (queue_claim_params q) clock ids s = (Inr (m, r), s')"
    and "honest (m_metadata m)" and "q_namespace q \<noteq> []" "q_agent q \<noteq> []" "m_id m \<noteq> []" "r_id r \<noteq> []"
  shows "\<exists>tg. claim_trigger q m r = Inr tg \<and>
    trigger_context_from_metadata (tg_metadata tg) =
      Inr \<lparr>tc_namespace = q_namespace q, tc_agent = q_agent q, tc_message = m_id m, tc_thread = m_thread m,
           tc_run = r_id r, tc_sender = m_sender m\<rparr>"
proof -
  have "store_ok s" using assms(1) by auto
  then obtain tg where tg: "claim_trigger q m r = Inr tg" using assms(2) by (rule claim_trigger_Inr)
  with honest_context(1) [OF assms(3) tg assms(4-7)] show ?thesis by (simp add: claim_context_def)
qed

theorem trigger_identifies_run_witness:
  "\<exists>tg. claim_trigger sample_queue (fst leased_pair) (snd leased_pair) = Inr tg"
proof -
  have "claim_next_message (queue_claim_params sample_queue) (\<lambda>i. sample_clock (5 + i)) (sample_ids ''run'')
      sample_store = (Inr (fst leased_pair, snd leased_pair), leased_store)"
    using sample_claimed by (simp add: sample_claim_def)
  moreover have "honest (m_metadata (fst leased_pair))"
    by (simp add: sample_trigger_facts honest_def sender_metadata_def)
  moreover have "q_namespace sample_queue \<noteq> []" "q_agent sample_queue \<noteq> []"
    by (simp_all add: sample_queue_def)
  ultimately show ?thesis
    using trigger_identifies_run [OF sample_system_ok, of sample_queue "\<lambda>i. sample_clock (5 + i)" "sample_ids ''run''"
        "fst leased_pair" "snd leased_pair" leased_store] sample_trigger_facts(2,3) by fastforce
qed

text \<open>
  C15: the sender's metadata wins over the server's: whatever value of whatever type a sender attaches under
  one of the server's own keys (the namespace, the agent, the message, the thread, the run, the sender, the
  attempt count, the limit) is what the trigger carries and what the server reads from it; under a key the
  sender leaves alone it reads its own value.
\<close>

theorem sender_overrides_server:
  assumes "claim_trigger q m r = Inr tg" and "decode_envelope_any (m_metadata m) = Some (GMap kvs)" and "k \<in> server_keys"
  shows "\<exists>md. tg_metadata tg = Some md \<and>
    (case map_of (rev kvs) k of
       Some v \<Rightarrow> md k = Some v \<and> metadata_string md k = (case v of GStr x \<Rightarrow> x | _ \<Rightarrow> []) \<and>
         metadata_int md k = metadata_int [k \<mapsto> v] k \<and>
         (\<forall>ctx. trigger_context_from_metadata (tg_metadata tg) = Inr ctx \<longrightarrow>
            (\<forall>x. v = GStr x \<longrightarrow> (k = md_run \<longrightarrow> tc_run ctx = x) \<and> (k = md_message \<longrightarrow> tc_message ctx = x) \<and>
               (k = md_namespace \<longrightarrow> tc_namespace ctx = x) \<and> (k = md_agent \<longrightarrow> tc_agent ctx = x) \<and>
               (k = md_thread \<longrightarrow> tc_thread ctx = x) \<and> (k = md_sender \<longrightarrow> tc_sender ctx = x)))
     | None \<Rightarrow> md k = server_metadata q m r k)"
proof -
  let ?md = "server_metadata q m r ++ map_of (rev kvs)"
  have md: "tg_metadata tg = Some ?md"
    using assms(1,2) by (auto simp: claim_trigger_def sender_metadata_def split: option.splits)
  show ?thesis
  proof (cases "map_of (rev kvs) k")
    case None
    then have "?md k = server_metadata q m r k" by (simp add: map_add_def)
    with md None show ?thesis by simp
  next
    case (Some v)
    then have v: "?md k = Some v" by (simp add: map_add_def)
    then have "metadata_string ?md k = (case v of GStr x \<Rightarrow> x | _ \<Rightarrow> [])" "metadata_int ?md k = metadata_int [k \<mapsto> v] k"
      by (simp_all add: metadata_string_def metadata_int_def)
    moreover from this(1) have "(k = md_run \<longrightarrow> tc_run ctx = x) \<and> (k = md_message \<longrightarrow> tc_message ctx = x) \<and>
        (k = md_namespace \<longrightarrow> tc_namespace ctx = x) \<and> (k = md_agent \<longrightarrow> tc_agent ctx = x) \<and>
        (k = md_thread \<longrightarrow> tc_thread ctx = x) \<and> (k = md_sender \<longrightarrow> tc_sender ctx = x)"
      if "trigger_context_from_metadata (tg_metadata tg) = Inr ctx" "v = GStr x" for ctx x
      using that by (auto simp: md trigger_context_from_metadata_def Let_def split: if_splits)
    ultimately show ?thesis using md Some v by auto
  qed
qed

theorem sender_overrides_server_witness:
  "metadata_string (the (tg_metadata (projr (claim_trigger sample_queue forged_message (snd leased_pair))))) md_run = ''run-9''"
proof -
  obtain tg where tg: "claim_trigger sample_queue forged_message (snd leased_pair) = Inr tg"
    by (simp add: claim_trigger_def forged_message_def leased_pair_code envelope_version_def)
  have kvs: "decode_envelope_any (m_metadata forged_message) = Some (GMap [(md_run, GStr ''run-9'')])"
    by (simp add: forged_message_def envelope_version_def)
  from sender_overrides_server [OF tg kvs server_keys_in(5)] tg show ?thesis by auto
qed

text \<open>
  C16: what becomes of a message that was claimed, whose sender set none of the server's keys and whose run
  failed; the namespace, the agent, the message and the run have identifiers. When the result's value can be
  encoded and what it has as an outbox is well formed, handling the result queues the message again after the
  retry delay, unless the claimed message had a positive limit that its attempts had reached: then it is a dead
  letter. A limit that is not positive never ends the retries. Nothing of the outbox is sent. Otherwise handling
  fails and nothing is stored, so that the message stays leased until its lease runs out.
\<close>

theorem failed_run_retries_or_dies:
  assumes "honest (m_metadata m)" and "claim_trigger q m r = Inr (rs_trigger res)"
    and "q_namespace q \<noteq> []" "q_agent q \<noteq> []" "m_id m \<noteq> []" "r_id r \<noteq> []"
    and "row \<in> set (messages s)" and "m_key row = (q_namespace q, m_id m)"
    and "(q_namespace q, r_id r) \<in> r_key ` set (runs s)" and "rs_status res \<noteq> Finished"
  shows "case extract_outbox (rs_value res) (claim_context q m r) of
      Inl e \<Rightarrow> handle_result p now now' ids res s = (Inl e, s)
    | Inr outbox \<Rightarrow> \<exists>s'. handle_result p now now' ids res s = (Inr (), s') \<and>
        length (messages s') = length (messages s) \<and>
        (\<exists>row' \<in> set (messages s'). m_key row' = m_key row \<and>
          (if 0 < m_max_attempts m \<and> m_max_attempts m \<le> m_attempts m then m_status row' = DeadLetter
           else m_status row' = Queued \<and>
             m_available row' = to_millis (now + (if rp_retry_delay p \<le> 0 then 30 * second else rp_retry_delay p))))"
proof (cases "extract_outbox (rs_value res) (claim_context q m r)")
  case (Inl e)
  with honest_context(1) [OF assms(1,2,3-6)] show ?thesis by (simp add: handle_result_def)
next
  case (Inr outbox)
  note ctx = honest_context [OF assms(1,2,3-6)]
  from assms(8) have key: "m_key row = (tc_namespace (claim_context q m r), tc_message (claim_context q m r))"
    and run: "(tc_namespace (claim_context q m r), tc_run (claim_context q m r)) \<in> r_key ` set (runs s)"
    using assms(9) by (simp_all add: claim_context_def)
  let ?row' = "settled_message (complete_params_of (claim_context q m r) res
    (settle_failure p now res (the (tg_metadata (rs_trigger res)))) []) now' row"
  have "m_key ?row' = m_key row \<and>
      (if 0 < m_max_attempts m \<and> m_max_attempts m \<le> m_attempts m then m_status ?row' = DeadLetter
       else m_status ?row' = Queued \<and>
         m_available ?row' = to_millis (now + (if rp_retry_delay p \<le> 0 then 30 * second else rp_retry_delay p)))"
    using assms(10) by (simp add: ctx(2) settled_message_def completion_columns_def m_key_def)
  moreover obtain s' where "handle_result p now now' ids res s = (Inr (), s')" "length (messages s') = length (messages s)"
    "?row' \<in> set (messages s')"
    using handle_failure [OF ctx(1) assms(7) key run assms(10) Inr] by blast
  ultimately show ?thesis unfolding Inr sum.case by blast
qed

theorem failed_run_retries_or_dies_witness:
  "\<exists>s'. handle_result \<lparr>rp_retry_delay = 0, rp_allow_message_send = False\<rparr> (sample_clock 6) (sample_clock 6)
     (sample_ids ''x'') failed_result leased_store = (Inr (), s')"
proof -
  have "honest (m_metadata (fst leased_pair))"
    by (simp add: sample_trigger_facts honest_def sender_metadata_def)
  moreover have "claim_trigger sample_queue (fst leased_pair) (snd leased_pair) = Inr (rs_trigger failed_result)"
    using sample_trigger by (simp add: failed_result_def)
  moreover have "q_namespace sample_queue = ''ops''" "q_agent sample_queue = ''scout''"
    by (simp_all add: sample_queue_def)
  moreover have "rs_status failed_result \<noteq> Finished" "extract_outbox (rs_value failed_result) ctx = Inr []" for ctx
    by (simp_all add: failed_result_def extract_outbox_def)
  ultimately show ?thesis
    using failed_run_retries_or_dies [of "fst leased_pair" sample_queue "snd leased_pair" failed_result leased_row leased_store]
      leased_row_facts sample_trigger_facts by fastforce
qed

text \<open>
  C17: an agent without the capability to send messages cannot: a finished result with an outbox is
  refused and nothing is stored. The message then stays leased until its lease runs out.
\<close>

theorem outbox_needs_capability:
  assumes "trigger_context_from_metadata (tg_metadata (rs_trigger res)) = Inr ctx"
    and "extract_outbox (rs_value res) ctx = Inr outbox" and "outbox \<noteq> []" and "rs_status res = Finished"
    and "\<not> rp_allow_message_send p"
  shows "handle_result p now now' ids res s = (Inl OutboxDenied, s)"
  using assms by (simp add: handle_result_def Let_def)

theorem outbox_needs_capability_witness:
  "handle_result \<lparr>rp_retry_delay = 0, rp_allow_message_send = False\<rparr> (sample_clock 6) (sample_clock 6)
     (sample_ids ''x'') sending_result leased_store = (Inl OutboxDenied, leased_store)"
  by (rule outbox_needs_capability [OF sending_facts]) (simp_all add: sending_result_def)

text \<open>
  C18: a result speaks for its agent only. When a result is handled for a claimed message whose sender set none
  of the server's keys (the namespace, the agent, the message and the run have identifiers), every message this
  adds to the mailbox is a queued message in the agent's own namespace, under the agent's own name, to a named
  agent that exists; and only for a finished run of an agent that may send it adds any. C15 shows why the sender
  must have set none of the keys.
\<close>

theorem outbox_sender_is_agent:
  assumes "honest (m_metadata m)" and "claim_trigger q m r = Inr (rs_trigger res)"
    and "q_namespace q \<noteq> []" "q_agent q \<noteq> []" "m_id m \<noteq> []" "r_id r \<noteq> []"
    and "handle_result p now now' ids res s = (Inr (), s')"
  shows "\<exists>old new. messages s' = old @ new \<and> map m_key old = map m_key (messages s) \<and>
    (new \<noteq> [] \<longrightarrow> rs_status res = Finished \<and> rp_allow_message_send p) \<and>
    (\<forall>x \<in> set new. m_namespace x = q_namespace q \<and> m_sender x = q_agent q \<and> m_status x = Queued \<and>
       m_recipient x \<noteq> [] \<and> (m_namespace x, m_recipient x) \<in> a_key ` set (agents s))"
  using handle_result_adds [OF honest_context(1) [OF assms(1,2,3-6)] assms(7)] by (simp add: claim_context_def)

theorem outbox_sender_is_agent_witness:
  "m_sender (last (messages sent_store)) = ''scout'' \<and> m_key (last (messages sent_store)) = (''ops'', ''sent-0'')"
proof -
  have h: "honest (m_metadata (fst leased_pair))"
    by (simp add: sample_trigger_facts honest_def sender_metadata_def)
  have t: "claim_trigger sample_queue (fst leased_pair) (snd leased_pair) = Inr (rs_trigger sending_result)"
    using sample_trigger by (simp add: sending_result_def failed_result_def)
  have q: "q_namespace sample_queue = ''ops''" "q_agent sample_queue = ''scout''" by (simp_all add: sample_queue_def)
  have ne: "q_namespace sample_queue \<noteq> []" "q_agent sample_queue \<noteq> []" "m_id (fst leased_pair) \<noteq> []" "r_id (snd leased_pair) \<noteq> []"
    using sample_trigger_facts(2,3) by (simp_all add: sample_queue_def)
  obtain old new where n: "messages sent_store = old @ new" "map m_key old = map m_key (messages leased_store)"
      "\<forall>x \<in> set new. m_sender x = ''scout''"
    using outbox_sender_is_agent [OF h t ne sample_sends, unfolded q] by blast
  have len: "length (messages sent_store) = 3" "length (messages leased_store) = 2"
    using sent_messages [THEN arg_cong [of _ _ length]] by simp_all
  have new: "new \<noteq> []"
  proof
    assume "new = []"
    then have "length (messages sent_store) = length (map m_key old)" using n(1) by simp
    then show False unfolding n(2) using len by simp
  qed
  have "messages sent_store \<noteq> []" using len(1) by auto
  then have "m_key (last (messages sent_store)) = last (map m_key (messages sent_store))" by (rule last_map [symmetric])
  then have "m_key (last (messages sent_store)) = (''ops'', ''sent-0'')" unfolding sent_messages(2) by simp
  with n(1,3) new show ?thesis by simp
qed

section \<open>The agent loop\<close>

text \<open>
  C19: a turn runs at most the configured number of steps; it reports that limit only after using all
  of them, never returns an error for a finished turn, and returns an error only when it was canceled or
  failed fatally.
\<close>

theorem turn_is_bounded:
  assumes "run_turn rt tg next_index reset c w = (res, err, w')"
  shows "length (rs_steps res) \<le> rt_max_steps rt \<and>
    (rs_status res \<noteq> MaxSteps \<or> length (rs_steps res) = rt_max_steps rt) \<and>
    (rs_status res \<noteq> Finished \<or> err = None) \<and> (err = None \<or> rs_status res \<in> {Canceled, FatalError})"
  using run_turn_shape [OF assms] by blast

theorem turn_is_bounded_witness:
  "length (rs_steps (fst sample_turn)) \<le> 5"
  using turn_is_bounded [OF sample_turn_eq] by (simp add: sample_runtime_def)

text \<open>
  The steps of a turn are numbered without gaps from the index the turn was given, for tools that
  leave the number of their step alone.
\<close>

theorem steps_numbered:
  assumes "run_turn rt tg next_index reset c w = (res, err, w')" and "tools_keep st_index rt" and "0 < next_index"
  shows "map st_index (rs_steps res) = map int [next_index ..< next_index + length (rs_steps res)]"
  by (rule run_turn_indices [OF assms])

theorem steps_numbered_witness:
  "map st_index (rs_steps (fst sample_turn)) = map int [1 ..< 1 + length (rs_steps (fst sample_turn))]"
  by (rule steps_numbered [OF sample_turn_eq sample_tools_keep(1)]) simp

text \<open>
  C20: over a whole session, however its turns end, no two replayed steps have the same call id, for tools
  that leave the number of their step alone.
\<close>

theorem session_call_ids_distinct:
  assumes "tools_keep st_index rt"
  shows "distinct (map step_call_id (session_steps (fst (run_session rt preserve h tgs new_session w))))"
  by (rule session_call_ids [OF run_session_ok [OF assms new_session_ok]])

theorem session_call_ids_distinct_witness:
  "distinct (map step_call_id (session_steps (fst
     (run_session sample_runtime True (\<lambda>_ w. (None, w)) [sample_trigger, sample_trigger] new_session 0))))"
  by (rule session_call_ids_distinct [OF sample_tools_keep(1)])

text \<open>
  C21: no recorded step says when it finished. The function that would set the finishing time and the
  duration runs after the step has been copied into the result, so with tools that leave the two fields
  alone every step of every turn has the zero time and a zero duration.
\<close>

theorem step_times_lost:
  assumes "run_turn rt tg next_index reset c w = (res, err, w')"
    and "tools_keep st_finished rt" and "tools_keep st_duration rt"
  shows "\<forall>st \<in> set (rs_steps res). st_finished st = zero_time \<and> st_duration st = 0"
proof -
  have "\<forall>k < length (rs_steps res). st_finished (rs_steps res ! k) = zero_time \<and> st_duration (rs_steps res ! k) = 0"
    by (rule run_turn_steps [OF assms(1)])
      (auto dest: run_tool_step_keeps [OF assms(2) outcome_free_fields(2)]
        run_tool_step_keeps [OF assms(3) outcome_free_fields(3)] simp: new_step_def)
  then show ?thesis by (metis in_set_conv_nth)
qed

theorem step_times_lost_witness:
  "st_finished (hd (rs_steps (fst sample_turn))) = zero_time \<and> st_duration (hd (rs_steps (fst sample_turn))) = 0"
proof -
  have "hd (rs_steps (fst sample_turn)) \<in> set (rs_steps (fst sample_turn))"
    using sample_turn_steps by (intro hd_in_set) auto
  with step_times_lost [OF sample_turn_eq sample_tools_keep(2,3)] show ?thesis by blast
qed

text \<open>
  Asking for one decision calls the driver at least once and at most four times, whatever the driver
  does; the world of the driver is paired with a counter of its calls.
\<close>

theorem driver_retries_bounded:
  assumes "next_decision (count_driver ctx drv rt) rq max_driver_retries (w, k) = (r, (w', k'))"
  shows "k < k' \<and> k' \<le> k + 4"
  using next_decision_calls [OF assms] by (simp add: max_driver_retries_def)

theorem driver_retries_bounded_witness:
  "snd (snd slow_decision) \<le> 4"
  using driver_retries_bounded [OF slow_decision_eq] by simp

section \<open>Patches\<close>

text \<open>
  C22: the patch format round-trips: rendering well-formed operations (paths without surrounding white
  space, hunks with at least one line of context, insertion or deletion) and parsing the text gives the
  operations back.
\<close>

theorem patch_round_trip:
  assumes "\<forall>x \<in> set ops. op_wf x"
  shows "parse_apply_patch (render_patch ops) = Inr ops"
  by (rule parse_render [OF assms])

theorem patch_round_trip_witness:
  "parse_apply_patch (render_patch sample_patch) = Inr sample_patch"
  by (rule patch_round_trip [OF sample_patch_wf])

text \<open>
  C23: applying hunks only ever replaces, hunk by hunk in their order, one occurrence of a hunk's old
  lines (context and deletions) by its new lines (context and insertions).
\<close>

theorem hunks_replace_occurrences:
  assumes "apply_patch_hunks ls hunks = Some ls'"
  shows "hunks_replaced ls hunks ls'"
  using assms unfolding apply_patch_hunks_def by (rule apply_hunks_sound)

theorem hunks_replace_occurrences_witness:
  "hunks_replaced [''x'', ''a'', ''b''] [sample_hunk] [''x'', ''a'', ''c'']"
  by (rule hunks_replace_occurrences) code_simp

text \<open>A patch of one hunk applies whenever the hunk's old lines occur in the file.\<close>

theorem hunk_found:
  assumes "ls = pre @ patch_hunk_old h @ post"
  shows "\<exists>ls'. apply_patch_hunks ls [h] = Some ls'"
  by (rule apply_one_hunk_complete [OF assms])

theorem hunk_found_witness:
  "\<exists>ls'. apply_patch_hunks [''x'', ''a'', ''b'', ''y''] [sample_hunk] = Some ls'"
  by (rule hunk_found [of _ "[''x'']" _ "[''y'']"]) code_simp

section \<open>The in-memory file system\<close>

text \<open>
  C24: whatever operations were called on a new file system, in any order and with any arguments, its
  tree is well formed: entries have proper, distinct names and point to nodes that exist, never to the
  root; only directories have entries; and a directory is reached by one path only.
\<close>

theorem memfs_tree_ok:
  assumes "clean_root s = Some base" "fs_reachable (new_memfs base uid gid now) f"
  shows "fs_ok f \<and> (\<forall>ps qs i. plain_walk f root_ino ps = Some i \<and> plain_walk f root_ino qs = Some i \<and>
           nd_kind (node_of f i) = NodeDirectory \<longrightarrow> ps = qs)"
  using reachable_ok [OF assms(2) new_memfs_ok [OF assms(1)]] dir_path_unique by blast

theorem memfs_tree_ok_witness:
  "fs_ok sample_fs \<and> plain_walk sample_fs root_ino [''srv'', ''app''] = Some 3"
proof -
  have "fs_ok sample_fs" using memfs_tree_ok [OF empty_root] sample_fs_reachable by (simp add: empty_fs_def)
  moreover have "plain_walk sample_fs root_ino [''srv'', ''app''] = Some 3" by code_simp
  ultimately show ?thesis by blast
qed

text \<open>
  C25: symbolic links cannot lead out of the root: the path a name resolves to lies below the root, no
  link is left on it (looking it up with or without following links ends at it), and it stands for the
  node the name stands for.
\<close>

theorem symlinks_stay_inside:
  assumes "fs_ok f" "eval_symlinks name f = Inr (Some q)"
  shows "\<exists>p i. resolve_path f (mf_root f) name = Inr p \<and> lookup_path f True p = Inr (i, q) \<and>
           prefix (mf_root f) q \<and> nd_kind (node_of f i) \<noteq> NodeSymlink \<and> (\<forall>follow. lookup_path f follow q = Inr (i, q))"
proof -
  obtain p where p: "resolve_path f (mf_root f) name = Inr p"
    using assms(2) by (cases "resolve_path f (mf_root f) name") (simp_all add: eval_symlinks_def split: if_splits)
  obtain i where l: "lookup_path f True p = Inr (i, q)"
    using assms(2) p by (cases "lookup_path f True p") (auto simp: eval_symlinks_def split: if_splits)
  have "lookup_path f follow q = Inr (i, q)" for follow by (rule lookup_again [OF assms(1) l])
  moreover have "nd_kind (node_of f i) \<noteq> NodeSymlink" by (rule lookup_plain [OF assms(1) l]) simp
  ultimately show ?thesis using p l lookup_proper [OF assms(1) l] by blast
qed

theorem symlinks_stay_inside_witness:
  "\<exists>p i. resolve_path sample_fs (mf_root sample_fs) ''/srv/cur/a.txt'' = Inr p \<and>
     lookup_path sample_fs True p = Inr (i, [''srv'', ''app'', ''a.txt''])"
  using symlinks_stay_inside [OF sample_fs_ok sample_resolves] by blast

text \<open>
  C26: a file that was written is read back: after \<open>WriteFile\<close> succeeds on a name that is neither the
  null device nor a FIFO, opening the name and reading gives the bytes written, also when the write
  created the file behind links that led nowhere; every other file keeps its bytes and every name that
  could be looked up still leads to the same node.
\<close>

theorem written_file_is_read:
  assumes "fs_ok f" "\<not> is_dev_null_path name" "\<not> names_fifo name f" "write_file name d perm now f = (Inr (), f')"
  shows "\<exists>p i q h. resolve_path f (mf_root f) name = Inr p \<and> lookup_path f' True p = Inr (i, q) \<and>
           fs_open name f' = (Inr (RegularFile h), f') \<and>
           fst (file_read n t h f') = Inr (if d = [] then None else Some (take n d)) \<and>
           (\<forall>j. j < mf_next f \<and> j \<noteq> i \<longrightarrow> nd_data (node_of f' j) = nd_data (node_of f j)) \<and>
           (\<forall>follow x r. lookup_path f follow x = Inr r \<longrightarrow> lookup_path f' follow x = Inr r)"
proof -
  obtain p i q where w: "resolve_path f (mf_root f) name = Inr p" "lookup_path f' True p = Inr (i, q)"
    "nd_kind (node_of f' i) = NodeRegular" "nd_data (node_of f' i) = d" "extends f f'"
    "\<forall>j. j < mf_next f \<and> j \<noteq> i \<longrightarrow> nd_data (node_of f' j) = nd_data (node_of f j)"
    using write_file_effect [OF assms] by blast
  have "resolve_path f' (mf_root f') name = Inr p" using w(1) extends_resolve [OF w(5)] extends_root [OF w(5)] by simp
  from open_read [OF assms(2) this w(2,3), of n t] w(4) obtain h where
    "fs_open name f' = (Inr (RegularFile h), f')"
    "fst (file_read n t h f') = Inr (if d = [] then None else Some (take n d))" by blast
  with w(1,2,6) lookup_extends [OF assms(1) w(5)] show ?thesis by blast
qed

theorem written_file_is_read_witness:
  "\<exists>h. fs_open ''/srv/new'' (snd (write_file ''/srv/new'' ''hi'' 420 5 sample_fs)) =
         (Inr (RegularFile h), snd (write_file ''/srv/new'' ''hi'' 420 5 sample_fs)) \<and>
       fst (file_read 512 6 h (snd (write_file ''/srv/new'' ''hi'' 420 5 sample_fs))) = Inr (Some ''hi'')"
proof -
  have "write_file ''/srv/new'' ''hi'' 420 5 sample_fs = (Inr (), snd (write_file ''/srv/new'' ''hi'' 420 5 sample_fs))"
    using sample_write by (simp add: prod_eq_iff)
  from written_file_is_read [OF sample_fs_ok sample_regular(2,1) this, of 512 6] show ?thesis by auto
qed

text \<open>
  C27: making a directory with its parents adds nodes and removes none, and making it again succeeds and
  changes nothing, whatever links the path goes through.
\<close>

theorem mkdir_all_idempotent:
  assumes "fs_ok f" "mkdir_all name perm now f = (Inr (), f')"
  shows "extends f f' \<and> mkdir_all name perm' now' f' = (Inr (), f')"
  by (rule mkdir_all_twice [OF assms])

theorem mkdir_all_idempotent_witness:
  "mkdir_all ''/srv/cur/x/y'' 448 9 (snd (mkdir_all ''/srv/cur/x/y'' 493 5 sample_fs)) =
     (Inr (), snd (mkdir_all ''/srv/cur/x/y'' 493 5 sample_fs))"
proof -
  have "mkdir_all ''/srv/cur/x/y'' 493 5 sample_fs = (Inr (), snd (mkdir_all ''/srv/cur/x/y'' 493 5 sample_fs))"
    using sample_mkdir by (simp add: prod_eq_iff)
  from mkdir_all_idempotent [OF sample_fs_ok this] show ?thesis by blast
qed



text \<open>
  C29: for a name that is neither the null device nor a FIFO: an update of a patch that succeeds replaced the
  lines of the file as its hunks say, each hunk one
  occurrence of its old lines by its new ones, and kept the final newline; every other file keeps its
  bytes, unless it held the same bytes and is the same file under another name.
\<close>

theorem patch_updates_file:
  assumes "fs_ok f" "\<not> special_name file f"
    and "apply_update_file_op (memfs_api cwd now buf nm) file hunks f = Some (Inr s, f')"
  shows "\<exists>old ls new. file_contents file f = Some old \<and>
           hunks_replaced (split_preserving_line_structure old) hunks ls \<and>
           new = join_char newline ls @ (if has_suffix old [newline] \<and> ls \<noteq> [] then [newline] else []) \<and>
           file_contents file f' = Some new \<and> fs_ok f' \<and>
           (\<forall>q x. file_contents q f = Some x \<longrightarrow> file_contents q f' = Some x \<or> x = old \<and> file_contents q f' = Some new)"
proof -
  obtain old new where u: "file_contents file f = Some old" "updated_content old hunks = Some new"
    "file_contents file f' = Some new" "fs_ok f'"
    "\<forall>q x. file_contents q f = Some x \<longrightarrow> file_contents q f' = Some x \<or> x = old \<and> file_contents q f' = Some new"
    using memfs_files.update_applied [OF assms] by blast
  obtain ls where ls: "apply_patch_hunks (split_preserving_line_structure old) hunks = Some ls"
    "new = join_char newline ls @ (if has_suffix old [newline] \<and> ls \<noteq> [] then [newline] else [])"
    using u(2) by (auto simp: updated_content_def split: option.splits)
  have "hunks_replaced (split_preserving_line_structure old) hunks ls"
    using ls(1) unfolding apply_patch_hunks_def by (rule apply_hunks_sound)
  with u ls(2) show ?thesis by blast
qed

theorem patch_updates_file_witness:
  "\<exists>f' new. sample_update = Some (Inr ''update|/srv/cur/a.txt'', f') \<and> file_contents ''/srv/cur/a.txt'' f' = Some new"
proof -
  obtain f' where f': "sample_update = Some (Inr ''update|/srv/cur/a.txt'', f')"
    using sample_update_result by auto
  then have "apply_update_file_op (memfs_api [''srv''] 7 (\<lambda>n. 2) 438) ''/srv/cur/a.txt'' [grow_hunk] sample_fs =
      Some (Inr ''update|/srv/cur/a.txt'', f')" by (simp add: sample_update_def sample_api_def)
  from patch_updates_file [OF sample_fs_ok sample_ordinary this] f' show ?thesis by blast
qed

text \<open>
  C30: an add of a patch never overwrites: when it succeeds there was no file of that name, the file
  has the lines of the patch, each with its newline, and every file that was there keeps its bytes.
\<close>

theorem patch_adds_file:
  assumes "fs_ok f" "apply_add_file_op (memfs_api cwd now buf nm) file ls f = (Inr s, f')"
  shows "file_contents file f = None \<and> file_contents file f' = Some (add_content ls) \<and> fs_ok f' \<and>
    (\<forall>q x. file_contents q f = Some x \<longrightarrow> file_contents q f' = Some x)"
  by (rule memfs_files.add_applied [OF assms])

theorem patch_adds_file_witness:
  "file_contents ''/srv/cur/doc/n.md'' sample_fs = None \<and>
   file_contents ''/srv/cur/doc/n.md'' (snd sample_add) = Some (''# n'' @ [newline])"
proof -
  have "apply_add_file_op (memfs_api [''srv''] 7 (\<lambda>n. 2) 438) ''/srv/cur/doc/n.md'' [''# n''] sample_fs =
      (Inr ''add|/srv/cur/doc/n.md'', snd sample_add)"
    using sample_add_result by (simp add: sample_add_def sample_api_def prod_eq_iff)
  from patch_adds_file [OF sample_fs_ok this] show ?thesis by (simp add: add_content_def)
qed

section \<open>Captured output\<close>

text \<open>
  C31: how a command's output is cut into writes makes no difference: after writes that all succeeded,
  the snapshot is the one of the whole output (its first bytes, whether it was cut, its length, the
  reference to the file when it is larger than the threshold), and the mirror received all of it.
\<close>

theorem capture_in_pieces:
  assumes "capture_all ps (new_capture_writer limit threshold spill mirrored) f = (Inr (), w, f1)"
  shows "fst (capture_result w f1) = snapshot_of limit threshold spill (concat (map fst ps)) \<and>
    cw_mirror w = (if mirrored then Some (concat (map fst ps)) else None)"
  using capture_snapshot_of [OF assms] by blast

theorem capture_in_pieces_witness:
  "fst sample_result = snapshot_of 3 4 (Some sample_spill) ''abcdef''"
proof -
  have "capture_all sample_writes (new_capture_writer 3 4 (Some sample_spill) True) sample_fs =
      (Inr (), fst (snd sample_capture), snd (snd sample_capture))"
    using sample_capture_done by (simp add: sample_capture_def prod_eq_iff)
  from capture_in_pieces [OF this] show ?thesis by (simp add: sample_result_def sample_writes_def)
qed

text \<open>
  C32: nothing of an output is lost while its writes succeed. With a spill path that is configured and leads
  neither to the null device nor to a FIFO, after writes that all succeeded: when the snapshot names a file, the
  file holds the whole output and the reference gives its size; when it names none, the output was empty or
  within the threshold.
\<close>

theorem spilled_file_is_whole:
  assumes "fs_ok f" "\<not> special_name (cs_path sp) f" "cs_path sp \<noteq> []"
    and "capture_all ps (new_capture_writer limit threshold (Some sp) mirrored) f = (Inr (), w, f1)"
    and "capture_result w f1 = (sn, w2, f2)"
  shows "case sn_file sn of
           None \<Rightarrow> concat (map fst ps) = [] \<or> 0 < threshold \<and> int (length (concat (map fst ps))) \<le> threshold
         | Some ref \<Rightarrow> f_path ref = cs_path sp \<and> f_size ref = int (length (concat (map fst ps))) \<and>
                       file_contents (cs_path sp) f2 = Some (concat (map fst ps))"
  by (rule capture_spilled [OF assms])

theorem spilled_file_is_whole_witness:
  "file_contents ''/srv/cur/out/log.txt'' (snd (snd sample_result)) = Some ''abcdef''"
proof -
  have c: "capture_all sample_writes (new_capture_writer 3 4 (Some sample_spill) True) sample_fs =
      (Inr (), fst (snd sample_capture), snd (snd sample_capture))"
    using sample_capture_done by (simp add: sample_capture_def prod_eq_iff)
  have r: "capture_result (fst (snd sample_capture)) (snd (snd sample_capture)) =
      (fst sample_result, fst (snd sample_result), snd (snd sample_result))" by (simp add: sample_result_def)
  show ?thesis
    using spilled_file_is_whole [OF sample_fs_ok sample_spill_ordinary c r]
    by (simp add: sample_writes_def sample_spill_def split: option.splits)
qed

text \<open>
  C33: a run spills into a directory directly below the spill directory. Its name is the identifier derived from
  the trigger, one proper path element whatever characters the trigger's own identifier has, and it is empty
  when the run begins, as long as the temporary and the spill directory are no links. Triggers from which the
  same identifier is derived share it. The exception is a dot name: for \<open>..\<close> the run takes the temporary directory
  itself and empties it.
\<close>

theorem run_spill_directory:
  assumes "fs_ok f" "sp_base sp = output_spill_base_dir f" "no_links f root_ino [''.tmp'', ''tool-outputs'']"
    and "begin_run_spill_dir sprint now tg sp f = (Inr previous, sp', f')"
  shows "(derive_run_output_id sprint now tg \<notin> {''.'', ''..''} \<longrightarrow> proper_name (derive_run_output_id sprint now tg) \<and>
            sp_run sp' = path_string (temp_dir f @ [''tool-outputs'', derive_run_output_id sprint now tg]) \<and>
            read_dir (sp_run sp') f' = Inr []) \<and>
         (derive_run_output_id sprint now tg = ''..'' \<longrightarrow> sp_run sp' = path_string (temp_dir f) \<and>
            read_dir (path_string (temp_dir f)) f' = Inr [])"
  using begun_run_dir [OF assms(1,2,4)] begun_run_empty [OF assms(1-3) _ assms(4)] by blast

theorem run_spill_directory_witness:
  "sp_run (fst (snd (sample_run_dir ''a/../b c''))) = ''/.tmp/tool-outputs/a-..-b-c'' \<and>
   read_dir ''/.tmp/tool-outputs/a-..-b-c'' (snd (snd (sample_run_dir ''a/../b c''))) = Inr [] \<and>
   sp_run (fst (snd (sample_run_dir ''..''))) = ''/.tmp'' \<and> read_dir ''/.tmp'' (snd (snd (sample_run_dir ''..''))) = Inr []"
proof -
  have b: "sp_base (spill_start sample_fs) = output_spill_base_dir sample_fs" by (simp add: spill_start_def)
  have "begin_run_spill_dir show_value 9 (spill_trigger v) (spill_start sample_fs) sample_fs =
      (Inr [], fst (snd (sample_run_dir v)), snd (snd (sample_run_dir v)))" if "fst (sample_run_dir v) = Inr []" for v
    using that by (simp add: sample_run_dir_def prod_eq_iff)
  note R = run_spill_directory [OF sample_fs_ok b sample_no_links this, of _]
  show ?thesis
    using R [OF sample_run_dirs(1)] R [OF sample_run_dirs(2)] by (auto simp: sample_run_ids sample_temp_dir)
qed

text \<open>
  C34: nothing of a large structured output is lost. When a tool's output is JSON and longer than its limit,
  the step keeps at most that many bytes, and either its call failed or a file of its own in the run's spill
  directory was written with the whole output and is among the files the step names, whatever files the output
  itself names.
\<close>

theorem json_output_is_kept:
  assumes "set_tool_output (compact_structured decode int64) show_error now sp out st f = (st', f')"
    and "trim_space out \<noteq> []" "decode (trim_space out) = Some v" "output_limit sp < int (length out)"
    and "p = path_join (path_join (sp_run sp) (''step_'' @ int_str (st_index st))) ''full_output.json''"
  shows "int (length (st_output st')) \<le> output_limit sp \<and>
    (st_status st' = StepFatalError \<or>
     (\<exists>ref \<in> set (st_output_files st'). trim_space (f_path ref) = p) \<and> (\<exists>g. write_file p out 420 now g = (Inr (), f')))"
  by (rule json_output_kept [OF assms])

theorem json_output_is_kept_witness:
  "length (st_output (fst kept_output)) \<le> 16 \<and>
   (\<exists>ref \<in> set (st_output_files (fst kept_output)). trim_space (f_path ref) = ''/.tmp/tool-outputs/a-..-b-c/step_1/full_output.json'')"
proof -
  have k: "set_tool_output (compact_structured sample_decode (\<lambda>_. None)) (\<lambda>_. ''error'') 10 (fst (snd (sample_run_dir ''a/../b c'')))
      sample_json json_step (snd (snd (sample_run_dir ''a/../b c''))) = (fst kept_output, snd kept_output)"
    by (simp add: kept_output_def sample_compactor_def)
  have j: "trim_space sample_json \<noteq> []" "output_limit (fst (snd (sample_run_dir ''a/../b c''))) < int (length sample_json)"
    by (simp_all add: sample_json_facts)
  show ?thesis
    using json_output_is_kept [OF k j(1) sample_decoded j(2) kept_output_path [symmetric]]
    by (simp add: kept_output_status sample_json_facts)
qed

text \<open>
  C35: a stub of structured output is bounded. It names at most three files, and unless it is the smallest stub
  there is, it fits the budget and, but for its files and metadata, no list in it has more than three items and
  no text more than 1536 bytes.
\<close>

theorem stub_is_bounded:
  assumes "compact_structured decode int64 budget full out = Inr (Some c)"
  shows "length (cp_files c) \<le> 3 \<and>
    (\<exists>ctx v. decode (trim_space out) = Some v \<and>
       (cp_output c = jval_text (build_minimal_stub ctx v) \<or>
        int (length (cp_output c)) \<le> (if budget \<le> 0 then default_json_stub_bytes else budget) \<and>
        (\<exists>pv fs. build_json_stub pv ctx v = JObj fs \<and> cp_output c = jval_text (JObj fs) \<and> small_but_files fs)))"
  by (rule compaction_bounded [OF assms])

theorem stub_is_bounded_witness:
  "length (cp_files sample_stub) \<le> 3 \<and> compact_structured sample_decode (\<lambda>_. None) 160 None sample_json = Inr (Some sample_stub)"
  using stub_is_bounded [OF sample_stub_made [unfolded sample_compactor_def]] sample_stub_made [unfolded sample_compactor_def] by simp

section \<open>The runtime manager\<close>

text \<open>
  C36: after a synchronisation that succeeds, whatever the manager did before, whichever workers failed
  in between and in whatever order the agents are gone through, exactly the runnable agents of the store
  have a worker that runs, each key one, started with the agent's present settings (those the code
  compares: the retry delay and the flag that preserves state between runs are not among them); no other worker
  runs without having been cancelled.
\<close>

theorem sync_converges:
  assumes "path (manager_step env) es new_manager m" "\<forall>xs. mset (order xs) = mset xs"
    and "sync_once env start order s m = (Inr (), m')"
  shows "(\<forall>k. k \<in> agent_key ` set (list_runnable_agents s) \<longleftrightarrow>
              (\<exists>i < length (mg_procs m'). live_proc (mg_procs m' ! i) \<and> proc_key (mg_procs m' ! i) = k)) \<and>
    (\<forall>i j. i < length (mg_procs m') \<and> j < length (mg_procs m') \<and> live_proc (mg_procs m' ! i) \<and> live_proc (mg_procs m' ! j) \<and>
           proc_key (mg_procs m' ! i) = proc_key (mg_procs m' ! j) \<longrightarrow> i = j) \<and>
    (\<forall>x \<in> set (mg_workers m'). \<exists>r \<in> set (list_runnable_agents s). fst x = agent_key r \<and>
           wh_fingerprint (snd x) = worker_fingerprint env r)"
proof -
  have ok: "manager_ok m" by (rule managers.path_inv [OF assms(1) new_manager_ok])
  have o: "mset (order xs) = mset xs" for xs using assms(2) by blast
  have "fresh env (desired_workers (list_runnable_agents s)) m'" by (rule sync_once_ok(2) [OF ok o assms(3)])
  then have f: "\<forall>x \<in> set (mg_workers m'). \<exists>r \<in> set (list_runnable_agents s). fst x = agent_key r \<and>
      wh_fingerprint (snd x) = worker_fingerprint env r" using fresh_agents by (intro ballI) blast
  note S = synced_workers [OF ok o assms(3)]
  show ?thesis by (rule conjI [OF conjunct1 [OF S] conjI [OF conjunct2 [OF S] f]])
qed

theorem sync_converges_witness:
  "\<exists>i. i < length (mg_procs running_manager) \<and> live_proc (mg_procs running_manager ! i) \<and>
       proc_key (mg_procs running_manager ! i) = ''ops:scout''"
proof -
  have s: "sync_once sample_env (\<lambda>_. None) (\<lambda>xs. xs) sample_store new_manager = (Inr (), running_manager)"
    using sample_sync_done by (simp add: running_manager_def sample_sync_def prod_eq_iff)
  have o: "\<forall>xs :: (string \<times> runnable_agent) list. mset ((\<lambda>xs. xs) xs) = mset xs" by simp
  note C = sync_converges [OF path_Nil [of "manager_step sample_env" new_manager] o s]
  show ?thesis by (rule iffD1 [OF spec [OF conjunct1 [OF C]] sample_runnable])
qed

section \<open>Specifications\<close>

text \<open>
  C37: after specifications were loaded and synchronised with deletion, the store holds exactly their
  agents, and the plan made from the same specifications is empty: nothing to create, update or delete,
  for namespaces, agents and schedules. Namespaces come without surrounding spaces, as directory names do, and
  durations in whole milliseconds.
\<close>

theorem plan_empty_after_sync:
  assumes "load_specs lib found = Inr specs" "system_ok s"
    and "sync_specs lib env config_root base True specs s = (Inr sm, s')"
    and "\<forall>spec \<in> set specs. plain_spec lib config_root base spec"
    and "filled_ids env" "zone_known (sl_cron lib) ''UTC''"
  shows "a_key ` set (agents s') = spec_key ` set specs \<and>
    (\<exists>p. plan_sync penv lib config_root base specs s' = Inr p \<and> \<not> has_changes p)"
  by (rule loaded_sync_plan [OF assms])

theorem plan_empty_after_sync_witness:
  "map spec_key aide_specs = [(''ops'', ''aide'')] \<and> a_key ` set (agents (snd aide_sync)) = {(''ops'', ''aide'')} \<and>
   (\<exists>p. plan_sync plain_plan_env sample_spec_lib ''/etc/swarmd'' [] aide_specs (snd aide_sync) = Inr p \<and> \<not> has_changes p)"
proof -
  have k: "map spec_key aide_specs = [(''ops'', ''aide'')]" by code_simp
  then have "spec_key ` set aide_specs = {(''ops'', ''aide'')}" by (metis list.set(1,2) list.set_map)
  then show ?thesis
    using plan_empty_after_sync [OF aide_loaded sample_system_ok aide_synced aide_plain sample_ids_filled sample_zones,
        of plain_plan_env] k by simp
qed

text \<open>
  C38: a schedule cannot move to an agent that is synchronised before its owner. When a specification
  gives a schedule an identifier that a schedule of the store has, whose agent is neither its own nor that of an
  earlier specification, the synchronisation fails, because agents are deleted and their schedules replaced
  only later. The plan for the same store shows the move as an update, as the example has it.
\<close>

theorem schedule_cannot_move:
  assumes "sync_specs lib env config_root base prune (before @ spec # after) s = (r, s')"
    and "\<forall>x \<in> set (before @ [spec]). safe_identifier (sp_agent x) \<and> s_owner c \<noteq> spec_key x" "c \<in> set (schedules s)"
    and "build_schedule_params lib spec = Inr ps" "q \<in> set ps" "\<not> blank (cs_schedule q)"
    and "s_key c = (cs_namespace q, cs_schedule q)"
  shows "\<exists>e. r = Inl e"
  using sync_specs_taken [OF assms] by (cases r) simp_all

theorem schedule_cannot_move_witness:
  "(\<exists>e. fst (sync_specs sample_spec_lib sample_sync_env ''/etc/swarmd'' [] True moved_specs sample_store) = Inl e) \<and>
   \<not> isl moved_plan \<and>
   map (\<lambda>c. (sc_action c, sc_schedule c, sc_agent c)) (pl_schedules (projr moved_plan)) = [(ChangeUpdate, ''tick'', ''aide'')]"
proof -
  have specs: "moved_specs = [] @ hd moved_specs # tl moved_specs" by (simp add: moved_specs_def)
  have "safe_identifier (sp_agent (hd moved_specs))" "spec_key (hd moved_specs) \<noteq> (''ops'', ''scout'')" by code_simp+
  then have before: "\<forall>x \<in> set ([] @ [hd moved_specs]). safe_identifier (sp_agent x) \<and> s_owner moved_schedule \<noteq> spec_key x"
    using moved_schedule_facts(2) by simp
  have q: "hd moved_params \<in> set moved_params" "\<not> blank (cs_schedule (hd moved_params))"
    using moved_params_facts(3,4) tick_filled by simp_all
  have k: "s_key moved_schedule = (cs_namespace (hd moved_params), cs_schedule (hd moved_params))"
    using moved_schedule_facts(3) moved_params_facts(2,3) by simp
  note M = schedule_cannot_move [OF surjective_pairing before moved_schedule_facts(1) moved_params_facts(1) q k]
  have "\<exists>e. fst (sync_specs sample_spec_lib sample_sync_env ''/etc/swarmd'' [] True ([] @ hd moved_specs # tl moved_specs) sample_store) = Inl e"
    by (rule M)
  then show ?thesis unfolding specs [symmetric] by (intro conjI moved_plan_updates)
qed

section \<open>Network policy\<close>

text \<open>
  C39: a tool reaches only hosts its agent allows. Whatever the address, a dial of the client that a tool
  gets either fails without calling the agent's dialer, or the tool has global or scoped network access and
  the host of the address is accepted by one of the agent's matchers, or, with scoped access, by one of those
  the tool requires.
\<close>

theorem tool_dials_allowed_hosts:
  assumes "agent_http_factory lib base (effective_tool_hosts scope global required) headers = Inr fac"
    and "hf_dialer fac cancelled network address w = (r, w')"
  shows "(\<exists>e. r = Inl e) \<and> w' = w \<or>
    (\<exists>b m. base = Some b \<and> b cancelled network address w = (r, w') \<and> matcher_accepts lib m (dial_address_host lib address) \<and>
       (normalized_scope scope = ScopeGlobal \<and> m \<in> set global \<or>
        normalized_scope scope = ScopeScoped \<and> m \<in> set global \<union> set required))"
  by (rule tool_dial_confined [OF assms])

theorem tool_dials_allowed_hosts_witness:
  "hf_dialer sample_factory False ''tcp'' ''api.example.com:443'' 0 = (Inr ''api.example.com:443'', 1) \<and>
   matcher_accepts sample_net example_hosts ''api.example.com''"
proof -
  have h: "dial_address_host sample_net ''api.example.com:443'' = ''api.example.com''"
    and s: "normalized_scope ''scoped'' = ScopeScoped"
    and v: "trim_space ''api.example.com'' \<noteq> []" "host_matches_any [CompiledGlob ''*.example.com''] ''api.example.com''" by code_simp+
  have d: "hf_dialer sample_factory False ''tcp'' ''api.example.com:443'' 0 = (Inr ''api.example.com:443'', 1)"
    using h v by (simp add: sample_factory_def allowlist_dial_def counting_dialer_def)
  have "matcher_accepts sample_net example_hosts (dial_address_host sample_net ''api.example.com:443'')"
    using tool_dials_allowed_hosts [OF sample_factory_made d] unfolding s by (elim disjE conjE exE) simp_all
  then show ?thesis using d unfolding h by (rule conjI [rotated])
qed

text \<open>
  C40: a header with a secret is sent to its domains only. If a request leaves the client with another
  value of a header than it had, then a rule of that name set it, and the rule has no domains or one of them
  accepts the host of the request's URL, which the client leaves as it is. Of the header map only: a rule named
  Host sets the request's host field instead, which is not part of the statement.
\<close>

theorem headers_stay_in_domains:
  assumes "agent_http_factory lib base reachable headers = Inr fac"
    and "rq_header (round_trip_request lib (hf_rules fac) rq) n \<noteq> rq_header rq n"
  shows "rq_url_host (round_trip_request lib (hf_rules fac) rq) = rq_url_host rq \<and>
    (\<exists>h \<in> set headers. canonical_header (trim_space (hr_name h)) = n \<and>
       rq_header (round_trip_request lib (hf_rules fac) rq) n = Some [hr_value h] \<and>
       (hr_domains h = [] \<or> (\<exists>m \<in> set (hr_domains h). matcher_accepts lib m (nl_lower lib (trim_space (rq_url_host rq))))))"
  using factory_headers_confined [OF assms] by (simp add: round_trip_url)

theorem headers_stay_in_domains_witness:
  "rq_header (round_trip_request sample_net (hf_rules sample_factory) (sample_get ''API.example.com'')) ''X-Token'' = Some [''t''] \<and>
   rq_header (round_trip_request sample_net (hf_rules sample_factory) (sample_get ''example.org'')) ''X-Token'' = None \<and>
   matcher_accepts sample_net example_hosts ''api.example.com''"
proof -
  let ?rq = "sample_get ''API.example.com''"
  have v: "rq_header (round_trip_request sample_net (hf_rules sample_factory) ?rq) ''X-Token'' = Some [''t'']"
    "rq_header (round_trip_request sample_net (hf_rules sample_factory) (sample_get ''example.org'')) ''X-Token'' = None"
    "nl_lower sample_net (trim_space (rq_url_host ?rq)) = ''api.example.com''" by code_simp+
  have "rq_header (round_trip_request sample_net (hf_rules sample_factory) ?rq) ''X-Token'' \<noteq> rq_header ?rq ''X-Token''"
    using v(1) by (simp add: sample_get_def)
  from headers_stay_in_domains [OF sample_factory_made this] v show ?thesis by (simp add: sample_header_def)
qed

end
